(* ===== verification/Prelude.thy ===== *)
theory Prelude
  imports Complex_Main "HOL-Library.Word" "HOL-Library.Multiset"
begin

text \<open>
  Shared vocabulary of the development: the collections of definitions and facts the
  component theories feed, the C++ container operations used by \<open>src/src/data/data.cc\<close>
  (\<open>std::vector::resize\<close>, a sub-range of a vector, a two-level table indexed
  \<open>[thread][group]\<close>) written once as HOL functions, and the generic lemmas on them.
\<close>

named_theorems model_defs "definitions of the model, unfolded to evaluate concrete runs"
named_theorems layout_simps "facts on prefix sums and vector layouts"

subsection \<open>Vectors\<close>

text \<open>\<open>v.resize(n, d)\<close>: truncate to \<open>n\<close> elements or pad with \<open>d\<close>.\<close>

definition resize :: "nat \<Rightarrow> 'a \<Rightarrow> 'a list \<Rightarrow> 'a list" where
  "resize n d xs = take n xs @ replicate (n - length xs) d"

text \<open>The elements at positions \<open>[b, e)\<close>, as a \<open>Span(data + b, e - b)\<close>.\<close>

definition slice :: "nat \<Rightarrow> nat \<Rightarrow> 'a list \<Rightarrow> 'a list" where
  "slice b e xs = take (e - b) (drop b xs)"

text \<open>An in-place algorithm applied to the positions \<open>[b, e)\<close> of a vector.\<close>

definition update_slice :: "nat \<Rightarrow> nat \<Rightarrow> ('a list \<Rightarrow> 'a list) \<Rightarrow> 'a list \<Rightarrow> 'a list" where
  "update_slice b e f xs = take b xs @ f (slice b e xs) @ drop e xs"

text \<open>Prefix sum \<open>f 0 + \<dots> + f (n - 1)\<close>, the shape of every offset computation.\<close>

definition psum :: "(nat \<Rightarrow> nat) \<Rightarrow> nat \<Rightarrow> nat" where
  "psum f n = sum_list (map f [0..<n])"

subsection \<open>Tables indexed by thread and group\<close>

text \<open>
  \<open>std::vector<std::vector<size_t>>\<close> read with a default of 0 outside the allocated
  part, and updated at \<open>[i][j]\<close> after growing row \<open>i\<close> to hold column \<open>j\<close>, as
  \<open>trptr.resize(j + 1, 0)\<close> does.
\<close>

definition get2 :: "nat list list \<Rightarrow> nat \<Rightarrow> nat \<Rightarrow> nat" where
  "get2 xss i j = (if i < length xss \<and> j < length (xss ! i) then xss ! i ! j else 0)"

definition grow_row :: "nat \<Rightarrow> nat list \<Rightarrow> nat list" where
  "grow_row j row = (if j < length row then row else resize (Suc j) 0 row)"

definition upd2 :: "nat list list \<Rightarrow> nat \<Rightarrow> nat \<Rightarrow> (nat \<Rightarrow> nat) \<Rightarrow> nat list list" where
  "upd2 xss i j f = xss[i := (let row = grow_row j (xss ! i) in row[j := f (row ! j)])]"

subsection \<open>Static partition of a loop among threads\<close>

text \<open>
  The loops of \<open>data.cc\<close> split \<open>[0, n)\<close> into \<open>nthread\<close> contiguous ranges of
  \<open>n / nthread\<close> iterations, the last thread taking the remainder:
  \<^verbatim>\<open>begin = tid * thread_size; end = tid != nthread - 1 ? (tid + 1) * thread_size : n\<close>.
\<close>

definition thread_range :: "nat \<Rightarrow> nat \<Rightarrow> nat \<Rightarrow> nat list" where
  "thread_range n nthread tid =
     (let thread_size = n div nthread;
          b = tid * thread_size;
          e = (if tid \<noteq> nthread - 1 then (tid + 1) * thread_size else n)
      in [b..<e])"

declare thread_range_def [model_defs]

subsection \<open>Sequences of fallible steps\<close>

text \<open>
  A loop whose body may raise: the steps run in order and the first error ends the loop,
  as an exception thrown by a \<open>CHECK\<close> does.
\<close>

fun fold_err :: "('a \<Rightarrow> 's \<Rightarrow> 'e + 's) \<Rightarrow> 'a list \<Rightarrow> 's \<Rightarrow> 'e + 's" where
  "fold_err f [] s = Inr s"
| "fold_err f (x # xs) s = (case f x s of Inl e \<Rightarrow> Inl e | Inr s' \<Rightarrow> fold_err f xs s')"

text \<open>A straight-line sequence of fallible calls: the next call runs on the value of the
  previous one, and the first error is the result.\<close>

fun err_bind :: "'e + 'a \<Rightarrow> ('a \<Rightarrow> 'e + 'b) \<Rightarrow> 'e + 'b" where
  "err_bind (Inl e) f = Inl e"
| "err_bind (Inr x) f = f x"

text \<open>\<open>common::ParallelFor(n, n_threads, fn)\<close> over a body that may throw, with the static
  schedule: thread \<open>tid\<close> runs its range of iterations, the threads one after the other.\<close>

definition parallel_for_err :: "nat \<Rightarrow> nat \<Rightarrow> (nat \<Rightarrow> nat \<Rightarrow> 's \<Rightarrow> 'e + 's) \<Rightarrow> 's \<Rightarrow> 'e + 's" where
  "parallel_for_err n nthread f =
     fold_err (\<lambda>tid. fold_err (\<lambda>i. f i tid) (thread_range n nthread tid)) [0..<nthread]"

text \<open>\<open>std::to_string\<close> of a non-negative number: its decimal digits.\<close>

fun decimal :: "nat \<Rightarrow> string" where
  "decimal n = (if n < 10 then [char_of (48 + n)] else decimal (n div 10) @ [char_of (48 + n mod 10)])"

declare decimal.simps [simp del]

declare resize_def [model_defs] slice_def [model_defs] update_slice_def [model_defs]
  psum_def [model_defs] get2_def [model_defs] grow_row_def [model_defs] upd2_def [model_defs]
  parallel_for_err_def [model_defs]

subsection \<open>Lemmas on vectors\<close>

lemma length_resize [simp]: "length (resize n d xs) = n"
  by (simp add: resize_def)

lemma nth_resize: "i < n \<Longrightarrow> resize n d xs ! i = (if i < length xs then xs ! i else d)"
  by (auto simp: resize_def nth_append min_def)

lemma resize_same [simp]: "resize (length xs) d xs = xs"
  by (simp add: resize_def)

lemma take_resize [simp]: "m \<le> length xs \<Longrightarrow> m \<le> n \<Longrightarrow> take m (resize n d xs) = take m xs"
  by (simp add: resize_def min_def)

lemma length_slice [simp]: "length (slice b e xs) = min (e - b) (length xs - b)"
  by (simp add: slice_def)

lemma slice_append_right [layout_simps]:
  "length xs \<le> b \<Longrightarrow> slice b e (xs @ ys) = slice (b - length xs) (e - length xs) ys"
  by (simp add: slice_def)

lemma slice_append_left [layout_simps]:
  "e \<le> length xs \<Longrightarrow> slice b e (xs @ ys) = slice b e xs"
  by (simp add: slice_def)

lemma slice_prefix [layout_simps]: "slice 0 (length xs) (xs @ ys) = xs"
  by (simp add: slice_def)

lemma length_update_slice [simp]:
  assumes "\<And>ys. length (f ys) = length ys" and "b \<le> e" and "e \<le> length xs"
  shows "length (update_slice b e f xs) = length xs"
  using assms by (simp add: update_slice_def)

lemma take_slice: "a \<le> b \<Longrightarrow> take b xs = take a xs @ slice a b xs"
  by (metis le_add_diff_inverse slice_def take_add)

lemma slice_map: "slice b e (map f xs) = map f (slice b e xs)"
  by (simp add: slice_def take_map drop_map)

subsection \<open>Prefix sums\<close>

lemma psum_0 [simp]: "psum f 0 = 0"
  by (simp add: psum_def)

lemma psum_Suc [simp]: "psum f (Suc n) = psum f n + f n"
  by (simp add: psum_def)

lemma psum_mono [layout_simps]: "m \<le> n \<Longrightarrow> psum f m \<le> psum f n"
  by (induction n) (auto simp: le_Suc_eq)

lemma psum_add_le [layout_simps]: "m < n \<Longrightarrow> psum f m + f m \<le> psum f n"
  using psum_mono [of "Suc m" n f] by simp

lemma psum_cong: "(\<And>i. i < n \<Longrightarrow> f i = g i) \<Longrightarrow> psum f n = psum g n"
  by (induction n) auto

lemma psum_eq_sum: "psum f n = (\<Sum>i<n. f i)"
  by (induction n) auto

lemma psum_split: "m \<le> n \<Longrightarrow> psum f n = psum f m + sum_list (map f [m..<n])"
  by (induction n) (auto simp: le_Suc_eq)

text \<open>
  Two consecutive slots of a prefix-sum layout never overlap: position \<open>psum f i + k\<close>
  with \<open>k < f i\<close> identifies \<open>i\<close> and \<open>k\<close>.
\<close>

lemma psum_slot_unique:
  assumes "k < f i" and "k' < f i'" and "psum f i + k = psum f i' + k'"
  shows "i = i' \<and> k = k'"
proof (cases i i' rule: linorder_cases)
  case less
  then have "psum f i + f i \<le> psum f i'" by (rule psum_add_le)
  with assms show ?thesis by simp
next
  case greater
  then have "psum f i' + f i' \<le> psum f i" by (rule psum_add_le)
  with assms show ?thesis by simp
next
  case equal
  with assms show ?thesis by simp
qed

lemma psum_slot_bound: "i < n \<Longrightarrow> k < f i \<Longrightarrow> psum f i + k < psum f n"
  using psum_add_le [of i n f] by simp

lemma psum_decompose:
  "q < psum f n \<Longrightarrow> \<exists>i k. i < n \<and> k < f i \<and> q = psum f i + k"
proof (induction n)
  case (Suc n)
  show ?case
  proof (cases "q < psum f n")
    case True
    with Suc.IH show ?thesis by (auto intro: less_SucI)
  next
    case False
    with Suc.prems show ?thesis by (intro exI [of _ n] exI [of _ "q - psum f n"]) auto
  qed
qed simp

lemma length_concat_upt: "length (concat (map f [0..<n])) = psum (\<lambda>i. length (f i)) n"
  by (induction n) auto

lemma nth_concat_upt:
  assumes "i < n" and "k < length (f i)"
  shows "concat (map f [0..<n]) ! (psum (\<lambda>i. length (f i)) i + k) = f i ! k"
  using assms
proof (induction n)
  case (Suc n)
  show ?case
  proof (cases "i < n")
    case True
    then have "psum (\<lambda>i. length (f i)) i + k < psum (\<lambda>i. length (f i)) n"
      using Suc.prems(2) by (intro psum_slot_bound)
    with True Suc.IH Suc.prems(2) show ?thesis by (simp add: nth_append length_concat_upt)
  next
    case False
    with Suc.prems have "i = n" by simp
    then show ?thesis by (simp add: nth_append length_concat_upt)
  qed
qed simp

lemma psum_length_take:
  "k \<le> length xs \<Longrightarrow> psum (\<lambda>i. length (xs ! i)) k = length (concat (take k xs))"
  by (induction k) (auto simp: take_Suc_conv_app_nth)


text \<open>Records tagged with the thread that produced them, selected for one thread.\<close>

lemma filter_thread_tagged:
  assumes "\<And>e t'. Q (h e t') \<longleftrightarrow> t' = t \<and> R e"
  shows "filter Q (concat (map (\<lambda>t'. map (\<lambda>e. h e t') (X t')) [0..<n])) =
           (if t < n then map (\<lambda>e. h e t) (filter R (X t)) else [])"
proof (induction n)
  case (Suc n)
  have "filter Q (map (\<lambda>e. h e n) (X n)) = (if n = t then map (\<lambda>e. h e t) (filter R (X t)) else [])"
    by (auto simp: filter_map comp_def assms filter_False)
  with Suc show ?case by auto
qed simp

subsection \<open>Thread ranges\<close>

lemma upt_append_le: "a \<le> b \<Longrightarrow> b \<le> c \<Longrightarrow> [a..<b] @ [b..<c] = [a..<c]"
  by (metis le_add_diff_inverse upt_add_eq_append)

lemma concat_thread_range_prefix:
  "k < nthread \<Longrightarrow> concat (map (thread_range n nthread) [0..<k]) = [0..<k * (n div nthread)]"
proof (induction k)
  case (Suc k)
  then have "k \<noteq> nthread - 1" by simp
  with Suc show ?case
    by (simp add: thread_range_def Let_def upt_append_le add.commute)
qed simp

text \<open>Every iteration is run by exactly one thread, in ascending order of thread ids.\<close>

lemma concat_thread_range:
  assumes "0 < nthread"
  shows "concat (map (thread_range n nthread) [0..<nthread]) = [0..<n]"
proof -
  obtain k where k: "nthread = Suc k" using assms by (cases nthread) auto
  have le: "k * (n div nthread) \<le> n"
    using div_times_less_eq_dividend [of n nthread] k by (simp add: mult.commute)
  have "concat (map (thread_range n nthread) [0..<nthread])
          = [0..<k * (n div nthread)] @ thread_range n nthread k"
    using concat_thread_range_prefix [of k nthread n] k by simp
  also have "\<dots> = [0..<n]"
    using le k by (simp add: thread_range_def Let_def upt_append_le)
  finally show ?thesis .
qed

lemma concat_map_thread_range:
  "0 < nthread \<Longrightarrow>
     concat (map (\<lambda>tid. concat (map g (thread_range n nthread tid))) [0..<nthread]) = concat (map g [0..<n])"
proof -
  assume nt: "0 < nthread"
  have "concat (map (\<lambda>tid. concat (map g (h tid))) ts) = concat (map g (concat (map h ts)))"
    for h :: "nat \<Rightarrow> nat list" and ts :: "nat list"
    by (induction ts) auto
  then show ?thesis using concat_thread_range [OF nt] by metis
qed

lemma sum_thread_range_filter:
  "0 < nt \<Longrightarrow>
     sum_list (map (\<lambda>tid. length (filter P (thread_range n nt tid))) [0..<nt]) = length (filter P [0..<n])"
proof -
  assume "0 < nt"
  then have "length (filter P [0..<n]) = length (filter P (concat (map (thread_range n nt) [0..<nt])))"
    by (simp add: concat_thread_range)
  also have "\<dots> = sum_list (map (\<lambda>tid. length (filter P (thread_range n nt tid))) [0..<nt])"
    by (simp add: filter_concat length_concat comp_def)
  finally show ?thesis by simp
qed

subsection \<open>Offset arrays\<close>

text \<open>
  A vector cut at the positions of a non-decreasing offset array starting at 0: its
  prefix up to \<open>offs ! k\<close> is the concatenation of the first \<open>k\<close> pieces.
\<close>

lemma take_concat_offsets:
  assumes len: "\<And>i. i < n \<Longrightarrow> length (g i) = offs ! Suc i - offs ! i"
    and mono: "\<And>i. i < n \<Longrightarrow> offs ! i \<le> offs ! Suc i" and z: "offs ! 0 = 0" and k: "k \<le> n"
  shows "take (offs ! k) (concat (map g [0..<n])) = concat (map g [0..<k])"
    and "length (concat (map g [0..<k])) = offs ! k"
proof -
  have L: "length (concat (map g [0..<k])) = offs ! k" if "k \<le> n" for k
    using that by (induction k) (auto simp: z len mono Suc_le_eq)
  show "length (concat (map g [0..<k])) = offs ! k" using k by (rule L)
  have "concat (map g [0..<n]) = concat (map g [0..<k]) @ concat (map g [k..<n])"
    using upt_append_le [of 0 k n] k by (metis concat_append map_append zero_le)
  then show "take (offs ! k) (concat (map g [0..<n])) = concat (map g [0..<k])"
    using L [OF k] by simp
qed

lemma slice_concat_offsets:
  assumes len: "\<And>i. i < n \<Longrightarrow> length (g i) = offs ! Suc i - offs ! i"
    and mono: "\<And>i. i < n \<Longrightarrow> offs ! i \<le> offs ! Suc i" and z: "offs ! 0 = 0" and i: "i < n"
  shows "slice (offs ! i) (offs ! Suc i) (concat (map g [0..<n])) = g i"
proof -
  have "slice (offs ! i) (offs ! Suc i) (concat (map g [0..<n]))
          = drop (offs ! i) (take (offs ! Suc i) (concat (map g [0..<n])))"
    by (simp add: slice_def drop_take)
  also have "\<dots> = drop (offs ! i) (concat (map g [0..<i]) @ g i)"
    using take_concat_offsets(1) [OF len mono z, where k = "Suc i"] i by simp
  also have "\<dots> = g i"
    using take_concat_offsets(2) [OF len mono z, where k = i] i by simp
  finally show ?thesis .
qed

subsection \<open>Fallible loops\<close>

lemma fold_err_append:
  "fold_err f (xs @ ys) s = (case fold_err f xs s of Inl e \<Rightarrow> Inl e | Inr s' \<Rightarrow> fold_err f ys s')"
  by (induction xs arbitrary: s) (auto split: sum.splits)

lemma fold_err_snoc:
  "fold_err f (xs @ [x]) s = (case fold_err f xs s of Inl e \<Rightarrow> Inl e | Inr s' \<Rightarrow> f x s')"
  by (simp add: fold_err_append split: sum.splits)

text \<open>An invariant kept by every successful step holds after a successful loop.\<close>

lemma fold_err_invariant:
  assumes "fold_err f xs s = Inr s'" and "P s"
    and "\<And>x t t'. x \<in> set xs \<Longrightarrow> P t \<Longrightarrow> f x t = Inr t' \<Longrightarrow> P t'"
  shows "P s'"
  using assms
proof (induction xs arbitrary: s)
  case (Cons x xs)
  then obtain s1 where s1: "f x s = Inr s1" and rest: "fold_err f xs s1 = Inr s'"
    by (auto split: sum.splits)
  have "P s1" using Cons.prems(2,3) s1 by auto
  then show ?case using Cons.IH [OF rest] Cons.prems(3) by auto
qed simp

lemma fold_err_concat:
  "fold_err f (concat (map g ts)) = fold_err (\<lambda>t. fold_err f (g t)) ts"
proof
  show "fold_err f (concat (map g ts)) s = fold_err (\<lambda>t. fold_err f (g t)) ts s" for s
    by (induction ts arbitrary: s) (auto simp: fold_err_append split: sum.splits)
qed

lemma fold_err_map: "fold_err f (map g xs) = fold_err (\<lambda>x. f (g x)) xs"
proof
  show "fold_err f (map g xs) s = fold_err (\<lambda>x. f (g x)) xs s" for s
    by (induction xs arbitrary: s) (auto split: sum.splits)
qed

text \<open>A step skipped by a guard is a step of the filtered loop.\<close>

lemma fold_err_filter:
  "fold_err (\<lambda>x s. if P x then f x s else Inr s) xs s = fold_err f (filter P xs) s"
  by (induction xs arbitrary: s) (auto split: sum.splits)

text \<open>A callee's error wrapped into the caller's error type.\<close>

lemma fold_err_map_sum:
  "fold_err (\<lambda>x s. map_sum F id (f x s)) xs s = map_sum F id (fold_err f xs s)"
  by (induction xs arbitrary: s) (auto split: sum.splits)

lemma case_sum_wrap: "(case r of Inl e \<Rightarrow> Inl (F e) | Inr s \<Rightarrow> Inr s) = map_sum F id r"
  by (cases r) auto

lemma err_bind_eq_Inr:
  "err_bind m f = Inr y \<longleftrightarrow> (\<exists>x. m = Inr x \<and> f x = Inr y)"
  by (cases m) simp_all

lemma err_bind_eq_Inl:
  "err_bind m f = Inl e \<longleftrightarrow> m = Inl e \<or> (\<exists>x. m = Inr x \<and> f x = Inl e)"
  by (cases m) simp_all

subsection \<open>Running maxima\<close>

lemma fold_max_max: "fold max xs (max a b) = max a (fold max xs b)"
  for a :: "'a::linorder"
proof (induction xs arbitrary: b)
  case (Cons x xs)
  have "max x (max a b) = max a (max x b)" by (rule max.left_commute)
  with Cons show ?case by simp
qed simp

lemma fold_max_word: "fold max xs a = max a (fold max xs 0)"
  for a :: "'a::len word"
  using fold_max_max [of xs a 0] by (simp add: max_def)

lemma fold_max_ge_init: "a \<le> fold max xs a"
  for a :: "'a::linorder"
  by (induction xs arbitrary: a) (auto intro: order_trans [OF max.cobounded2])

lemma fold_max_ge: "x \<in> set xs \<Longrightarrow> f x \<le> fold max (map f xs) a"
  for f :: "'b \<Rightarrow> 'a::linorder"
proof (induction xs arbitrary: a)
  case (Cons y xs)
  show ?case
  proof (cases "x = y")
    case True
    then show ?thesis using fold_max_ge_init [of "max (f y) a" "map f xs"] by simp
  next
    case False
    with Cons show ?thesis by simp
  qed
qed simp

lemma fold_max_bounded: "\<forall>x \<in> set xs. f x \<le> a \<Longrightarrow> fold max (map f xs) a = a"
  for f :: "'b \<Rightarrow> 'a::linorder"
  by (induction xs) (simp_all add: max_absorb2)

text \<open>Per-thread maxima reduced after the loop are the maximum of the whole loop.\<close>

lemma fold_max_concat:
  "fold max (map f (concat (map X ts))) a = fold max (map (\<lambda>t. fold max (map f (X t)) 0) ts) a"
  for f :: "'b \<Rightarrow> 'a::len word"
proof (induction ts arbitrary: a)
  case (Cons t ts)
  have "fold max (map f (X t)) a = max (fold max (map f (X t)) 0) a"
    by (subst fold_max_word) (simp add: max.commute)
  with Cons show ?case by simp
qed simp

text \<open>A parallel loop whose body is a loop over a sequence of calls is one loop over all the
  calls, thread after thread.\<close>

lemma parallel_for_err_flat:
  "parallel_for_err n nthread (\<lambda>i tid. fold_err (\<lambda>x. F (h i tid x)) (X i)) s =
     fold_err F (concat (map (\<lambda>tid. concat (map (\<lambda>i. map (h i tid) (X i)) (thread_range n nthread tid)))
       [0..<nthread])) s"
  by (simp add: parallel_for_err_def fold_err_concat fold_err_map)

subsection \<open>Tables\<close>

lemma length_upd2 [simp]: "length (upd2 xss i j f) = length xss"
  by (simp add: upd2_def)

lemma get2_upd2:
  "i < length xss \<Longrightarrow> get2 (upd2 xss i j f) i' j' =
     (if i' = i \<and> j' = j then f (get2 xss i j) else get2 xss i' j')"
  by (auto simp: get2_def upd2_def grow_row_def Let_def nth_list_update nth_resize)

lemma length_upd2_row:
  "i < length xss \<Longrightarrow> length (upd2 xss i j f ! i') =
     (if i' = i then max (Suc j) (length (xss ! i)) else length (xss ! i'))"
  by (auto simp: upd2_def grow_row_def Let_def nth_list_update)

end
