(* ===== verification/Entry.thy ===== *)
theory Entry
  imports Prelude "HOL-Library.Product_Lexorder"
begin

text \<open>
  The Entry Store: the 32-bit float values the pages carry and the fixed-width
  \<open>Entry\<close> record \<open>(index, fvalue)\<close> of \<open>include/xgboost/data.h\<close> with its two
  comparators \<open>CmpIndex\<close> and \<open>CmpValue\<close>. A float is modelled by what the code
  observes of it: a finite value, one of the two infinities, or NaN; rounding plays no
  part, since the code only copies and compares values. Equality and \<open><\<close> follow
  IEEE 754: NaN compares unequal and unordered to everything, itself included.
\<close>

subsection \<open>32-bit floats as the code observes them\<close>

datatype f32 = Fin real | PosInf | NegInf | NaN

text \<open>\<open>std::isinf\<close> and \<open>common::CheckNAN\<close>.\<close>

fun isinf :: "f32 \<Rightarrow> bool" where
  "isinf PosInf = True"
| "isinf NegInf = True"
| "isinf _ = False"

fun isnan :: "f32 \<Rightarrow> bool" where
  "isnan NaN = True"
| "isnan _ = False"

text \<open>IEEE \<open>==\<close> and \<open><\<close>.\<close>

fun f32_eq :: "f32 \<Rightarrow> f32 \<Rightarrow> bool" where
  "f32_eq (Fin a) (Fin b) = (a = b)"
| "f32_eq PosInf PosInf = True"
| "f32_eq NegInf NegInf = True"
| "f32_eq _ _ = False"

fun f32_less :: "f32 \<Rightarrow> f32 \<Rightarrow> bool" where
  "f32_less (Fin a) (Fin b) = (a < b)"
| "f32_less NegInf (Fin _) = True"
| "f32_less NegInf PosInf = True"
| "f32_less (Fin _) PosInf = True"
| "f32_less _ _ = False"

text \<open>
  A sort key that orders the NaN-free floats as \<open><\<close> does; NaN, for which \<open>std::sort\<close>
  with \<open>CmpValue\<close> has no defined outcome, is put last.
\<close>

fun f32_key :: "f32 \<Rightarrow> nat \<times> real" where
  "f32_key NegInf = (0, 0)"
| "f32_key (Fin r) = (1, r)"
| "f32_key PosInf = (2, 0)"
| "f32_key NaN = (3, 0)"

subsection \<open>Entries\<close>

text \<open>\<open>struct Entry { bst_feature_t index; bst_float fvalue; }\<close>, \<open>bst_feature_t\<close> being
  \<open>uint32_t\<close>.\<close>

record entry =
  index :: "32 word"
  fvalue :: f32

definition Entry :: "32 word \<Rightarrow> f32 \<Rightarrow> entry" where
  "Entry i v = \<lparr>index = i, fvalue = v\<rparr>"

definition CmpIndex :: "entry \<Rightarrow> entry \<Rightarrow> bool" where
  "CmpIndex a b = (index a < index b)"

definition CmpValue :: "entry \<Rightarrow> entry \<Rightarrow> bool" where
  "CmpValue a b = f32_less (fvalue a) (fvalue b)"

text \<open>A slice is sorted for a comparator when no element compares less than the one
  before it (\<open>std::is_sorted\<close>).\<close>

fun is_sorted_by :: "('a \<Rightarrow> 'a \<Rightarrow> bool) \<Rightarrow> 'a list \<Rightarrow> bool" where
  "is_sorted_by cmp (x # y # zs) = (\<not> cmp y x \<and> is_sorted_by cmp (y # zs))"
| "is_sorted_by cmp _ = True"

declare Entry_def [model_defs] CmpIndex_def [model_defs] CmpValue_def [model_defs]

subsection \<open>Facts on floats and entries\<close>

lemma f32_eq_iff: "f32_eq a b \<longleftrightarrow> a = b \<and> \<not> isnan a"
  by (cases a; cases b) auto

lemma f32_less_key:
  "\<not> isnan a \<Longrightarrow> \<not> isnan b \<Longrightarrow> f32_less a b \<longleftrightarrow> f32_key a < f32_key b"
  by (cases a; cases b) auto

lemma index_Entry [simp]: "index (Entry i v) = i"
  and fvalue_Entry [simp]: "fvalue (Entry i v) = v"
  by (simp_all add: Entry_def)

text \<open>A comparator that is \<open><\<close> on a key checks sortedness by that key.\<close>

lemma is_sorted_by_key:
  "\<forall>x \<in> set xs. \<forall>y \<in> set xs. cmp x y \<longleftrightarrow> key x < key y \<Longrightarrow>
     is_sorted_by cmp xs \<longleftrightarrow> sorted (map key xs)"
  for key :: "'a \<Rightarrow> 'b::linorder"
proof (induction cmp xs rule: is_sorted_by.induct)
  case (1 cmp x y zs)
  then show ?case by (auto simp: not_less intro: order_trans)
qed auto

lemma is_sorted_by_CmpIndex: "is_sorted_by CmpIndex xs \<longleftrightarrow> sorted (map index xs)"
  by (rule is_sorted_by_key) (simp add: CmpIndex_def)

lemma is_sorted_by_CmpValue:
  "\<forall>e \<in> set xs. \<not> isnan (fvalue e) \<Longrightarrow>
     is_sorted_by CmpValue xs \<longleftrightarrow> sorted (map (\<lambda>e. f32_key (fvalue e)) xs)"
  by (rule is_sorted_by_key) (simp add: CmpValue_def f32_less_key)

end
