(* ===== verification/Validity.thy ===== *)
theory Validity
  imports Entry
begin

text \<open>
  The Validity Filter of \<open>SparsePage::Push(batch, missing, nthread)\<close>
  (\<open>src/src/data/data.cc\<close>): an element is stored when its value is not NaN and differs
  from the missing sentinel (the test of the first pass, and \<open>data::IsValidFunctor\<close> in
  the second), and an infinite value is inadmissible unless the sentinel itself is
  infinite (the \<open>valid\<close> flag reported as \<open>error::InfInData\<close>).
\<close>

definition is_valid :: "f32 \<Rightarrow> f32 \<Rightarrow> bool" where
  "is_valid missing v = (\<not> isnan v \<and> \<not> f32_eq v missing)"

definition inf_admissible :: "f32 \<Rightarrow> f32 \<Rightarrow> bool" where
  "inf_admissible missing v = (\<not> (\<not> isinf missing \<and> isinf v))"

declare is_valid_def [model_defs] inf_admissible_def [model_defs]

lemma is_valid_iff: "is_valid missing v \<longleftrightarrow> v \<noteq> NaN \<and> v \<noteq> missing"
  by (cases v) (auto simp: is_valid_def f32_eq_iff)

lemma is_valid_NaN_sentinel: "is_valid NaN v \<longleftrightarrow> v \<noteq> NaN"
  by (simp add: is_valid_iff)

lemma inf_admissible_iff:
  "inf_admissible missing v \<longleftrightarrow> isinf missing \<or> \<not> isinf v"
  by (simp add: inf_admissible_def)

end
