(* ===== verification/Group_Builder.thy ===== *)
theory Group_Builder
  imports Prelude
begin

text \<open>
  The Parallel Group Builder, \<open>common::ParallelGroupBuilder\<close> of
  \<open>src/common/group_data.h\<close>. That header is not among the sources, so the model follows
  the contract of the specification (section 4.2): a per-thread, per-group budget table
  filled in a counting pass (\<open>InitBudget\<close>, \<open>AddBudget\<close>), turned by
  \<open>InitStorage\<close> into a prefix-sum offset array appended to the target and a
  per-thread, per-group write cursor, and consumed by the placement pass (\<open>Push\<close>).
  The tables grow on demand, as \<open>std::vector::resize\<close> does in the header.

  Groups are numbered from the builder's base \<open>gb_base\<close>; the table column \<open>j\<close>
  holds group \<open>gb_base + j\<close>. A group below the base, a thread the table does not have,
  and a push beyond the budget of its \<open>(thread, group)\<close> pair are the contract
  violations of the specification's error taxonomy, returned as \<open>Inl\<close>.
\<close>

datatype gb_error = GroupBelowBase | BadThread | BudgetExceeded

record 'v group_builder =
  gb_offset :: "nat list"
  gb_data :: "'v list"
  gb_base :: nat
  gb_budget :: "nat list list"
  gb_cursor :: "nat list list"

text \<open>The constructor \<open>ParallelGroupBuilder(&offset, &data, base_row_offset)\<close>.\<close>

definition gb_new :: "nat list \<Rightarrow> 'v list \<Rightarrow> nat \<Rightarrow> 'v group_builder" where
  "gb_new offset data base =
     \<lparr>gb_offset = offset, gb_data = data, gb_base = base, gb_budget = [], gb_cursor = []\<rparr>"

text \<open>\<open>InitBudget(max_key, nthread)\<close>: one zeroed row per thread, one column per group
  in \<open>[base, max_key)\<close>.\<close>

definition InitBudget :: "nat \<Rightarrow> nat \<Rightarrow> 'v group_builder \<Rightarrow> 'v group_builder" where
  "InitBudget max_key nthread st =
     st\<lparr>gb_budget := replicate nthread (replicate (max_key - gb_base st) 0), gb_cursor := []\<rparr>"

text \<open>\<open>AddBudget(key, threadid)\<close>: one more record of group \<open>key\<close> seen by the thread.\<close>

definition AddBudget :: "nat \<Rightarrow> nat \<Rightarrow> 'v group_builder \<Rightarrow> gb_error + 'v group_builder" where
  "AddBudget key tid st =
     (if key < gb_base st then Inl GroupBelowBase
      else if length (gb_budget st) \<le> tid then Inl BadThread
      else Inr (st\<lparr>gb_budget := upd2 (gb_budget st) tid (key - gb_base st) Suc\<rparr>))"

text \<open>The number of groups the table covers, the last offset of the target, the total of a
  group over all threads, and the first slot of thread \<open>t\<close> in group \<open>j\<close>.\<close>

definition ngroups :: "nat list list \<Rightarrow> nat" where
  "ngroups tab = foldr (\<lambda>row m. max (length row) m) tab 0"

definition top_offset :: "nat list \<Rightarrow> nat" where
  "top_offset off = (if off = [] then 0 else last off)"

definition group_total :: "nat list list \<Rightarrow> nat \<Rightarrow> nat" where
  "group_total tab j = psum (\<lambda>t. get2 tab t j) (length tab)"

definition slot_start :: "nat \<Rightarrow> nat list list \<Rightarrow> nat \<Rightarrow> nat \<Rightarrow> nat" where
  "slot_start top0 tab t j = top0 + psum (group_total tab) j + psum (\<lambda>t'. get2 tab t' j) t"

definition tabulate :: "nat \<Rightarrow> nat \<Rightarrow> (nat \<Rightarrow> nat \<Rightarrow> nat) \<Rightarrow> nat list list" where
  "tabulate T G f = map (\<lambda>t. map (f t) [0..<G]) [0..<T]"

text \<open>
  \<open>InitStorage()\<close>: the group totals become a prefix sum appended to the offsets, the data
  grows to the new last offset (filled with the default value \<open>d\<close>, as
  \<open>data.resize\<close> does), the remaining budget is the count of the pass, and the cursor of
  thread \<open>t\<close> in group \<open>j\<close> is the group's base plus the counts of threads \<open>0..t-1\<close>.
\<close>

definition InitStorage :: "'v \<Rightarrow> 'v group_builder \<Rightarrow> 'v group_builder" where
  "InitStorage d st =
     (let tab = gb_budget st; T = length tab; G = ngroups tab; top0 = top_offset (gb_offset st)
      in st\<lparr>gb_offset := gb_offset st @ map (\<lambda>j. top0 + psum (group_total tab) (Suc j)) [0..<G],
            gb_data := resize (top0 + psum (group_total tab) G) d (gb_data st),
            gb_budget := tabulate T G (get2 tab),
            gb_cursor := tabulate T G (slot_start top0 tab)\<rparr>)"

text \<open>\<open>Push(key, value, threadid)\<close>: write at the thread's cursor in the group, advance it.\<close>

definition GroupPush :: "nat \<Rightarrow> 'v \<Rightarrow> nat \<Rightarrow> 'v group_builder \<Rightarrow> gb_error + 'v group_builder" where
  "GroupPush key v tid st =
     (if key < gb_base st then Inl GroupBelowBase
      else if length (gb_cursor st) \<le> tid then Inl BadThread
      else let j = key - gb_base st in
        if get2 (gb_budget st) tid j = 0 then Inl BudgetExceeded
        else Inr (st\<lparr>gb_data := (gb_data st)[get2 (gb_cursor st) tid j := v],
                    gb_cursor := upd2 (gb_cursor st) tid j Suc,
                    gb_budget := upd2 (gb_budget st) tid j (\<lambda>n. n - 1)\<rparr>))"

text \<open>The two passes as sequences of calls: \<open>(key, thread)\<close> and \<open>(key, value, thread)\<close>.\<close>

definition add_budget_all :: "(nat \<times> nat) list \<Rightarrow> 'v group_builder \<Rightarrow> gb_error + 'v group_builder" where
  "add_budget_all = fold_err (\<lambda>(k, t). AddBudget k t)"

definition push_all :: "(nat \<times> 'v \<times> nat) list \<Rightarrow> 'v group_builder \<Rightarrow> gb_error + 'v group_builder" where
  "push_all = fold_err (\<lambda>(k, v, t). GroupPush k v t)"

declare gb_new_def [model_defs] InitBudget_def [model_defs] AddBudget_def [model_defs]
  ngroups_def [model_defs] top_offset_def [model_defs] group_total_def [model_defs]
  slot_start_def [model_defs] tabulate_def [model_defs] InitStorage_def [model_defs]
  GroupPush_def [model_defs] add_budget_all_def [model_defs] push_all_def [model_defs]

subsection \<open>What a placement pass pushes\<close>

text \<open>The values a thread pushes to a group, in its order, and the contract that no
  \<open>(thread, group)\<close> pair pushes more than its budget.\<close>

definition pushed :: "(nat \<times> 'v \<times> nat) list \<Rightarrow> nat \<Rightarrow> nat \<Rightarrow> 'v list" where
  "pushed ops t k = map (fst \<circ> snd) (filter (\<lambda>(k', v, t'). k' = k \<and> t' = t) ops)"

definition fits :: "nat \<Rightarrow> nat list list \<Rightarrow> (nat \<times> 'v \<times> nat) list \<Rightarrow> bool" where
  "fits base tab ops =
     (\<forall>(k, v, t) \<in> set ops. base \<le> k \<and> length (pushed ops t k) \<le> get2 tab t (k - base))"

text \<open>The state reached after placing \<open>ops\<close> from \<open>InitStorage d S1\<close>: the cursor and the
  remaining budget of each pair moved by its count, each pushed value at its slot, every
  other position as \<open>InitStorage\<close> left it (a proof device of the placement lemmas).\<close>

definition placed :: "'v \<Rightarrow> 'v group_builder \<Rightarrow> (nat \<times> 'v \<times> nat) list \<Rightarrow> 'v group_builder \<Rightarrow> bool" where
  "placed d S1 ops S \<longleftrightarrow>
     (let tab = gb_budget S1; base = gb_base S1; top0 = top_offset (gb_offset S1);
          T = length tab; G = ngroups tab; S2 = InitStorage d S1;
          cnt = (\<lambda>t j. length (pushed ops t (base + j)))
      in gb_offset S = gb_offset S2 \<and> gb_base S = base \<and> group_builder.more S = group_builder.more S2 \<and>
         gb_budget S = tabulate T G (\<lambda>t j. get2 tab t j - cnt t j) \<and>
         gb_cursor S = tabulate T G (\<lambda>t j. slot_start top0 tab t j + cnt t j) \<and>
         length (gb_data S) = length (gb_data S2) \<and>
         (\<forall>t j k. k < cnt t j \<longrightarrow> gb_data S ! (slot_start top0 tab t j + k) = pushed ops t (base + j) ! k) \<and>
         (\<forall>p. (\<forall>t j k. k < cnt t j \<longrightarrow> p \<noteq> slot_start top0 tab t j + k) \<longrightarrow>
               gb_data S ! p = gb_data S2 ! p))"

text \<open>The calls of one thread, in its program order: two runs that agree on them are two
  interleavings of the same threads.\<close>

definition thread_ops :: "nat \<Rightarrow> (nat \<times> 'v \<times> nat) list \<Rightarrow> (nat \<times> 'v \<times> nat) list" where
  "thread_ops t ops = filter (\<lambda>(k, v, t'). t' = t) ops"

text \<open>The sequential specification of the builder: each group in turn, in it the records
  of thread 0, then thread 1, and so on, each thread's in its order.\<close>

definition bucket :: "(nat \<times> 'v \<times> nat) list \<Rightarrow> nat \<Rightarrow> nat \<Rightarrow> nat \<Rightarrow> 'v list" where
  "bucket ops base T G = concat (map (\<lambda>j. concat (map (\<lambda>t. pushed ops t (base + j)) [0..<T])) [0..<G])"

text \<open>The table the counting pass leaves: one increment per \<open>(group column, thread)\<close>.\<close>

definition budget_table :: "nat list list \<Rightarrow> (nat \<times> nat) list \<Rightarrow> nat list list" where
  "budget_table tab ops = foldl (\<lambda>tab (j, t). upd2 tab t j Suc) tab ops"

subsection \<open>Layout lemmas\<close>

lemma ngroups_ge: "t < length tab \<Longrightarrow> length (tab ! t) \<le> ngroups tab"
proof (induction tab arbitrary: t)
  case (Cons row tab)
  then show ?case
    by (cases t) (auto simp: ngroups_def le_max_iff_disj)
qed simp

lemma get2_nonzero: "get2 tab t j \<noteq> 0 \<Longrightarrow> t < length tab \<and> j < ngroups tab"
  by (auto simp: get2_def dest: ngroups_ge split: if_splits)

lemma get2_tabulate [simp]:
  "get2 (tabulate T G f) t j = (if t < T \<and> j < G then f t j else 0)"
  by (auto simp: get2_def tabulate_def)

lemma length_tabulate [simp]: "length (tabulate T G f) = T"
  by (simp add: tabulate_def)

lemma upd2_tabulate:
  "t < T \<Longrightarrow> j < G \<Longrightarrow>
     upd2 (tabulate T G f) t j h = tabulate T G (\<lambda>t' j'. if t' = t \<and> j' = j then h (f t j) else f t' j')"
  by (auto simp: tabulate_def upd2_def grow_row_def intro!: nth_equalityI simp: nth_list_update)

lemma slot_inner_bound:
  assumes "k < get2 tab t j"
  shows "psum (\<lambda>t'. get2 tab t' j) t + k < group_total tab j"
  using assms get2_nonzero [of tab t j] unfolding group_total_def
  by (intro psum_slot_bound) auto

text \<open>Distinct \<open>(thread, group, k)\<close> slots within the budgets are distinct positions:
  the reason the placement pass needs no lock.\<close>

lemma slot_start_unique:
  assumes "k < get2 tab t j" and "k' < get2 tab t' j'"
    and "slot_start top0 tab t j + k = slot_start top0 tab t' j' + k'"
  shows "t = t' \<and> j = j' \<and> k = k'"
proof -
  let ?i = "\<lambda>t j k. psum (\<lambda>t'. get2 tab t' j) t + k"
  have "?i t j k < group_total tab j" and "?i t' j' k' < group_total tab j'"
    using assms(1,2) by (auto intro: slot_inner_bound)
  moreover have "psum (group_total tab) j + ?i t j k = psum (group_total tab) j' + ?i t' j' k'"
    using assms(3) by (simp add: slot_start_def add.assoc)
  ultimately have j: "j = j'" and "?i t j k = ?i t' j' k'"
    using psum_slot_unique [of "?i t j k" "group_total tab" j "?i t' j' k'" j'] by auto
  with assms(1,2) have "t = t' \<and> k = k'"
    using psum_slot_unique [of k "\<lambda>t. get2 tab t j" t k' t'] by auto
  with j show ?thesis by simp
qed

lemma slot_start_bound:
  assumes "k < get2 tab t j"
  shows "slot_start top0 tab t j + k < top0 + psum (group_total tab) (ngroups tab)"
proof -
  have "j < ngroups tab" using assms get2_nonzero [of tab t j] by simp
  then have "psum (group_total tab) j + (psum (\<lambda>t'. get2 tab t' j) t + k)
               < psum (group_total tab) (ngroups tab)"
    using assms by (intro psum_slot_bound slot_inner_bound)
  then show ?thesis by (simp add: slot_start_def)
qed

subsection \<open>The counting pass\<close>

lemma ngroups_Cons [simp]: "ngroups (row # tab) = max (length row) (ngroups tab)"
  by (simp add: ngroups_def)

lemma ngroups_upd2:
  "t < length tab \<Longrightarrow> ngroups (upd2 tab t j f) = max (Suc j) (ngroups tab)"
proof (induction tab arbitrary: t)
  case (Cons row tab)
  show ?case
  proof (cases t)
    case 0
    then show ?thesis
      by (simp add: upd2_def grow_row_def Let_def max.assoc [symmetric] max_def)
  next
    case (Suc t')
    then have "upd2 (row # tab) t j f = row # upd2 tab t' j f" by (simp add: upd2_def)
    with Cons Suc show ?thesis by (simp add: max.left_commute)
  qed
qed simp

lemma ngroups_replicate: "0 < n \<Longrightarrow> ngroups (replicate n row) = length row"
proof (induction n)
  case (Suc n)
  then show ?case by (cases n) (simp_all add: ngroups_def)
qed simp

lemma budget_table_Cons [simp]:
  "budget_table tab ((j, t) # ops) = budget_table (upd2 tab t j Suc) ops"
  by (simp add: budget_table_def)

lemma length_budget_table [simp]: "length (budget_table tab ops) = length tab"
  by (induction ops arbitrary: tab) (auto simp: budget_table_def)

lemma get2_budget_table:
  assumes "\<forall>(j, t) \<in> set ops. t < length tab"
  shows "get2 (budget_table tab ops) t j = get2 tab t j + length (filter ((=) (j, t)) ops)"
  using assms
proof (induction ops arbitrary: tab)
  case (Cons op ops)
  obtain j' t' where op: "op = (j', t')" by (cases op)
  with Cons.prems have t': "t' < length tab" by auto
  have "\<forall>(j, t) \<in> set ops. t < length (upd2 tab t' j' Suc)" using Cons.prems by auto
  with Cons.IH t' show ?case by (auto simp: op get2_upd2)
qed (simp add: budget_table_def)

lemma ngroups_budget_table:
  assumes "\<forall>(j, t) \<in> set ops. t < length tab"
  shows "ngroups (budget_table tab ops) = fold max (map (\<lambda>(j, t). Suc j) ops) (ngroups tab)"
  using assms
proof (induction ops arbitrary: tab)
  case (Cons op ops)
  obtain j' t' where op: "op = (j', t')" by (cases op)
  with Cons.prems have t': "t' < length tab" by auto
  have "\<forall>(j, t) \<in> set ops. t < length (upd2 tab t' j' Suc)" using Cons.prems by auto
  with Cons.IH t' show ?case by (simp add: op ngroups_upd2)
qed (simp add: budget_table_def)

lemma budget_table_append:
  "budget_table tab (xs @ ys) = budget_table (budget_table tab xs) ys"
  by (simp add: budget_table_def)


text \<open>The counting pass run by \<open>add_budget_all\<close> never fails on groups at or above the
  base and threads the table has, and leaves the counts of \<open>budget_table\<close>.\<close>

lemma add_budget_all_table:
  assumes "\<forall>(k, t) \<in> set ops. gb_base st \<le> k \<and> t < length (gb_budget st)"
  shows "add_budget_all ops st =
           Inr (st\<lparr>gb_budget := budget_table (gb_budget st) (map (\<lambda>(k, t). (k - gb_base st, t)) ops)\<rparr>)"
  using assms
proof (induction ops arbitrary: st)
  case (Cons op ops)
  obtain k t where op: "op = (k, t)" by (cases op)
  with Cons.prems have "gb_base st \<le> k" and "t < length (gb_budget st)" by auto
  with Cons show ?case by (simp add: op add_budget_all_def AddBudget_def)
qed (simp add: add_budget_all_def budget_table_def)

subsection \<open>The placement pass\<close>
lemma push_all_append:
  "push_all (xs @ ys) st = (case push_all xs st of Inl e \<Rightarrow> Inl e | Inr s \<Rightarrow> push_all ys s)"
  unfolding push_all_def by (rule fold_err_append)


lemma pushed_snoc:
  "pushed (ops @ [(k, v, t)]) t' k' = pushed ops t' k' @ (if k' = k \<and> t' = t then [v] else [])"
  by (simp add: pushed_def)

lemma fits_prefix: "fits base tab (ops @ [op]) \<Longrightarrow> fits base tab ops"
  by (cases op) (fastforce simp: fits_def pushed_snoc split: if_splits)

lemma fits_cnt:
  assumes "fits base tab ops"
  shows "length (pushed ops t (base + j)) \<le> get2 tab t j"
proof (cases "pushed ops t (base + j) = []")
  case False
  then obtain v where "(base + j, v, t) \<in> set ops"
    by (auto simp: pushed_def filter_empty_conv)
  with assms show ?thesis by (fastforce simp: fits_def)
qed simp

lemma placed_Nil: "placed d S1 [] (InitStorage d S1)"
  by (simp add: placed_def InitStorage_def Let_def pushed_def)

lemma placed_step:
  assumes pl: "placed d S1 ops S" and fit: "fits (gb_base S1) (gb_budget S1) (ops @ [(k, v, t)])"
  shows "\<exists>S'. GroupPush k v t S = Inr S' \<and> placed d S1 (ops @ [(k, v, t)]) S'"
proof -
  define tab where "tab = gb_budget S1"
  define base where "base = gb_base S1"
  define top0 where "top0 = top_offset (gb_offset S1)"
  define T where "T = length tab"
  define G where "G = ngroups tab"
  define cnt where "cnt = (\<lambda>t j. length (pushed ops t (base + j)))"
  define cnt' where "cnt' = (\<lambda>t1 j1. length (pushed (ops @ [(k, v, t)]) t1 (base + j1)))"
  define j where "j = k - base"
  define p where "p = slot_start top0 tab t j + cnt t j"
  have kb: "base \<le> k" and kj: "k = base + j"
    using fit by (auto simp: fits_def base_def j_def)
  have cnt'_eq: "cnt' t' j' = cnt t' j' + (if t' = t \<and> j' = j then 1 else 0)" for t' j'
    using kj by (auto simp: cnt'_def cnt_def pushed_snoc)
  have fit0: "fits base tab ops" using fit fits_prefix by (simp add: base_def tab_def)
  have cnt_le: "cnt t' j' \<le> get2 tab t' j'" for t' j'
    using fits_cnt [OF fit0] by (simp add: cnt_def)
  have "cnt' t j \<le> get2 tab t j"
    using fits_cnt [OF fit] by (simp add: cnt'_def base_def tab_def)
  then have lt: "cnt t j < get2 tab t j" by (simp add: cnt'_eq)
  then have tT: "t < T" and jG: "j < G"
    using get2_nonzero [of tab t j] by (auto simp: T_def G_def)
  from pl have
    off: "gb_offset S = gb_offset (InitStorage d S1)" and bs: "gb_base S = base" and
    mr: "group_builder.more S = group_builder.more (InitStorage d S1)" and
    bud: "gb_budget S = tabulate T G (\<lambda>t j. get2 tab t j - cnt t j)" and
    cur: "gb_cursor S = tabulate T G (\<lambda>t j. slot_start top0 tab t j + cnt t j)" and
    len: "length (gb_data S) = length (gb_data (InitStorage d S1))" and
    slots: "\<And>t j k. k < cnt t j \<Longrightarrow> gb_data S ! (slot_start top0 tab t j + k) = pushed ops t (base + j) ! k" and
    rest: "\<And>q. (\<forall>t j k. k < cnt t j \<longrightarrow> q \<noteq> slot_start top0 tab t j + k) \<Longrightarrow>
             gb_data S ! q = gb_data (InitStorage d S1) ! q"
    unfolding placed_def Let_def tab_def base_def top0_def T_def G_def cnt_def by auto
  have p_len: "p < length (gb_data S)"
    using slot_start_bound [OF lt, of top0] len
    by (simp add: p_def InitStorage_def Let_def tab_def top0_def G_def)
  define S' where "S' = S\<lparr>gb_data := (gb_data S)[p := v],
                    gb_cursor := upd2 (gb_cursor S) t j Suc,
                    gb_budget := upd2 (gb_budget S) t j (\<lambda>n. n - 1)\<rparr>"
  have push: "GroupPush k v t S = Inr S'"
    using kb tT jG lt by (simp add: GroupPush_def S'_def bs bud cur j_def p_def Let_def)
  have bud': "gb_budget S' = tabulate T G (\<lambda>t j. get2 tab t j - cnt' t j)"
    using tT jG by (simp add: S'_def bud upd2_tabulate cnt'_eq)
      (intro arg_cong [where f = "tabulate T G"] ext, simp)
  have cur': "gb_cursor S' = tabulate T G (\<lambda>t j. slot_start top0 tab t j + cnt' t j)"
    using tT jG by (simp add: S'_def cur upd2_tabulate cnt'_eq)
      (intro arg_cong [where f = "tabulate T G"] ext, simp)
  have uniq: "slot_start top0 tab t' j' + k' \<noteq> p" if "k' < cnt t' j'" for t' j' k'
  proof
    assume "slot_start top0 tab t' j' + k' = p"
    then have "t' = t \<and> j' = j \<and> k' = cnt t j"
      using slot_start_unique [of k' tab t' j' "cnt t j" t j top0] that cnt_le [of t' j'] lt
      by (simp add: p_def)
    with that show False by simp
  qed
  have slots': "gb_data S' ! (slot_start top0 tab t' j' + k') = pushed (ops @ [(k, v, t)]) t' (base + j') ! k'"
    if "k' < cnt' t' j'" for t' j' k'
  proof (cases "t' = t \<and> j' = j \<and> k' = cnt t j")
    case True
    then show ?thesis using p_len kj by (simp add: S'_def p_def pushed_snoc cnt_def)
  next
    case False
    then have k': "k' < cnt t' j'" using that by (auto simp: cnt'_eq split: if_splits)
    then have "gb_data S' ! (slot_start top0 tab t' j' + k') = pushed ops t' (base + j') ! k'"
      using uniq [OF k'] slots [OF k'] by (simp add: S'_def)
    then show ?thesis using k' by (simp add: pushed_snoc nth_append cnt_def)
  qed
  have rest': "gb_data S' ! q = gb_data (InitStorage d S1) ! q"
    if "\<forall>t j k. k < cnt' t j \<longrightarrow> q \<noteq> slot_start top0 tab t j + k" for q
  proof -
    have "q \<noteq> p" using that by (auto simp: p_def cnt'_eq)
    moreover have "\<forall>t j k. k < cnt t j \<longrightarrow> q \<noteq> slot_start top0 tab t j + k"
      using that by (auto simp: cnt'_eq)
    ultimately show ?thesis using rest by (simp add: S'_def)
  qed
  have "placed d S1 (ops @ [(k, v, t)]) S'"
    unfolding placed_def Let_def
    using off bs mr bud' cur' len slots' rest'
    by (simp add: S'_def tab_def base_def top0_def T_def G_def cnt'_def del: InitStorage_def)
  with push show ?thesis by blast
qed


lemma push_all_placed:
  assumes "fits (gb_base S1) (gb_budget S1) ops"
  shows "\<exists>S. push_all ops (InitStorage d S1) = Inr S \<and> placed d S1 ops S"
  using assms
proof (induction ops rule: rev_induct)
  case Nil
  show ?case by (simp add: push_all_def placed_Nil)
next
  case (snoc op ops)
  obtain k v t where op: "op = (k, v, t)" by (cases op)
  from snoc.prems have "fits (gb_base S1) (gb_budget S1) ops" by (rule fits_prefix)
  with snoc.IH obtain S where run: "push_all ops (InitStorage d S1) = Inr S" and pl: "placed d S1 ops S"
    by blast
  have "\<exists>S'. GroupPush k v t S = Inr S' \<and> placed d S1 (ops @ [op]) S'"
    using placed_step [OF pl] snoc.prems by (simp add: op)
  then obtain S' where "GroupPush k v t S = Inr S'" and "placed d S1 (ops @ [op]) S'" by blast
  with run op show ?case by (simp add: push_all_def fold_err_snoc)
qed

lemma placed_dest:
  assumes "placed d S1 ops S"
  defines "tab \<equiv> gb_budget S1" and "base \<equiv> gb_base S1" and "top0 \<equiv> top_offset (gb_offset S1)"
  shows "gb_offset S = gb_offset (InitStorage d S1)" and "gb_base S = base"
    and "group_builder.more S = group_builder.more (InitStorage d S1)"
    and "gb_budget S = tabulate (length tab) (ngroups tab)
           (\<lambda>t j. get2 tab t j - length (pushed ops t (base + j)))"
    and "gb_cursor S = tabulate (length tab) (ngroups tab)
           (\<lambda>t j. slot_start top0 tab t j + length (pushed ops t (base + j)))"
    and "length (gb_data S) = length (gb_data (InitStorage d S1))"
    and "\<And>t j k. k < length (pushed ops t (base + j)) \<Longrightarrow>
           gb_data S ! (slot_start top0 tab t j + k) = pushed ops t (base + j) ! k"
    and "\<And>q. (\<forall>t j k. k < length (pushed ops t (base + j)) \<longrightarrow> q \<noteq> slot_start top0 tab t j + k) \<Longrightarrow>
           gb_data S ! q = gb_data (InitStorage d S1) ! q"
  using assms(1) unfolding placed_def Let_def tab_def base_def top0_def by auto

lemma placed_unique:
  assumes pl: "placed d S1 ops S" and pl': "placed d S1 ops' S'"
    and same: "\<And>t k. pushed ops t k = pushed ops' t k"
  shows "S = S'"
proof -
  define top0 where "top0 = top_offset (gb_offset S1)"
  define tab where "tab = gb_budget S1"
  define base where "base = gb_base S1"
  define c where "c = (\<lambda>t j. length (pushed ops t (base + j)))"
  define slot where "slot = (\<lambda>q. \<exists>t j k. k < c t j \<and> q = slot_start top0 tab t j + k)"
  note A = placed_dest [OF pl, folded top0_def tab_def base_def]
  note B = placed_dest [OF pl', folded top0_def tab_def base_def same]
  have data: "gb_data S = gb_data S'"
  proof (rule nth_equalityI)
    show "length (gb_data S) = length (gb_data S')" using A(6) B(6) by simp
    fix q assume "q < length (gb_data S)"
    show "gb_data S ! q = gb_data S' ! q"
    proof (cases "slot q")
      case True
      then obtain t j k where k: "k < c t j" and q: "q = slot_start top0 tab t j + k"
        unfolding slot_def by blast
      from k have "gb_data S ! q = pushed ops t (base + j) ! k"
        unfolding q c_def by (rule A(7))
      moreover from k have "gb_data S' ! q = pushed ops t (base + j) ! k"
        unfolding q c_def by (rule B(7))
      ultimately show ?thesis by simp
    next
      case False
      then have "\<forall>t j k. k < length (pushed ops t (base + j)) \<longrightarrow> q \<noteq> slot_start top0 tab t j + k"
        unfolding slot_def c_def by blast
      then show ?thesis using A(8) B(8) by metis
    qed
  qed
  show ?thesis
  proof (rule group_builder.equality)
    show "gb_offset S = gb_offset S'" using A(1) B(1) by (rule trans [OF _ sym])
    show "gb_data S = gb_data S'" by (rule data)
    show "gb_base S = gb_base S'" using A(2) B(2) by simp
    show "gb_budget S = gb_budget S'" using A(4) B(4) by (rule trans [OF _ sym])
    show "gb_cursor S = gb_cursor S'" using A(5) B(5) by (rule trans [OF _ sym])
    show "group_builder.more S = group_builder.more S'" using A(3) B(3) by (rule trans [OF _ sym])
  qed
qed

lemma pushed_thread_ops: "pushed ops t k = pushed (thread_ops t ops) t k"
  by (induction ops) (auto simp: pushed_def thread_ops_def)

lemma pushed_interleave:
  assumes "\<And>t. thread_ops t ops = thread_ops t ops'"
  shows "pushed ops t k = pushed ops' t k"
  by (metis assms pushed_thread_ops)

lemma set_interleave:
  assumes "\<And>t. thread_ops t ops = thread_ops t ops'"
  shows "set ops' = set ops"
proof -
  have "op \<in> set ops \<longleftrightarrow> op \<in> set ops'" for op
  proof -
    obtain k v t where op: "op = (k, v, t)" by (cases op)
    have "op \<in> set ops \<longleftrightarrow> op \<in> set (thread_ops t ops)" by (simp add: thread_ops_def op)
    also have "\<dots> \<longleftrightarrow> op \<in> set (thread_ops t ops')" by (simp add: assms)
    also have "\<dots> \<longleftrightarrow> op \<in> set ops'" by (simp add: thread_ops_def op)
    finally show ?thesis .
  qed
  then show ?thesis by blast
qed

lemma fits_interleave:
  assumes "fits base tab ops" and "\<And>t. thread_ops t ops = thread_ops t ops'"
  shows "fits base tab ops'"
  using assms(1) unfolding fits_def set_interleave [OF assms(2)] pushed_interleave [OF assms(2)] .

text \<open>
  C1. The placement pass of the Parallel Group Builder is race-free: when no thread pushes
  more records to a group than it budgeted, every interleaving of the threads' pushes
  that keeps each thread's own order leaves the builder in the same state (the same
  data, cursors and remaining budgets).
\<close>

theorem push_all_interleaving:
  assumes "fits (gb_base S1) (gb_budget S1) ops" and "\<And>t. thread_ops t ops = thread_ops t ops'"
  shows "push_all ops (InitStorage d S1) = push_all ops' (InitStorage d S1)"
proof -
  from push_all_placed [OF assms(1)] obtain S where
    r: "push_all ops (InitStorage d S1) = Inr S" and p: "placed d S1 ops S" by blast
  from push_all_placed [OF fits_interleave [OF assms]] obtain S' where
    r': "push_all ops' (InitStorage d S1) = Inr S'" and p': "placed d S1 ops' S'" by blast
  from p p' pushed_interleave [OF assms(2)] have "S = S'" by (rule placed_unique)
  with r r' show ?thesis by simp
qed

theorem push_all_layout:
  assumes fit: "fits (gb_base S1) (gb_budget S1) ops"
    and exact: "\<forall>t < length (gb_budget S1). \<forall>j < ngroups (gb_budget S1).
                  length (pushed ops t (gb_base S1 + j)) = get2 (gb_budget S1) t j"
    and top: "length (gb_data S1) = top_offset (gb_offset S1)"
    and run: "push_all ops (InitStorage d S1) = Inr S"
  shows "gb_data S = gb_data S1 @ bucket ops (gb_base S1) (length (gb_budget S1)) (ngroups (gb_budget S1))"
proof -
  define tab where "tab = gb_budget S1"
  define base where "base = gb_base S1"
  define top0 where "top0 = top_offset (gb_offset S1)"
  define T where "T = length tab"
  define G where "G = ngroups tab"
  define f where "f = (\<lambda>j. concat (map (\<lambda>t. pushed ops t (base + j)) [0..<T]))"
  from push_all_placed [OF fit, of d] run have pl: "placed d S1 ops S" by auto
  note A = placed_dest [OF pl, folded top0_def tab_def base_def]
  have ex: "length (pushed ops t (base + j)) = get2 tab t j" if "t < T" "j < G" for t j
    using exact that by (simp add: tab_def base_def T_def G_def)
  have lf: "length (f j) = group_total tab j" if "j < G" for j
    using that by (simp add: f_def length_concat_upt group_total_def T_def ex cong: psum_cong)
  have gt: "psum (group_total tab) j = psum (\<lambda>j. length (f j)) j" if "j \<le> G" for j
    using that lf by (intro psum_cong) simp
  have bk: "bucket ops base T G = concat (map f [0..<G])" by (simp add: bucket_def f_def)
  have len_S: "length (gb_data S) = top0 + psum (group_total tab) G"
    using A(6) by (simp add: InitStorage_def Let_def top0_def tab_def G_def)
  show ?thesis
    unfolding tab_def [symmetric] base_def [symmetric] T_def [symmetric] G_def [symmetric] bk
  proof (rule nth_equalityI)
    show "length (gb_data S) = length (gb_data S1 @ concat (map f [0..<G]))"
      using len_S top gt [of G] by (simp add: length_concat_upt top0_def)
    fix q assume q: "q < length (gb_data S)"
    show "gb_data S ! q = (gb_data S1 @ concat (map f [0..<G])) ! q"
    proof (cases "q < top0")
      case True
      have "\<forall>t j k. k < length (pushed ops t (base + j)) \<longrightarrow> q \<noteq> slot_start top0 tab t j + k"
        using True by (auto simp: slot_start_def)
      then have "gb_data S ! q = gb_data (InitStorage d S1) ! q" by (rule A(8))
      with True top show ?thesis
        by (simp add: InitStorage_def Let_def nth_resize nth_append top0_def tab_def)
    next
      case False
      with q len_S have "q - top0 < psum (group_total tab) G" by simp
      then obtain j r where j: "j < G" and r: "r < group_total tab j"
        and qr: "q - top0 = psum (group_total tab) j + r" by (blast dest: psum_decompose)
      from r obtain t k where t: "t < T" and k: "k < get2 tab t j"
        and rk: "r = psum (\<lambda>t. get2 tab t j) t + k"
        unfolding group_total_def T_def by (blast dest: psum_decompose)
      have ps: "psum (\<lambda>t. get2 tab t j) t = psum (\<lambda>t. length (pushed ops t (base + j))) t"
        using t j ex by (intro psum_cong) simp
      have qs: "q = slot_start top0 tab t j + k"
        using False qr rk by (simp add: slot_start_def)
      have k': "k < length (pushed ops t (base + j))" using k ex t j by simp
      have "gb_data S ! q = pushed ops t (base + j) ! k" unfolding qs using k' by (rule A(7))
      moreover have "concat (map f [0..<G]) ! (q - top0) = pushed ops t (base + j) ! k"
      proof -
        have "concat (map f [0..<G]) ! (q - top0) = f j ! r"
          using j r lf qr gt [of j] nth_concat_upt [of j G k f] by (simp add: nth_concat_upt)
        also have "\<dots> = pushed ops t (base + j) ! k"
          using t k' nth_concat_upt [of t T k "\<lambda>t. pushed ops t (base + j)"]
          by (simp add: f_def rk ps)
        finally show ?thesis .
      qed
      ultimately show ?thesis using False top by (simp add: nth_append top0_def)
    qed
  qed
qed

text \<open>The whole protocol: the counting pass over the calls of a placement pass, then
  \<open>InitStorage\<close>, then the placement pass, appends the sequential bucketing to the target
  and one prefix-sum offset per group.\<close>

lemma get2_budget_table_ops:
  assumes "\<forall>(k, v, t) \<in> set ops. base \<le> k \<and> t < T"
  shows "get2 (budget_table (replicate T (replicate m 0)) (map (\<lambda>(k, v, t). (k - base, t)) ops)) t j =
           length (pushed ops t (base + j))"
proof -
  have thr: "\<forall>(j, t) \<in> set (map (\<lambda>(k, v, t). (k - base, t)) ops). t < length (replicate T (replicate m (0::nat)))"
    using assms by auto
  have "filter ((=) (j, t)) (map (\<lambda>(k, v, t). (k - base, t)) ops) =
          map (\<lambda>(k, v, t). (k - base, t)) (filter (\<lambda>(k', v, t'). k' = base + j \<and> t' = t) ops)"
    using assms by (induction ops) auto
  moreover have "get2 (replicate T (replicate m 0)) t j = 0" by (auto simp: get2_def)
  ultimately show ?thesis using get2_budget_table [OF thr, of t j] by (simp add: pushed_def)
qed

lemma two_pass_build:
  fixes Gmin :: nat and dflt :: 'v
  assumes T: "0 < T" and ops: "\<forall>(k, v, t) \<in> set ops. base \<le> k \<and> t < T"
    and top: "length d = top_offset off"
  defines "S1 \<equiv> (InitBudget Gmin T (gb_new off d base))\<lparr>gb_budget :=
                   budget_table (replicate T (replicate (Gmin - base) 0)) (map (\<lambda>(k, v, t). (k - base, t)) ops)\<rparr>"
    and "G \<equiv> fold max (map (\<lambda>(k, v, t). Suc (k - base)) ops) (Gmin - base)"
    and "grp \<equiv> \<lambda>j. concat (map (\<lambda>t. pushed ops t (base + j)) [0..<T])"
  shows "add_budget_all (map (\<lambda>(k, v, t). (k, t)) ops) (InitBudget Gmin T (gb_new off d base)) = Inr S1"
    and "\<exists>S2. push_all ops (InitStorage dflt S1) = Inr S2 \<and> gb_data S2 = d @ concat (map grp [0..<G]) \<and>
           gb_offset S2 = off @ map (\<lambda>j. top_offset off + length (concat (map grp [0..<Suc j]))) [0..<G]"
proof -
  define tab where "tab = budget_table (replicate T (replicate (Gmin - base) 0)) (map (\<lambda>(k, v, t). (k - base, t)) ops)"
  have S1: "gb_base S1 = base" "gb_budget S1 = tab" "gb_offset S1 = off" "gb_data S1 = d" "length tab = T"
    by (simp_all add: S1_def InitBudget_def gb_new_def tab_def)
  show "add_budget_all (map (\<lambda>(k, v, t). (k, t)) ops) (InitBudget Gmin T (gb_new off d base)) = Inr S1"
  proof -
    have "\<forall>(k, t) \<in> set (map (\<lambda>(k, v, t). (k, t)) ops).
            gb_base (InitBudget Gmin T (gb_new off d base)) \<le> k \<and> t < length (gb_budget (InitBudget Gmin T (gb_new off d base)))"
      using ops by (auto simp: InitBudget_def gb_new_def)
    from add_budget_all_table [OF this] show ?thesis
      by (simp add: S1_def InitBudget_def gb_new_def comp_def case_prod_unfold)
  qed
  have exact: "length (pushed ops t (base + j)) = get2 tab t j" for t j
    using get2_budget_table_ops [OF ops] by (simp add: tab_def)
  have fit: "fits (gb_base S1) (gb_budget S1) ops"
    unfolding fits_def S1
  proof (intro ballI, clarify)
    fix k v t assume "(k, v, t) \<in> set ops"
    with ops have kb: "base \<le> k" by auto
    then have "k = base + (k - base)" by simp
    then show "base \<le> k \<and> length (pushed ops t k) \<le> get2 tab t (k - base)"
      using kb exact [of t "k - base"] by simp
  qed
  have G: "ngroups tab = G"
  proof -
    have thr: "\<forall>(j, t) \<in> set (map (\<lambda>(k, v, t). (k - base, t)) ops). t < length (replicate T (replicate (Gmin - base) (0::nat)))"
      using ops by auto
    show ?thesis using ngroups_budget_table [OF thr] T
      by (simp add: tab_def G_def ngroups_replicate comp_def case_prod_unfold)
  qed
  from push_all_placed [OF fit, of dflt] obtain S2 where
    run: "push_all ops (InitStorage dflt S1) = Inr S2" and pl: "placed dflt S1 ops S2" by blast
  have data: "gb_data S2 = d @ concat (map grp [0..<G])"
    using push_all_layout [OF fit _ _ run] exact top by (simp add: S1 G bucket_def grp_def)
  have gt: "group_total tab = (\<lambda>j. length (grp j))"
    using exact by (simp add: fun_eq_iff group_total_def S1(5) grp_def length_concat_upt)
  have off: "gb_offset S2 = off @ map (\<lambda>j. top_offset off + length (concat (map grp [0..<Suc j]))) [0..<G]"
    using placed_dest(1) [OF pl] by (simp add: InitStorage_def Let_def S1 G gt length_concat_upt del: upt_Suc)
  show "\<exists>S2. push_all ops (InitStorage dflt S1) = Inr S2 \<and> gb_data S2 = d @ concat (map grp [0..<G]) \<and>
           gb_offset S2 = off @ map (\<lambda>j. top_offset off + length (concat (map grp [0..<Suc j]))) [0..<G]"
    using run data off by blast
qed

text \<open>Two threads, two groups: thread 0 pushes to groups 0 and 1, thread 1 to group 0; the
  two schedules that start with either thread give the same builder.\<close>

theorem push_all_interleaving_witness:
  "fits 0 [[1, 1], [1]] [(0, 10::nat, 0), (0, 20, 1), (1, 11, 0)] \<and>
   (\<forall>t. thread_ops t [(0, 10::nat, 0), (0, 20, 1), (1, 11, 0)] =
        thread_ops t [(0, 20, 1), (0, 10, 0), (1, 11, 0)]) \<and>
   push_all [(0, 10::nat, 0), (0, 20, 1), (1, 11, 0)]
     (InitStorage 0 \<lparr>gb_offset = [0], gb_data = [], gb_base = 0, gb_budget = [[1, 1], [1]], gb_cursor = []\<rparr>) =
   push_all [(0, 20, 1), (0, 10, 0), (1, 11, 0)]
     (InitStorage 0 \<lparr>gb_offset = [0], gb_data = [], gb_base = 0, gb_budget = [[1, 1], [1]], gb_cursor = []\<rparr>)"
proof -
  have h1: "fits 0 [[1, 1], [1]] [(0, 10::nat, 0), (0, 20, 1), (1, 11, 0)]"
    by (simp add: fits_def pushed_def get2_def)
  have h2: "\<forall>t. thread_ops t [(0, 10::nat, 0), (0, 20, 1), (1, 11, 0)] =
                 thread_ops t [(0, 20, 1), (0, 10, 0), (1, 11, 0)]"
    by (auto simp: thread_ops_def)
  have h3: "push_all [(0, 10::nat, 0), (0, 20, 1), (1, 11, 0)]
     (InitStorage 0 \<lparr>gb_offset = [0], gb_data = [], gb_base = 0, gb_budget = [[1, 1], [1]], gb_cursor = []\<rparr>) =
    push_all [(0, 20, 1), (0, 10, 0), (1, 11, 0)]
     (InitStorage 0 \<lparr>gb_offset = [0], gb_data = [], gb_base = 0, gb_budget = [[1, 1], [1]], gb_cursor = []\<rparr>)"
    by (rule push_all_interleaving) (auto simp: fits_def pushed_def get2_def thread_ops_def)
  show ?thesis using h1 h2 h3 by blast
qed

end
