(* ===== verification/Sparse_Page.thy ===== *)
theory Sparse_Page
  imports Entry
begin

text \<open>
  The Sparse Page, \<open>SparsePage\<close> of \<open>include/xgboost/data.h\<close> with the operations
  of \<open>src/src/data/data.cc\<close> that rearrange a page in place or append another page:
  \<open>IsIndicesSorted\<close>, \<open>SortIndices\<close>, \<open>Reindex\<close>, \<open>SortRows\<close> and
  \<open>Push(const SparsePage&)\<close>. A page is a CSR block: \<open>offset\<close> holds the start of each
  row in \<open>data\<close> and one past the last, \<open>base_rowid\<close> the global index of local row 0.
  The loops \<open>common::ParallelFor\<close> runs over the rows touch disjoint row slices, so they
  are written as one pass over the rows in ascending order; the per-thread counters of
  \<open>IsIndicesSorted\<close> are kept, with the rows split as in the spec's static schedule.
\<close>

record sparse_page =
  offset :: "nat list"
  data :: "entry list"
  base_rowid :: "64 word"

text \<open>\<open>Size()\<close>: the number of rows, \<open>offset.Size() - 1\<close> (0 for an empty offset
  vector), and \<open>page[i]\<close> of \<open>GetView()\<close>: the entries of row \<open>i\<close>.\<close>

definition Size :: "sparse_page \<Rightarrow> nat" where
  "Size p = (if offset p = [] then 0 else length (offset p) - 1)"

definition row_view :: "sparse_page \<Rightarrow> nat \<Rightarrow> entry list" where
  "row_view p i = slice (offset p ! i) (offset p ! Suc i) (data p)"

text \<open>The page invariant of the specification (section 3).\<close>

definition wf_page :: "sparse_page \<Rightarrow> bool" where
  "wf_page p = (offset p \<noteq> [] \<and> hd (offset p) = 0 \<and> sorted (offset p) \<and>
                last (offset p) = length (data p))"

text \<open>A value-initialised \<open>Entry\<close>, the fill of \<open>data.resize\<close>.\<close>

definition entry0 :: entry where
  "entry0 = Entry 0 (Fin 0)"

text \<open>An in-place operation run on every row slice, \<open>f i\<close> on row \<open>i\<close>.\<close>

definition rows_update :: "(nat \<Rightarrow> entry list \<Rightarrow> entry list) \<Rightarrow> sparse_page \<Rightarrow> sparse_page" where
  "rows_update f p =
     p\<lparr>data := foldl (\<lambda>d i. update_slice (offset p ! i) (offset p ! Suc i) (f i) d)
                 (data p) [0..<Size p]\<rparr>"

text \<open>\<open>IsIndicesSorted(n_threads)\<close>: each thread counts the rows of its range that are
  sorted by \<open>CmpIndex\<close>; the page is sorted when the counts add up to \<open>Size()\<close>.\<close>

definition IsIndicesSorted :: "nat \<Rightarrow> sparse_page \<Rightarrow> bool" where
  "IsIndicesSorted n_threads p =
     (let nt = max (min n_threads (Size p)) 1;
          is_sorted_tloc = map (\<lambda>tid. length (filter (\<lambda>i. is_sorted_by CmpIndex (row_view p i))
                                   (thread_range (Size p) nt tid))) [0..<nt]
      in sum_list is_sorted_tloc = Size p)"

text \<open>\<open>SortIndices\<close>: \<open>std::sort(.., Entry::CmpIndex)\<close> on every row. \<open>std::sort\<close> may
  order entries of equal index either way; the model takes the stable outcome.\<close>

definition SortIndices :: "sparse_page \<Rightarrow> sparse_page" where
  "SortIndices p = rows_update (\<lambda>i. sort_key index) p"

text \<open>\<open>SortRows\<close>: sort every non-empty row by \<open>CmpValue\<close>.\<close>

definition SortRows :: "sparse_page \<Rightarrow> sparse_page" where
  "SortRows p =
     rows_update (\<lambda>i xs. if offset p ! i < offset p ! Suc i
                         then sort_key (\<lambda>e. f32_key (fvalue e)) xs else xs) p"

text \<open>\<open>Reindex(feature_offset)\<close>: \<open>h_data[i].index += feature_offset\<close>, a 64-bit addend
  added to a 32-bit index, so the sum is taken modulo \<open>2^32\<close>.\<close>

definition Reindex :: "64 word \<Rightarrow> sparse_page \<Rightarrow> sparse_page" where
  "Reindex feature_offset p =
     p\<lparr>data := map (\<lambda>e. e\<lparr>index := index e + ucast feature_offset\<rparr>) (data p)\<rparr>"

text \<open>\<open>Push(const SparsePage& batch)\<close>: the batch's entries copied after position
  \<open>offset.back()\<close>, and its offsets, shifted by that position, appended.\<close>

definition PushPage :: "sparse_page \<Rightarrow> sparse_page \<Rightarrow> sparse_page" where
  "PushPage p batch =
     (let top0 = last (offset p);
          data_vec = resize (top0 + length (data batch)) entry0 (data p);
          data_vec' = (if data_vec \<noteq> [] \<and> data batch \<noteq> []
                       then take top0 data_vec @ data batch else data_vec)
      in p\<lparr>data := data_vec',
           offset := offset p @ map (\<lambda>i. top0 + offset batch ! (i + 1)) [0..<Size batch]\<rparr>)"

text \<open>The abstraction of a page: its list of rows.\<close>

definition rows :: "sparse_page \<Rightarrow> entry list list" where
  "rows p = map (row_view p) [0..<Size p]"

text \<open>The page holding the given rows, one after the other: the inverse of \<open>rows\<close>.\<close>

definition page_of_rows :: "entry list list \<Rightarrow> sparse_page" where
  "page_of_rows rs =
     \<lparr>offset = map (\<lambda>k. length (concat (take k rs))) [0..<Suc (length rs)], data = concat rs,
      base_rowid = 0\<rparr>"

declare Size_def [model_defs] rows_def [model_defs] row_view_def [model_defs] wf_page_def [model_defs]
  entry0_def [model_defs] rows_update_def [model_defs] IsIndicesSorted_def [model_defs]
  SortIndices_def [model_defs] SortRows_def [model_defs] Reindex_def [model_defs]
  PushPage_def [model_defs] page_of_rows_def [model_defs]

subsection \<open>Layout of a well-formed page\<close>
lemma wf_page_offsets:
  assumes "wf_page p"
  shows "offset p ! 0 = 0" and "length (offset p) = Suc (Size p)"
    and "offset p ! Size p = length (data p)"
    and "\<And>i j. i \<le> j \<Longrightarrow> j \<le> Size p \<Longrightarrow> offset p ! i \<le> offset p ! j"
proof -
  from assms have ne: "offset p \<noteq> []" and hd: "hd (offset p) = 0" and so: "sorted (offset p)"
    and la: "last (offset p) = length (data p)" by (auto simp: wf_page_def)
  show len: "length (offset p) = Suc (Size p)" using ne by (simp add: Size_def)
  show "offset p ! 0 = 0" using ne hd by (simp add: hd_conv_nth)
  show "offset p ! Size p = length (data p)" using ne la len by (simp add: last_conv_nth)
  show "\<And>i j. i \<le> j \<Longrightarrow> j \<le> Size p \<Longrightarrow> offset p ! i \<le> offset p ! j"
    using so len by (simp add: sorted_iff_nth_mono)
qed

lemma length_row_view:
  assumes "wf_page p" and "i < Size p"
  shows "length (row_view p i) = offset p ! Suc i - offset p ! i"
proof -
  have "offset p ! Suc i \<le> length (data p)"
    using wf_page_offsets [OF assms(1)] assms(2) by (metis Suc_leI order_refl)
  then show ?thesis by (simp add: row_view_def)
qed

lemma take_offset_rows:
  assumes "wf_page p" and "k \<le> Size p"
  shows "take (offset p ! k) (data p) = concat (map (row_view p) [0..<k])"
  using assms(2)
proof (induction k)
  case 0
  then show ?case using wf_page_offsets(1) [OF assms(1)] by simp
next
  case (Suc k)
  have "offset p ! k \<le> offset p ! Suc k"
    using wf_page_offsets(4) [OF assms(1)] Suc.prems by simp
  then have "take (offset p ! Suc k) (data p) = take (offset p ! k) (data p) @ row_view p k"
    by (simp add: take_slice row_view_def)
  with Suc show ?case by simp
qed

lemma data_concat_rows: "wf_page p \<Longrightarrow> data p = concat (rows p)"
  using take_offset_rows [of p "Size p"] wf_page_offsets(3) [of p] by (simp add: rows_def)

lemma rows_update_data:
  assumes wf: "wf_page p" and len: "\<And>i xs. length (f i xs) = length xs" and k: "k \<le> Size p"
  shows "foldl (\<lambda>d i. update_slice (offset p ! i) (offset p ! Suc i) (f i) d) (data p) [0..<k]
           = concat (map (\<lambda>i. f i (row_view p i)) [0..<k]) @ drop (offset p ! k) (data p)"
  using k
proof (induction k)
  case 0
  then show ?case using wf_page_offsets(1) [OF wf] by simp
next
  case (Suc k)
  let ?C = "concat (map (\<lambda>i. f i (row_view p i)) [0..<k])"
  have ok: "offset p ! k \<le> offset p ! Suc k"
    using wf_page_offsets(4) [OF wf] Suc.prems by simp
  have od: "offset p ! k \<le> length (data p)"
    using wf_page_offsets(4) [OF wf, of k "Size p"] wf_page_offsets(3) [OF wf] Suc.prems by simp
  have "length ?C = length (concat (map (row_view p) [0..<k]))"
    by (simp add: length_concat len comp_def)
  also have "\<dots> = length (take (offset p ! k) (data p))"
    using take_offset_rows [OF wf, of k] Suc.prems by simp
  also have "\<dots> = offset p ! k" using od by simp
  finally have lenC: "length ?C = offset p ! k" .
  have "update_slice (offset p ! k) (offset p ! Suc k) (f k) (?C @ drop (offset p ! k) (data p))
          = ?C @ f k (row_view p k) @ drop (offset p ! Suc k) (data p)"
    using lenC ok by (simp add: update_slice_def slice_def row_view_def)
  with Suc show ?case by simp
qed


lemma length_data_rows_update:
  assumes wf: "wf_page p" and len: "\<And>i xs. length (f i xs) = length xs"
  shows "data (rows_update f p) = concat (map (\<lambda>i. f i (row_view p i)) [0..<Size p])"
  using rows_update_data [OF wf len, of "Size p"] wf_page_offsets(3) [OF wf]
  by (simp add: rows_update_def)

lemma rows_update_rows:
  assumes wf: "wf_page p" and len: "\<And>i xs. length (f i xs) = length xs"
  shows "wf_page (rows_update f p)"
    and "rows (rows_update f p) = map (\<lambda>i. f i (row_view p i)) [0..<Size p]"
proof -
  let ?g = "\<lambda>i. f i (row_view p i)"
  have d: "data (rows_update f p) = concat (map ?g [0..<Size p])"
    by (rule length_data_rows_update [OF wf len])
  have lg: "length (?g i) = offset p ! Suc i - offset p ! i" if "i < Size p" for i
    using length_row_view [OF wf that] by (simp add: len)
  have mono: "offset p ! i \<le> offset p ! Suc i" if "i < Size p" for i
    using wf_page_offsets(4) [OF wf] that by simp
  have ld: "length (data (rows_update f p)) = length (data p)"
    using d take_concat_offsets(2) [OF lg mono wf_page_offsets(1) [OF wf], where k = "Size p"]
      wf_page_offsets(3) [OF wf] by simp
  show "wf_page (rows_update f p)"
    using wf ld by (simp add: wf_page_def rows_update_def)
  show "rows (rows_update f p) = map ?g [0..<Size p]"
    unfolding rows_def
    using slice_concat_offsets [OF lg mono wf_page_offsets(1) [OF wf]] d
    by (simp add: row_view_def rows_update_def Size_def)
qed

lemma IsIndicesSorted_all:
  "IsIndicesSorted n_threads p \<longleftrightarrow> (\<forall>i < Size p. is_sorted_by CmpIndex (row_view p i))"
proof -
  let ?P = "\<lambda>i. is_sorted_by CmpIndex (row_view p i)"
  have "IsIndicesSorted n_threads p \<longleftrightarrow> length (filter ?P [0..<Size p]) = Size p"
    unfolding IsIndicesSorted_def Let_def by (subst sum_thread_range_filter) auto
  also have "\<dots> \<longleftrightarrow> (\<forall>i < Size p. ?P i)"
    by (metis (no_types, lifting) atLeastLessThan_iff filter_True length_filter_less length_upt
        less_irrefl minus_nat.diff_0 set_upt zero_le)
  finally show ?thesis .
qed

lemma SortIndices_rows:
  assumes "wf_page p"
  shows "wf_page (SortIndices p)" and "rows (SortIndices p) = map (sort_key index) (rows p)"
  using rows_update_rows [OF assms, of "\<lambda>i. sort_key index"]
  by (simp_all add: SortIndices_def rows_def)

lemma SortRows_rows:
  assumes "wf_page p"
  shows "wf_page (SortRows p)"
    and "rows (SortRows p) = map (sort_key (\<lambda>e. f32_key (fvalue e))) (rows p)"
proof -
  let ?f = "\<lambda>i xs. if offset p ! i < offset p ! Suc i then sort_key (\<lambda>e. f32_key (fvalue e)) xs else xs"
  have len: "length (?f i xs) = length xs" for i and xs :: "entry list" by simp
  have eq: "?f i (row_view p i) = sort_key (\<lambda>e. f32_key (fvalue e)) (row_view p i)" if "i < Size p" for i
    using length_row_view [OF assms that] by (cases "offset p ! i < offset p ! Suc i") auto
  show "wf_page (SortRows p)" using rows_update_rows(1) [OF assms len] by (simp add: SortRows_def)
  show "rows (SortRows p) = map (sort_key (\<lambda>e. f32_key (fvalue e))) (rows p)"
    using rows_update_rows(2) [OF assms len] eq by (simp add: SortRows_def rows_def)
qed


lemma Reindex_rows:
  assumes "wf_page p"
  shows "wf_page (Reindex off p)"
    and "rows (Reindex off p) = map (map (\<lambda>e. e\<lparr>index := index e + ucast off\<rparr>)) (rows p)"
  using assms by (simp_all add: Reindex_def wf_page_def rows_def row_view_def Size_def slice_map)

lemma Size_page_of_rows [simp]: "Size (page_of_rows rs) = length rs"
  by (simp add: page_of_rows_def Size_def)

lemma offset_page_of_rows:
  "k \<le> length rs \<Longrightarrow> offset (page_of_rows rs) ! k = length (concat (take k rs))"
  by (simp add: page_of_rows_def nth_map_upt [where i = k] less_Suc_eq_le del: upt_Suc)

lemma wf_page_page_of_rows: "wf_page (page_of_rows rs)"
proof -
  have "sorted (map (\<lambda>k. length (concat (take k rs))) [0..<Suc (length rs)])"
  proof (rule sorted_iff_nth_mono [THEN iffD2], intro allI impI)
    fix i j assume "i \<le> j" and "j < length (map (\<lambda>k. length (concat (take k rs))) [0..<Suc (length rs)])"
    then have "take j rs = take i rs @ take (j - i) (drop i rs)"
      by (metis le_add_diff_inverse take_add)
    with \<open>i \<le> j\<close> \<open>j < _\<close> show "map (\<lambda>k. length (concat (take k rs))) [0..<Suc (length rs)] ! i
        \<le> map (\<lambda>k. length (concat (take k rs))) [0..<Suc (length rs)] ! j"
      by (simp del: upt_Suc)
  qed
  moreover have "last (map (\<lambda>k. length (concat (take k rs))) [0..<Suc (length rs)]) = length (concat rs)"
    by simp
  ultimately show ?thesis by (simp add: wf_page_def page_of_rows_def hd_map del: upt_Suc)
qed

lemma rows_page_of_rows: "rows (page_of_rows rs) = rs"
proof (rule nth_equalityI)
  show "length (rows (page_of_rows rs)) = length rs" by (simp add: rows_def)
  fix i assume "i < length (rows (page_of_rows rs))"
  then have i: "i < length rs" by (simp add: rows_def)
  have split: "concat rs = concat (take i rs) @ rs ! i @ concat (drop (Suc i) rs)"
    using i by (metis append_take_drop_id concat.simps(2) concat_append Cons_nth_drop_Suc)
  have "row_view (page_of_rows rs) i = rs ! i"
    using i split
    by (simp add: row_view_def offset_page_of_rows take_Suc_conv_app_nth slice_def)
      (simp add: page_of_rows_def)
  then show "rows (page_of_rows rs) ! i = rs ! i" using i by (simp add: rows_def)
qed

lemma row_view_page_of_rows: "r < length cs \<Longrightarrow> row_view (page_of_rows cs) r = cs ! r"
proof -
  assume r: "r < length cs"
  have "map (row_view (page_of_rows cs)) [0..<length cs] = cs"
    using rows_page_of_rows [of cs] by (simp add: rows_def)
  then have "map (row_view (page_of_rows cs)) [0..<length cs] ! r = cs ! r" by simp
  with r show ?thesis by simp
qed

lemma PushPage_data: "wf_page p \<Longrightarrow> data (PushPage p b) = data p @ data b"
  using wf_page_offsets(2,3) [of p]
  by (auto simp: PushPage_def Let_def resize_def last_conv_nth Size_def wf_page_def)

lemma PushPage_page_of_rows:
  assumes "wf_page p"
  shows "PushPage p (page_of_rows rs) =
           p\<lparr>offset := offset p @ map (\<lambda>j. length (data p) + length (concat (take (Suc j) rs))) [0..<length rs],
             data := data p @ concat rs\<rparr>"
proof -
  have ne: "offset p \<noteq> []" and la: "last (offset p) = length (data p)"
    using assms by (auto simp: wf_page_def)
  have "map (\<lambda>i. last (offset p) + offset (page_of_rows rs) ! (i + 1)) [0..<length rs] =
          map (\<lambda>j. length (data p) + length (concat (take (Suc j) rs))) [0..<length rs]"
    by (simp add: la offset_page_of_rows Suc_leI)
  moreover have "data (PushPage p (page_of_rows rs)) = data p @ concat rs"
    using PushPage_data [OF assms] by (simp add: page_of_rows_def)
  ultimately show ?thesis by (simp add: PushPage_def Let_def del: upt_Suc)
qed


lemma Size_PushPage: "wf_page p \<Longrightarrow> Size (PushPage p b) = Size p + Size b"
  by (cases "offset p"; cases "offset b") (auto simp: PushPage_def Let_def Size_def wf_page_def)

lemma PushPage_offset_nth:
  assumes wf: "wf_page p" and wfb: "wf_page b" and k: "k \<le> Size p + Size b"
  shows "offset (PushPage p b) ! k =
           (if k \<le> Size p then offset p ! k else length (data p) + offset b ! (k - Size p))"
proof -
  have lp: "length (offset p) = Suc (Size p)" and lastp: "last (offset p) = length (data p)"
    using wf wf_page_offsets(2) [OF wf] by (auto simp: wf_page_def)
  show ?thesis
  proof (cases "k \<le> Size p")
    case True
    then show ?thesis using lp by (simp add: PushPage_def Let_def nth_append)
  next
    case False
    define j where "j = k - Suc (Size p)"
    have j: "k = Suc (Size p) + j" and jb: "j < Size b" using False k by (auto simp: j_def)
    then show ?thesis using lp lastp by (simp add: PushPage_def Let_def nth_append)
  qed
qed


lemma PushPage_offset_right:
  assumes wf: "wf_page p" and wfb: "wf_page b" and k: "Size p \<le> k" "k \<le> Size p + Size b"
  shows "offset (PushPage p b) ! k = length (data p) + offset b ! (k - Size p)"
  using PushPage_offset_nth [OF wf wfb k(2)] wf_page_offsets(1,3) [OF wf] wf_page_offsets(1) [OF wfb] k(1)
  by (cases "k = Size p") auto

lemma PushPage_rows:
  assumes wf: "wf_page p" and wfb: "wf_page b"
  shows "wf_page (PushPage p b)" and "rows (PushPage p b) = rows p @ rows b"
proof -
  let ?q = "PushPage p b"
  note O = wf_page_offsets [OF wf] and Ob = wf_page_offsets [OF wfb]
  have lq: "length (offset ?q) = Suc (Size p + Size b)"
    using O(2) by (simp add: PushPage_def Let_def)
  have left: "offset ?q ! k = offset p ! k" if "k \<le> Size p" for k
    using PushPage_offset_nth [OF wf wfb, of k] that by simp
  have mono: "offset ?q ! i \<le> offset ?q ! j" if ij: "i \<le> j" "j \<le> Size p + Size b" for i j
  proof (cases "j \<le> Size p")
    case True
    then show ?thesis using ij left [of i] left [of j] O(4) [of i j] by simp
  next
    case False
    have qj: "offset ?q ! j = length (data p) + offset b ! (j - Size p)"
      using False ij(2) by (intro PushPage_offset_right [OF wf wfb]) simp_all
    show ?thesis
    proof (cases "i \<le> Size p")
      case True
      have "offset p ! i \<le> offset p ! Size p" using O(4) [of i "Size p"] True by simp
      then show ?thesis using qj left [OF True] O(3) by simp
    next
      case False
      have qi: "offset ?q ! i = length (data p) + offset b ! (i - Size p)"
        using False ij by (intro PushPage_offset_right [OF wf wfb]) simp_all
      have "offset b ! (i - Size p) \<le> offset b ! (j - Size p)"
        using Ob(4) [of "i - Size p" "j - Size p"] ij by simp
      then show ?thesis using qi qj by simp
    qed
  qed
  have last: "offset ?q ! (Size p + Size b) = length (data ?q)"
    using PushPage_offset_right [OF wf wfb, of "Size p + Size b"] Ob(3) PushPage_data [OF wf] by simp
  show "wf_page ?q"
    unfolding wf_page_def
  proof (intro conjI)
    show "offset ?q \<noteq> []" using lq by auto
    show "hd (offset ?q) = 0"
      using lq left [of 0] O(1) by (cases "offset ?q") auto
    show "sorted (offset ?q)" using lq mono by (simp add: sorted_iff_nth_mono)
    show "last (offset ?q) = length (data ?q)"
    proof -
      have "offset ?q \<noteq> []" using lq by auto
      then show ?thesis using lq last by (simp add: last_conv_nth)
    qed
  qed
  show "rows ?q = rows p @ rows b"
  proof (rule nth_equalityI)
    show "length (rows ?q) = length (rows p @ rows b)"
      by (simp add: rows_def Size_PushPage [OF wf])
    fix i assume "i < length (rows ?q)"
    then have i: "i < Size p + Size b" by (simp add: rows_def Size_PushPage [OF wf])
    have rq: "rows ?q ! i = slice (offset ?q ! i) (offset ?q ! Suc i) (data p @ data b)"
      using i by (simp add: rows_def row_view_def Size_PushPage [OF wf] PushPage_data [OF wf])
    show "rows ?q ! i = (rows p @ rows b) ! i"
    proof (cases "i < Size p")
      case True
      have "offset p ! Suc i \<le> offset p ! Size p" using O(4) [of "Suc i" "Size p"] True by simp
      then have "slice (offset p ! i) (offset p ! Suc i) (data p @ data b) = row_view p i"
        using O(3) by (simp add: slice_append_left row_view_def)
      then show ?thesis using rq True left [of i] left [of "Suc i"] by (simp add: nth_append rows_def)
    next
      case False
      define j where "j = i - Size p"
      have j: "i = Size p + j" "j < Size b" using False i by (auto simp: j_def)
      have "offset ?q ! i = length (data p) + offset b ! j"
        using PushPage_offset_right [OF wf wfb, of i] j by simp
      moreover have "offset ?q ! Suc i = length (data p) + offset b ! Suc j"
        using PushPage_offset_right [OF wf wfb, of "Suc i"] j by simp
      ultimately have "rows ?q ! i = row_view b j"
        using rq by (simp add: slice_append_right row_view_def)
      then show ?thesis using j by (simp add: nth_append rows_def)
    qed
  qed
qed

subsection \<open>Properties of the page operations\<close>

text \<open>
  C2. Appending a page (\<open>Push(const SparsePage&)\<close>) to a well-formed page gives a
  well-formed page whose rows are the rows of the first followed by the rows of the
  second, each unchanged; \<open>base_rowid\<close> is kept.
\<close>

theorem PushPage_appends:
  assumes "wf_page p" and "wf_page b"
  shows "wf_page (PushPage p b) \<and> rows (PushPage p b) = rows p @ rows b \<and>
         base_rowid (PushPage p b) = base_rowid p"
  using PushPage_rows [OF assms] by (simp add: PushPage_def Let_def)

text \<open>
  C3. \<open>SortIndices\<close> leaves a well-formed page whose every row is sorted by column
  index, as \<open>IsIndicesSorted\<close> then reports for any thread count, and every row keeps
  its multiset of entries.
\<close>

theorem SortIndices_sorts:
  assumes "wf_page p"
  shows "wf_page (SortIndices p) \<and> IsIndicesSorted n_threads (SortIndices p) \<and>
         map mset (rows (SortIndices p)) = map mset (rows p)"
proof -
  have r: "rows (SortIndices p) = map (sort_key index) (rows p)" by (rule SortIndices_rows(2) [OF assms])
  have sz: "Size (SortIndices p) = Size p"
    by (simp add: SortIndices_def rows_update_def Size_def)
  have "is_sorted_by CmpIndex (row_view (SortIndices p) i)" if "i < Size (SortIndices p)" for i
  proof -
    have "row_view (SortIndices p) i = rows (SortIndices p) ! i" using that by (simp add: rows_def)
    also have "\<dots> = sort_key index (row_view p i)" using that sz r by (simp add: rows_def)
    finally show ?thesis by (simp add: is_sorted_by_CmpIndex)
  qed
  then show ?thesis using SortIndices_rows(1) [OF assms] r
    by (simp add: IsIndicesSorted_all comp_def)
qed

text \<open>
  \<open>IsIndicesSorted\<close>, which sums per-thread counts of sorted rows, returns true
  exactly when every row of the page is sorted by column index, whatever the thread count.
\<close>

theorem IsIndicesSorted_iff:
  "IsIndicesSorted n_threads p \<longleftrightarrow> (\<forall>i < Size p. sorted (map index (row_view p i)))"
  by (simp add: IsIndicesSorted_all is_sorted_by_CmpIndex)

text \<open>
  C5. On a well-formed page without NaN values, \<open>SortRows\<close> leaves a well-formed page
  whose every row is sorted by \<open>CmpValue\<close> and keeps its multiset of entries.
\<close>

theorem SortRows_sorts:
  assumes "wf_page p" and "\<forall>e \<in> set (data p). \<not> isnan (fvalue e)"
  shows "wf_page (SortRows p) \<and> (\<forall>r \<in> set (rows (SortRows p)). is_sorted_by CmpValue r) \<and>
         map mset (rows (SortRows p)) = map mset (rows p)"
proof -
  have r: "rows (SortRows p) = map (sort_key (\<lambda>e. f32_key (fvalue e))) (rows p)"
    by (rule SortRows_rows(2) [OF assms(1)])
  have "\<forall>e \<in> set r. \<not> isnan (fvalue e)" if "r \<in> set (rows p)" for r
    using that assms(2) data_concat_rows [OF assms(1)] by (metis UN_I set_concat)
  then have "is_sorted_by CmpValue (sort_key (\<lambda>e. f32_key (fvalue e)) r)" if "r \<in> set (rows p)" for r
    using that by (subst is_sorted_by_CmpValue) simp_all
  then show ?thesis using SortRows_rows(1) [OF assms(1)] r by (auto simp: comp_def)
qed

text \<open>
  \<open>Reindex(feature_offset)\<close> adds the offset to each 32-bit column index modulo
  \<open>2^32\<close>: an index pushed past \<open>2^32 - 1\<close> wraps around silently.
\<close>

theorem Reindex_wraps:
  assumes "i < length (data p)"
  shows "unat (index (data (Reindex off p) ! i)) = (unat (index (data p ! i)) + unat off) mod 2 ^ 32"
  using assms by (simp add: Reindex_def unat_word_ariths unsigned_ucast_eq take_bit_eq_mod mod_add_right_eq)


text \<open>Witnesses on a page of two rows, \<open>[(2, 1), (0, 2)]\<close> and \<open>[(1, 3)]\<close>.\<close>

theorem PushPage_appends_witness:
  "wf_page \<lparr>offset = [0, 2, 3], data = [Entry 2 (Fin 1), Entry 0 (Fin 2), Entry 1 (Fin 3)], base_rowid = 0\<rparr> \<and>
   wf_page \<lparr>offset = [0, 1], data = [Entry 5 (Fin 4)], base_rowid = 3\<rparr> \<and>
   rows (PushPage \<lparr>offset = [0, 2, 3], data = [Entry 2 (Fin 1), Entry 0 (Fin 2), Entry 1 (Fin 3)], base_rowid = 0\<rparr>
                  \<lparr>offset = [0, 1], data = [Entry 5 (Fin 4)], base_rowid = 3\<rparr>) =
     [[Entry 2 (Fin 1), Entry 0 (Fin 2)], [Entry 1 (Fin 3)], [Entry 5 (Fin 4)]]"
proof -
  have w1: "wf_page \<lparr>offset = [0, 2, 3], data = [Entry 2 (Fin 1), Entry 0 (Fin 2), Entry 1 (Fin 3)], base_rowid = 0\<rparr>"
    by (simp add: wf_page_def)
  have w2: "wf_page \<lparr>offset = [0, 1], data = [Entry 5 (Fin 4)], base_rowid = 3\<rparr>"
    by (simp add: wf_page_def)
  show ?thesis
    using w1 w2 PushPage_appends [OF w1 w2] by (simp add: rows_def Size_def row_view_def slice_def)
qed

theorem SortIndices_sorts_witness:
  "wf_page \<lparr>offset = [0, 2, 3], data = [Entry 2 (Fin 1), Entry 0 (Fin 2), Entry 1 (Fin 3)], base_rowid = 0\<rparr> \<and>
   IsIndicesSorted 2 (SortIndices \<lparr>offset = [0, 2, 3], data = [Entry 2 (Fin 1), Entry 0 (Fin 2), Entry 1 (Fin 3)], base_rowid = 0\<rparr>)"
proof -
  have w: "wf_page \<lparr>offset = [0, 2, 3], data = [Entry 2 (Fin 1), Entry 0 (Fin 2), Entry 1 (Fin 3)], base_rowid = 0\<rparr>"
    by (simp add: wf_page_def)
  show ?thesis using w SortIndices_sorts [OF w, of 2] by simp
qed

theorem IsIndicesSorted_iff_witness:
  "\<not> IsIndicesSorted 2 \<lparr>offset = [0, 2, 3], data = [Entry 2 (Fin 1), Entry 0 (Fin 2), Entry 1 (Fin 3)], base_rowid = 0\<rparr>"
  using IsIndicesSorted_iff [of 2 "\<lparr>offset = [0, 2, 3], data = [Entry 2 (Fin 1), Entry 0 (Fin 2), Entry 1 (Fin 3)], base_rowid = 0\<rparr>"]
  by (auto simp: Size_def row_view_def slice_def)

theorem SortRows_sorts_witness:
  "wf_page \<lparr>offset = [0, 2, 3], data = [Entry 2 (Fin 1), Entry 0 (Fin 2), Entry 1 (Fin 3)], base_rowid = 0\<rparr> \<and>
   is_sorted_by CmpValue
     (hd (rows (SortRows \<lparr>offset = [0, 2, 3], data = [Entry 2 (Fin 1), Entry 0 (Fin 2), Entry 1 (Fin 3)], base_rowid = 0\<rparr>)))"
proof -
  have w: "wf_page \<lparr>offset = [0, 2, 3], data = [Entry 2 (Fin 1), Entry 0 (Fin 2), Entry 1 (Fin 3)], base_rowid = 0\<rparr>"
    by (simp add: wf_page_def)
  have n: "\<forall>e \<in> set (data \<lparr>offset = [0, 2, 3], data = [Entry 2 (Fin 1), Entry 0 (Fin 2), Entry 1 (Fin 3)], base_rowid = 0\<rparr>).
             \<not> isnan (fvalue e)" by simp
  have ne: "rows (SortRows \<lparr>offset = [0, 2, 3], data = [Entry 2 (Fin 1), Entry 0 (Fin 2), Entry 1 (Fin 3)], base_rowid = 0\<rparr>) \<noteq> []"
    by (simp add: rows_def SortRows_def rows_update_def Size_def)
  show ?thesis using w SortRows_sorts [OF w n] hd_in_set [OF ne] by blast
qed

theorem Reindex_wraps_witness:
  "unat (index (data (Reindex 1 \<lparr>offset = [0, 1], data = [Entry 4294967295 (Fin 1)], base_rowid = 0\<rparr>) ! 0)) = 0"
  using Reindex_wraps [of 0 "\<lparr>offset = [0, 1], data = [Entry 4294967295 (Fin 1)], base_rowid = 0\<rparr>" 1] by simp

end
