(* ===== verification/Adapter_Batch.thy ===== *)
theory Adapter_Batch
  imports Sparse_Page Validity Group_Builder
begin

text \<open>
  The Adapter Batch contract and \<open>SparsePage::Push(batch, missing, nthread)\<close> of
  \<open>src/src/data/data.cc\<close>. A batch is a list of lines, each a list of
  \<open>data::COOTuple\<close>s \<open>(row_idx, column_idx, value)\<close> with 64-bit indices, tagged
  row-major or column-major (\<open>kIsRowMajor\<close>). The append runs the Group Builder in two
  passes; each pass is the threads' loops over their slices of lines, written one thread
  after the other (the Group Builder theory shows the placement pass does not depend on
  the interleaving, and in the counting pass each thread touches only its own row of the
  budget table). A \<open>CHECK\<close> failure or an exception rethrown by \<open>exec.Rethrow()\<close> is an
  \<open>Inl\<close>; \<open>nthread = 0\<close>, a division by zero in the code, is the error \<open>ZeroThreads\<close>.
\<close>

record coo_tuple =
  row_idx :: "64 word"
  column_idx :: "64 word"
  tvalue :: f32

record adapter_batch =
  kIsRowMajor :: bool
  lines :: "coo_tuple list list"

definition BatchSize :: "adapter_batch \<Rightarrow> nat" where
  "BatchSize b = length (lines b)"

definition GetLine :: "adapter_batch \<Rightarrow> nat \<Rightarrow> coo_tuple list" where
  "GetLine b i = lines b ! i"

datatype push_error = RowBelowBase | InfInData | ZeroThreads | BuilderFault gb_error

type_synonym pass1_state = "entry group_builder \<times> bool \<times> 64 word"

text \<open>One element of the first pass: the shared \<open>valid\<close> flag, \<open>CHECK_GE(key,
  builder_base_row_offset)\<close>, the thread's running \<open>max_columns_local\<close> and
  \<open>AddBudget\<close> for a valid element.\<close>

definition pass1_element ::
  "f32 \<Rightarrow> 64 word \<Rightarrow> nat \<Rightarrow> nat \<Rightarrow> coo_tuple \<Rightarrow> pass1_state \<Rightarrow> push_error + pass1_state" where
  "pass1_element missing rowid0 base tid e s =
     (case s of (st, valid, max_columns_local) \<Rightarrow>
       let valid' = (if \<not> isinf missing \<and> isinf (tvalue e) then False else valid);
           key = row_idx e - rowid0
       in if unat key < base then Inl RowBelowBase
          else let mc = max max_columns_local (column_idx e + 1) in
            if is_valid missing (tvalue e)
            then (case AddBudget (unat key) tid st of
                    Inl err \<Rightarrow> Inl (BuilderFault err)
                  | Inr st' \<Rightarrow> Inr (st', valid', mc))
            else Inr (st, valid', mc))"

text \<open>The elements of the lines \<open>[begin, end)\<close> of thread \<open>tid\<close>, in loop order.\<close>

definition thread_elements :: "adapter_batch \<Rightarrow> nat \<Rightarrow> nat \<Rightarrow> coo_tuple list" where
  "thread_elements b nthread tid =
     concat (map (GetLine b) (thread_range (BatchSize b) nthread tid))"

text \<open>The body of the first parallel region for thread \<open>tid\<close>: its loop, its local
  maximum stored in \<open>max_columns_vector[tid]\<close>.\<close>

definition pass1_thread ::
  "f32 \<Rightarrow> 64 word \<Rightarrow> nat \<Rightarrow> adapter_batch \<Rightarrow> nat \<Rightarrow> nat \<Rightarrow>
     entry group_builder \<times> bool \<times> 64 word list \<Rightarrow> push_error + (entry group_builder \<times> bool \<times> 64 word list)" where
  "pass1_thread missing rowid0 base b nthread tid s =
     (case s of (st, valid, mcs) \<Rightarrow>
       case fold_err (pass1_element missing rowid0 base tid) (thread_elements b nthread tid) (st, valid, 0) of
         Inl err \<Rightarrow> Inl err
       | Inr (st', valid', mc) \<Rightarrow> Inr (st', valid', mcs @ [mc]))"

text \<open>The first parallel region: the threads' bodies, from \<open>valid = true\<close>.\<close>

definition pass1 ::
  "f32 \<Rightarrow> 64 word \<Rightarrow> nat \<Rightarrow> adapter_batch \<Rightarrow> nat \<Rightarrow> entry group_builder \<Rightarrow>
     push_error + (entry group_builder \<times> bool \<times> 64 word list)" where
  "pass1 missing rowid0 base b nthread st0 =
     fold_err (pass1_thread missing rowid0 base b nthread) [0..<nthread] (st0, True, [])"

text \<open>One element of the second pass: \<open>builder.Push(key, Entry(column_idx, value), tid)\<close>
  for a valid element; \<open>Entry\<close>'s index is a \<open>bst_feature_t\<close>, so the column index is
  truncated to 32 bits.\<close>

definition pass2_element ::
  "f32 \<Rightarrow> 64 word \<Rightarrow> nat \<Rightarrow> coo_tuple \<Rightarrow> entry group_builder \<Rightarrow> push_error + entry group_builder" where
  "pass2_element missing rowid0 tid e st =
     (let key = row_idx e - rowid0 in
      if is_valid missing (tvalue e)
      then (case GroupPush (unat key) (Entry (ucast (column_idx e)) (tvalue e)) tid st of
              Inl err \<Rightarrow> Inl (BuilderFault err)
            | Inr st' \<Rightarrow> Inr st')
      else Inr st)"

definition pass2 ::
  "f32 \<Rightarrow> 64 word \<Rightarrow> adapter_batch \<Rightarrow> nat \<Rightarrow> entry group_builder \<Rightarrow> push_error + entry group_builder" where
  "pass2 missing rowid0 b nthread =
     fold_err (\<lambda>tid. fold_err (pass2_element missing rowid0 tid) (thread_elements b nthread tid))
       [0..<nthread]"

text \<open>\<open>expected_rows\<close>: the batch size for a row-major batch, otherwise the row of the last
  element of the last line relative to \<open>base_rowid\<close> (0 when that line is empty).\<close>

definition expected_rows :: "sparse_page \<Rightarrow> adapter_batch \<Rightarrow> nat" where
  "expected_rows p b =
     (if kIsRowMajor b then BatchSize b
      else if 0 < BatchSize b \<and> GetLine b (BatchSize b - 1) \<noteq> []
      then unat (row_idx (last (GetLine b (BatchSize b - 1))) - base_rowid p)
      else 0)"

text \<open>The whole append, returning the page and \<open>max_columns\<close>. Column-major batches run
  on one thread (the code's \<open>CHECK_EQ(nthread, 1)\<close> then always holds).\<close>

definition PushBatch ::
  "sparse_page \<Rightarrow> adapter_batch \<Rightarrow> f32 \<Rightarrow> nat \<Rightarrow> push_error + (sparse_page \<times> 64 word)" where
  "PushBatch p b missing nthread0 =
     (let nthread = (if kIsRowMajor b then nthread0 else 1);
          base = Size p;
          builder = gb_new (offset p) (data p) base
      in if BatchSize b = 0 then Inr (p, 0)
         else if nthread = 0 then Inl ZeroThreads
         else case pass1 missing (base_rowid p) base b nthread
                     (InitBudget (expected_rows p b) nthread builder) of
           Inl err \<Rightarrow> Inl err
         | Inr (st, valid, mcs) \<Rightarrow>
             if \<not> valid then Inl InfInData
             else (case pass2 missing (base_rowid p) b nthread (InitStorage entry0 st) of
                     Inl err \<Rightarrow> Inl err
                   | Inr st' \<Rightarrow> Inr (p\<lparr>offset := gb_offset st', data := gb_data st'\<rparr>,
                                      fold max mcs 0)))"

declare BatchSize_def [model_defs] GetLine_def [model_defs] pass1_element_def [model_defs]
  thread_elements_def [model_defs] pass1_thread_def [model_defs] pass1_def [model_defs] pass2_element_def [model_defs]
  pass2_def [model_defs] expected_rows_def [model_defs] PushBatch_def [model_defs]

subsection \<open>What the append promises\<close>

text \<open>
  The specification of the append (section 4.3 of the specification), stated over the
  whole batch with no threads: the row of an element relative to the page, the elements
  in batch order, the entry a valid element becomes, the number of rows appended (the
  rows \<open>InitBudget\<close> reserves and every row a valid element reaches), the appended rows,
  each holding its valid elements in batch order, and the column count the batch
  reports.
\<close>

definition elem_key :: "64 word \<Rightarrow> coo_tuple \<Rightarrow> nat" where
  "elem_key rowid0 e = unat (row_idx e - rowid0)"

definition batch_elements :: "adapter_batch \<Rightarrow> coo_tuple list" where
  "batch_elements b = concat (lines b)"

definition valid_elements :: "f32 \<Rightarrow> adapter_batch \<Rightarrow> coo_tuple list" where
  "valid_elements missing b = filter (\<lambda>e. is_valid missing (tvalue e)) (batch_elements b)"

definition to_entry :: "coo_tuple \<Rightarrow> entry" where
  "to_entry e = Entry (ucast (column_idx e)) (tvalue e)"

definition new_rows_count :: "sparse_page \<Rightarrow> adapter_batch \<Rightarrow> f32 \<Rightarrow> nat" where
  "new_rows_count p b missing =
     fold max (map (\<lambda>e. Suc (elem_key (base_rowid p) e - Size p)) (valid_elements missing b))
       (expected_rows p b - Size p)"

definition batch_rows :: "sparse_page \<Rightarrow> adapter_batch \<Rightarrow> f32 \<Rightarrow> entry list list" where
  "batch_rows p b missing =
     map (\<lambda>j. map to_entry (filter (\<lambda>e. elem_key (base_rowid p) e = Size p + j) (valid_elements missing b)))
       [0..<new_rows_count p b missing]"

definition max_columns :: "adapter_batch \<Rightarrow> 64 word" where
  "max_columns b = fold max (map (\<lambda>e. column_idx e + 1) (batch_elements b)) 0"

text \<open>The builder calls the two passes make, thread after thread: \<open>AddBudget(key, tid)\<close>
  as \<open>(column, thread)\<close> pairs of the budget table, and \<open>Push(key, entry, tid)\<close>.\<close>

definition budget_ops :: "64 word \<Rightarrow> nat \<Rightarrow> f32 \<Rightarrow> adapter_batch \<Rightarrow> nat \<Rightarrow> (nat \<times> nat) list" where
  "budget_ops rowid0 base missing b nthread =
     concat (map (\<lambda>t. map (\<lambda>e. (elem_key rowid0 e - base, t))
       (filter (\<lambda>e. is_valid missing (tvalue e)) (thread_elements b nthread t))) [0..<nthread])"

definition place_ops :: "64 word \<Rightarrow> f32 \<Rightarrow> adapter_batch \<Rightarrow> nat \<Rightarrow> (nat \<times> entry \<times> nat) list" where
  "place_ops rowid0 missing b nthread =
     concat (map (\<lambda>t. map (\<lambda>e. (elem_key rowid0 e, to_entry e, t))
       (filter (\<lambda>e. is_valid missing (tvalue e)) (thread_elements b nthread t))) [0..<nthread])"

text \<open>The outcome of the append: no change for an empty batch, the errors in the order the
  code raises them, otherwise the page with the batch's rows appended.\<close>

definition push_spec ::
  "sparse_page \<Rightarrow> adapter_batch \<Rightarrow> f32 \<Rightarrow> nat \<Rightarrow> push_error + (sparse_page \<times> 64 word)" where
  "push_spec p b missing nthread0 =
     (if BatchSize b = 0 then Inr (p, 0)
      else if kIsRowMajor b \<and> nthread0 = 0 then Inl ZeroThreads
      else if list_ex (\<lambda>e. elem_key (base_rowid p) e < Size p) (batch_elements b) then Inl RowBelowBase
      else if \<not> list_all (\<lambda>e. inf_admissible missing (tvalue e)) (batch_elements b) then Inl InfInData
      else Inr (PushPage p (page_of_rows (batch_rows p b missing)), max_columns b))"

declare elem_key_def [model_defs] batch_elements_def [model_defs] valid_elements_def [model_defs]
  to_entry_def [model_defs] new_rows_count_def [model_defs] batch_rows_def [model_defs]
  max_columns_def [model_defs] budget_ops_def [model_defs] place_ops_def [model_defs]
  push_spec_def [model_defs]


subsection \<open>The two passes\<close>

text \<open>Each pass is characterised over the whole batch: the first either stops at the first
  element below the base or leaves the table of \<open>budget_ops\<close>, the conjunction of the
  admissibility tests and the per-thread maxima; the second is \<open>push_all\<close> of
  \<open>place_ops\<close>, its builder errors wrapped in \<open>BuilderFault\<close>.\<close>

lemma pass1_elements:
  assumes "gb_base st = base" and "tid < length (gb_budget st)"
  shows "fold_err (pass1_element missing r0 base tid) xs (st, v, m) =
    (if list_ex (\<lambda>e. elem_key r0 e < base) xs then Inl RowBelowBase
     else Inr (st\<lparr>gb_budget := budget_table (gb_budget st)
                 (map (\<lambda>e. (elem_key r0 e - base, tid)) (filter (\<lambda>e. is_valid missing (tvalue e)) xs))\<rparr>,
               v \<and> list_all (\<lambda>e. inf_admissible missing (tvalue e)) xs,
               fold max (map (\<lambda>e. column_idx e + 1) xs) m))"
  using assms
proof (induction xs arbitrary: st v m)
  case Nil
  then show ?case by (simp add: budget_table_def)
next
  case (Cons x xs)
  show ?case
  proof (cases "elem_key r0 x < base")
    case True
    then show ?thesis by (simp add: pass1_element_def elem_key_def)
  next
    case False
    define v' where "v' = (v \<and> inf_admissible missing (tvalue x))"
    define st' where "st' = (if is_valid missing (tvalue x)
       then st\<lparr>gb_budget := upd2 (gb_budget st) tid (elem_key r0 x - base) Suc\<rparr> else st)"
    have step: "pass1_element missing r0 base tid x (st, v, m) = Inr (st', v', max (column_idx x + 1) m)"
      using False Cons.prems
      by (auto simp: pass1_element_def elem_key_def AddBudget_def st'_def v'_def inf_admissible_def max.commute)
    have "gb_base st' = base" and "tid < length (gb_budget st')"
      using Cons.prems by (simp_all add: st'_def)
    note IH = Cons.IH [OF this, of v' "max (column_idx x + 1) m"]
    show ?thesis
      using False by (simp add: step IH) (auto simp: st'_def v'_def)
  qed
qed

lemma pass1_thread_run:
  assumes "gb_base st = base" and "t < length (gb_budget st)"
  shows "pass1_thread missing r0 base b n t (st, v, mcs) =
    (if list_ex (\<lambda>e. elem_key r0 e < base) (thread_elements b n t) then Inl RowBelowBase
     else Inr (st\<lparr>gb_budget := budget_table (gb_budget st)
                 (map (\<lambda>e. (elem_key r0 e - base, t))
                    (filter (\<lambda>e. is_valid missing (tvalue e)) (thread_elements b n t)))\<rparr>,
               v \<and> list_all (\<lambda>e. inf_admissible missing (tvalue e)) (thread_elements b n t),
               mcs @ [fold max (map (\<lambda>e. column_idx e + 1) (thread_elements b n t)) 0]))"
  using assms by (simp add: pass1_thread_def pass1_elements)

lemma pass1_threads:
  assumes "gb_base st = base" and "\<forall>t \<in> set ts. t < length (gb_budget st)"
  shows "fold_err (pass1_thread missing r0 base b n) ts (st, v, mcs) =
    (if list_ex (\<lambda>e. elem_key r0 e < base) (concat (map (thread_elements b n) ts)) then Inl RowBelowBase
     else Inr (st\<lparr>gb_budget := budget_table (gb_budget st)
                 (concat (map (\<lambda>t. map (\<lambda>e. (elem_key r0 e - base, t))
                     (filter (\<lambda>e. is_valid missing (tvalue e)) (thread_elements b n t))) ts))\<rparr>,
               v \<and> list_all (\<lambda>e. inf_admissible missing (tvalue e)) (concat (map (thread_elements b n) ts)),
               mcs @ map (\<lambda>t. fold max (map (\<lambda>e. column_idx e + 1) (thread_elements b n t)) 0) ts))"
  using assms
proof (induction ts arbitrary: st v mcs)
  case Nil
  then show ?case by (simp add: budget_table_def)
next
  case (Cons t ts)
  then have t: "t < length (gb_budget st)" by simp
  show ?case
  proof (cases "list_ex (\<lambda>e. elem_key r0 e < base) (thread_elements b n t)")
    case True
    then show ?thesis using Cons.prems t by (simp add: pass1_thread_run)
  next
    case False
    then show ?thesis using Cons.prems t
      by (simp add: pass1_thread_run Cons.IH budget_table_append conj_assoc)
  qed
qed

lemma pass2_elements:
  "fold_err (pass2_element missing r0 tid) xs st =
     map_sum BuilderFault id
       (push_all (map (\<lambda>e. (elem_key r0 e, to_entry e, tid)) (filter (\<lambda>e. is_valid missing (tvalue e)) xs)) st)"
proof (induction xs arbitrary: st)
  case (Cons x xs)
  then show ?case
    by (cases "GroupPush (elem_key r0 x) (to_entry x) tid st")
      (auto simp: pass2_element_def push_all_def elem_key_def to_entry_def)
qed (simp add: push_all_def)

lemma pass2_threads:
  "fold_err (\<lambda>tid. fold_err (pass2_element missing r0 tid) (X tid)) ts st =
     map_sum BuilderFault id (push_all (concat (map (\<lambda>t. map (\<lambda>e. (elem_key r0 e, to_entry e, t))
        (filter (\<lambda>e. is_valid missing (tvalue e)) (X t))) ts)) st)"
proof (induction ts arbitrary: st)
  case (Cons t ts)
  then show ?case
    by (cases "push_all (map (\<lambda>e. (elem_key r0 e, to_entry e, t)) (filter (\<lambda>e. is_valid missing (tvalue e)) (X t))) st")
      (simp_all add: pass2_elements push_all_append)
qed (simp add: push_all_def)

lemma thread_elements_concat:
  "0 < n \<Longrightarrow> concat (map (thread_elements b n) [0..<n]) = batch_elements b"
proof -
  assume n: "0 < n"
  have cc: "concat (map (\<lambda>t. concat (map f (g t))) ts) = concat (map f (concat (map g ts)))"
    for f :: "nat \<Rightarrow> coo_tuple list" and g and ts :: "nat list"
    by (induction ts) auto
  have "concat (map (thread_elements b n) [0..<n]) =
          concat (map (GetLine b) (concat (map (thread_range (BatchSize b) n) [0..<n])))"
    unfolding thread_elements_def by (rule cc)
  also have "\<dots> = concat (map (GetLine b) [0..<BatchSize b])" using n by (simp add: concat_thread_range)
  also have "\<dots> = batch_elements b"
  proof -
    have "map (GetLine b) [0..<BatchSize b] = lines b"
      by (rule nth_equalityI) (simp_all add: GetLine_def BatchSize_def)
    then show ?thesis by (simp add: batch_elements_def)
  qed
  finally show ?thesis .
qed

lemma pass1_run:
  fixes E n off d base
  defines "S0 \<equiv> InitBudget E n (gb_new off d base)"
  assumes n: "0 < n"
  shows "pass1 missing r0 base b n S0 =
    (if list_ex (\<lambda>e. elem_key r0 e < base) (batch_elements b) then Inl RowBelowBase
     else Inr (S0\<lparr>gb_budget := budget_table (replicate n (replicate (E - base) 0)) (budget_ops r0 base missing b n)\<rparr>,
               list_all (\<lambda>e. inf_admissible missing (tvalue e)) (batch_elements b),
               map (\<lambda>t. fold max (map (\<lambda>e. column_idx e + 1) (thread_elements b n t)) 0) [0..<n]))"
proof -
  have "gb_base S0 = base" and "\<forall>t \<in> set [0..<n]. t < length (gb_budget S0)"
    by (simp_all add: S0_def InitBudget_def gb_new_def)
  from pass1_threads [OF this, where v = True and mcs = "[]"] show ?thesis
    using thread_elements_concat [OF n, of b]
    by (simp add: pass1_def budget_ops_def S0_def InitBudget_def gb_new_def)
qed

lemma pass2_run:
  "pass2 missing r0 b n st = map_sum BuilderFault id (push_all (place_ops r0 missing b n) st)"
  by (simp add: pass2_def pass2_threads place_ops_def)

lemma pushed_place_ops:
  "pushed (place_ops r0 missing b n) t k =
     (if t < n then map to_entry (filter (\<lambda>e. elem_key r0 e = k)
        (filter (\<lambda>e. is_valid missing (tvalue e)) (thread_elements b n t))) else [])"
proof -
  have "filter (\<lambda>(k', v, t'). k' = k \<and> t' = t) (place_ops r0 missing b n) =
         (if t < n then map (\<lambda>e. (elem_key r0 e, to_entry e, t)) (filter (\<lambda>e. elem_key r0 e = k)
            (filter (\<lambda>e. is_valid missing (tvalue e)) (thread_elements b n t))) else [])"
    unfolding place_ops_def by (rule filter_thread_tagged) auto
  then show ?thesis by (simp add: pushed_def comp_def)
qed

lemma get2_budget_ops:
  "get2 (budget_table (replicate n (replicate m 0)) (budget_ops r0 base missing b n)) t j =
     (if t < n then length (filter (\<lambda>e. elem_key r0 e - base = j)
        (filter (\<lambda>e. is_valid missing (tvalue e)) (thread_elements b n t))) else 0)"
proof -
  have thr: "\<forall>(j, t) \<in> set (budget_ops r0 base missing b n). t < length (replicate n (replicate m (0::nat)))"
    by (auto simp: budget_ops_def)
  have "filter ((=) (j, t)) (budget_ops r0 base missing b n) =
         (if t < n then map (\<lambda>e. (elem_key r0 e - base, t)) (filter (\<lambda>e. elem_key r0 e - base = j)
            (filter (\<lambda>e. is_valid missing (tvalue e)) (thread_elements b n t))) else [])"
    unfolding budget_ops_def by (rule filter_thread_tagged) auto
  then show ?thesis
    using get2_budget_table [OF thr, of t j] by (simp add: get2_def)
qed

lemma ngroups_budget_ops:
  assumes "0 < n"
  shows "ngroups (budget_table (replicate n (replicate m 0)) (budget_ops r0 base missing b n)) =
           fold max (map (\<lambda>e. Suc (elem_key r0 e - base)) (valid_elements missing b)) m"
proof -
  have thr: "\<forall>(j, t) \<in> set (budget_ops r0 base missing b n). t < length (replicate n (replicate m (0::nat)))"
    by (auto simp: budget_ops_def)
  have "map (\<lambda>(j, t). Suc j) (budget_ops r0 base missing b n) =
          map (\<lambda>e. Suc (elem_key r0 e - base))
            (filter (\<lambda>e. is_valid missing (tvalue e)) (concat (map (thread_elements b n) [0..<n])))"
    by (simp add: budget_ops_def map_concat filter_concat comp_def)
  then show ?thesis
    using ngroups_budget_table [OF thr] assms
    by (simp add: ngroups_replicate thread_elements_concat valid_elements_def)
qed

lemma thread_elements_subset:
  "0 < n \<Longrightarrow> t < n \<Longrightarrow> set (thread_elements b n t) \<subseteq> set (batch_elements b)"
  by (subst thread_elements_concat [of n b, symmetric]) auto

lemma list_ex_key_iff:
  "\<not> list_ex (\<lambda>e. elem_key r0 e < base) xs \<longleftrightarrow> (\<forall>e \<in> set xs. base \<le> elem_key r0 e)"
  by (auto simp: list_ex_iff not_less)

text \<open>With every row at or above the base, each thread pushes to every group exactly the
  records it counted.\<close>

lemma place_ops_exact:
  assumes n: "0 < n" and keys: "\<forall>e \<in> set (batch_elements b). base \<le> elem_key r0 e"
  shows "length (pushed (place_ops r0 missing b n) t (base + j)) =
           get2 (budget_table (replicate n (replicate m 0)) (budget_ops r0 base missing b n)) t j"
proof (cases "t < n")
  case True
  then have "\<forall>e \<in> set (thread_elements b n t). base \<le> elem_key r0 e"
    using keys thread_elements_subset [OF n True, of b] by blast
  then have "filter (\<lambda>e. elem_key r0 e = base + j) (filter (\<lambda>e. is_valid missing (tvalue e)) (thread_elements b n t))
           = filter (\<lambda>e. elem_key r0 e - base = j) (filter (\<lambda>e. is_valid missing (tvalue e)) (thread_elements b n t))"
    by (intro filter_cong) auto
  with True show ?thesis by (simp add: pushed_place_ops get2_budget_ops)
qed (simp add: pushed_place_ops get2_budget_ops)

lemma place_ops_fits:
  assumes n: "0 < n" and keys: "\<forall>e \<in> set (batch_elements b). base \<le> elem_key r0 e"
  shows "fits base (budget_table (replicate n (replicate m 0)) (budget_ops r0 base missing b n))
           (place_ops r0 missing b n)"
  unfolding fits_def
proof (intro ballI, clarify)
  fix k v t assume op: "(k, v, t) \<in> set (place_ops r0 missing b n)"
  then obtain e where t: "t < n" and e: "e \<in> set (thread_elements b n t)" and k: "k = elem_key r0 e"
    by (auto simp: place_ops_def)
  have kb: "base \<le> k" using keys thread_elements_subset [OF n t, of b] e k by auto
  then have "k = base + (k - base)" by simp
  then show "base \<le> k \<and> length (pushed (place_ops r0 missing b n) t k)
      \<le> get2 (budget_table (replicate n (replicate m 0)) (budget_ops r0 base missing b n)) t (k - base)"
    using kb place_ops_exact [OF n keys, of missing t "k - base" m] by simp
qed

text \<open>The records of group \<open>base + j\<close>, thread after thread, are the valid elements of row
  \<open>base + j\<close> in batch order.\<close>

lemma place_ops_group:
  assumes n: "0 < n"
  shows "concat (map (\<lambda>t. pushed (place_ops r0 missing b n) t k) [0..<n]) =
           map to_entry (filter (\<lambda>e. elem_key r0 e = k) (valid_elements missing b))"
proof -
  have "concat (map (\<lambda>t. pushed (place_ops r0 missing b n) t k) [0..<n]) =
          concat (map (\<lambda>t. map to_entry (filter (\<lambda>e. elem_key r0 e = k)
            (filter (\<lambda>e. is_valid missing (tvalue e)) (thread_elements b n t)))) [0..<n])"
    by (intro arg_cong [where f = concat] map_cong) (simp_all add: pushed_place_ops)
  also have "\<dots> = map to_entry (filter (\<lambda>e. elem_key r0 e = k)
            (filter (\<lambda>e. is_valid missing (tvalue e)) (concat (map (thread_elements b n) [0..<n]))))"
    by (simp add: filter_concat map_concat comp_def)
  finally show ?thesis by (simp add: thread_elements_concat [OF n] valid_elements_def)
qed

lemma PushBatch_success:
  assumes wf: "wf_page p" and nb: "0 < BatchSize b" and n: "0 < (if kIsRowMajor b then n0 else 1)"
    and keys: "\<forall>e \<in> set (batch_elements b). Size p \<le> elem_key (base_rowid p) e"
    and adm: "list_all (\<lambda>e. inf_admissible missing (tvalue e)) (batch_elements b)"
  shows "PushBatch p b missing n0 = Inr (PushPage p (page_of_rows (batch_rows p b missing)), max_columns b)"
proof -
  define n where "n = (if kIsRowMajor b then n0 else 1)"
  define base where "base = Size p"
  define r0 where "r0 = base_rowid p"
  define E where "E = expected_rows p b"
  define S0 where "S0 = InitBudget E n (gb_new (offset p) (data p) base)"
  define tab where "tab = budget_table (replicate n (replicate (E - base) 0)) (budget_ops r0 base missing b n)"
  define S1 where "S1 = S0\<lparr>gb_budget := tab\<rparr>"
  define ops where "ops = place_ops r0 missing b n"
  define R where "R = batch_rows p b missing"
  define G where "G = new_rows_count p b missing"
  define mcs where "mcs = map (\<lambda>t. fold max (map (\<lambda>e. column_idx e + 1) (thread_elements b n t)) 0) [0..<n]"
  have n0: "0 < n" using n by (simp add: n_def)
  have keys': "\<forall>e \<in> set (batch_elements b). base \<le> elem_key r0 e"
    using keys by (simp add: base_def r0_def)
  have p1: "pass1 missing r0 base b n S0 = Inr (S1, True, mcs)"
    using keys' adm by (simp add: S0_def pass1_run [OF n0] S1_def tab_def mcs_def list_ex_key_iff)
  have S1: "gb_base S1 = base" "gb_budget S1 = tab" "gb_offset S1 = offset p" "gb_data S1 = data p"
    "length tab = n" by (simp_all add: S1_def S0_def InitBudget_def gb_new_def tab_def)
  have G: "ngroups tab = G" and lenR: "length R = G"
    using ngroups_budget_ops [OF n0] by (simp_all add: tab_def G_def new_rows_count_def base_def r0_def R_def batch_rows_def E_def)
  have fit: "fits (gb_base S1) (gb_budget S1) ops"
    using place_ops_fits [OF n0 keys'] by (simp add: S1 tab_def ops_def)
  have exact: "length (pushed ops t (base + j)) = get2 tab t j" for t j
    using place_ops_exact [OF n0 keys'] by (simp add: ops_def tab_def)
  from push_all_placed [OF fit, of entry0] obtain S where
    run: "push_all ops (InitStorage entry0 S1) = Inr S" and pl: "placed entry0 S1 ops S" by blast
  have row: "concat (map (\<lambda>t. pushed ops t (base + j)) [0..<n]) = R ! j" if "j < G" for j
    using that place_ops_group [OF n0] by (simp add: ops_def R_def batch_rows_def G_def base_def r0_def)
  have top: "top_offset (offset p) = length (data p)"
    using wf by (simp add: wf_page_def top_offset_def)
  have data: "gb_data S = data p @ concat R"
  proof -
    have "gb_data S = data p @ bucket ops base n G"
      using push_all_layout [OF fit _ _ run] exact top by (simp add: S1 G)
    also have "bucket ops base n G = concat (map (\<lambda>j. R ! j) [0..<G])"
      unfolding bucket_def using row by (intro arg_cong [where f = concat] map_cong) simp_all
    also have "\<dots> = concat R" using lenR map_nth [of R] by simp
    finally show ?thesis .
  qed
  have gt: "psum (group_total tab) (Suc j) = length (concat (take (Suc j) R))" if "j < G" for j
  proof -
    have "group_total tab i = length (R ! i)" if "i < G" for i
    proof -
      have "group_total tab i = psum (\<lambda>t. length (pushed ops t (base + i))) n"
        by (simp add: group_total_def S1(5) exact)
      also have "\<dots> = length (R ! i)"
        using row [OF that] length_concat_upt [of "\<lambda>t. pushed ops t (base + i)" n] by simp
      finally show ?thesis .
    qed
    then have "psum (group_total tab) (Suc j) = psum (\<lambda>i. length (R ! i)) (Suc j)"
      using \<open>j < G\<close> by (intro psum_cong) simp
    then show ?thesis using \<open>j < G\<close> lenR by (simp add: psum_length_take take_Suc_conv_app_nth)
  qed
  have off: "gb_offset S = offset p @ map (\<lambda>j. length (data p) + length (concat (take (Suc j) R))) [0..<G]"
    using placed_dest(1) [OF pl] top gt by (simp add: InitStorage_def Let_def S1 G del: upt_Suc)
  have mc: "fold max mcs 0 = max_columns b"
    using fold_max_concat [of "\<lambda>e. column_idx e + 1" "thread_elements b n" "[0..<n]" 0]
    by (simp add: mcs_def max_columns_def thread_elements_concat [OF n0])
  have "PushBatch p b missing n0 = Inr (p\<lparr>offset := gb_offset S, data := gb_data S\<rparr>, fold max mcs 0)"
    using nb n0 p1 run
    by (simp add: PushBatch_def n_def [symmetric] base_def [symmetric] r0_def [symmetric]
        E_def [symmetric] S0_def [symmetric] pass2_run ops_def [symmetric])
  moreover have "PushPage p (page_of_rows R) = p\<lparr>offset := gb_offset S, data := gb_data S\<rparr>"
    using PushPage_page_of_rows [OF wf, of R] by (simp only: off data lenR)
  ultimately show ?thesis unfolding R_def [symmetric] mc by simp
qed

lemma PushBatch_errors:
  assumes nb: "0 < BatchSize b" and n: "0 < (if kIsRowMajor b then n0 else 1)"
  shows "list_ex (\<lambda>e. elem_key (base_rowid p) e < Size p) (batch_elements b) \<Longrightarrow>
           PushBatch p b missing n0 = Inl RowBelowBase"
    and "\<not> list_ex (\<lambda>e. elem_key (base_rowid p) e < Size p) (batch_elements b) \<Longrightarrow>
         \<not> list_all (\<lambda>e. inf_admissible missing (tvalue e)) (batch_elements b) \<Longrightarrow>
           PushBatch p b missing n0 = Inl InfInData"
proof -
  define m where "m = (if kIsRowMajor b then n0 else 1)"
  have m: "0 < m" using n by (simp add: m_def)
  have run: "PushBatch p b missing n0 =
      (case pass1 missing (base_rowid p) (Size p) b m
              (InitBudget (expected_rows p b) m (gb_new (offset p) (data p) (Size p))) of
         Inl err \<Rightarrow> Inl err
       | Inr (st, valid, mcs) \<Rightarrow>
           if \<not> valid then Inl InfInData
           else (case pass2 missing (base_rowid p) b m (InitStorage entry0 st) of
                   Inl err \<Rightarrow> Inl err
                 | Inr st' \<Rightarrow> Inr (p\<lparr>offset := gb_offset st', data := gb_data st'\<rparr>, fold max mcs 0)))"
    using nb m by (simp add: PushBatch_def Let_def m_def [symmetric])
  show "list_ex (\<lambda>e. elem_key (base_rowid p) e < Size p) (batch_elements b) \<Longrightarrow>
           PushBatch p b missing n0 = Inl RowBelowBase"
    by (simp add: run pass1_run [OF m])
  show "\<not> list_ex (\<lambda>e. elem_key (base_rowid p) e < Size p) (batch_elements b) \<Longrightarrow>
         \<not> list_all (\<lambda>e. inf_admissible missing (tvalue e)) (batch_elements b) \<Longrightarrow>
           PushBatch p b missing n0 = Inl InfInData"
    by (simp add: run pass1_run [OF m])
qed

lemma PushBatch_push_spec:
  assumes "wf_page p"
  shows "PushBatch p b missing n0 = push_spec p b missing n0"
proof (cases "BatchSize b = 0 \<or> kIsRowMajor b \<and> n0 = 0")
  case True
  then show ?thesis by (auto simp: PushBatch_def push_spec_def)
next
  case False
  then have nb: "0 < BatchSize b" and n: "0 < (if kIsRowMajor b then n0 else 1)" by auto
  show ?thesis
    using PushBatch_errors [OF nb n] PushBatch_success [OF assms nb n] False
    by (auto simp: push_spec_def list_ex_key_iff)
qed

lemma batch_rows_empty: "BatchSize b = 0 \<Longrightarrow> batch_rows p b missing = [] \<and> max_columns b = 0"
  by (simp add: batch_rows_def new_rows_count_def valid_elements_def batch_elements_def
      expected_rows_def max_columns_def BatchSize_def)

lemma elem_key_wrap: "row_idx e < r0 \<Longrightarrow> elem_key r0 e = 2 ^ 64 + unat (row_idx e) - unat r0"
  by (simp add: elem_key_def unat_sub_if' word_less_nat_alt)

subsection \<open>Properties of the append\<close>

text \<open>
  C7. \<open>SparsePage::Push(batch, missing, nthread)\<close> on a well-formed page implements its
  specification: an empty batch changes nothing and reports 0 columns; with no thread a
  row-major batch fails; an element whose row lies below the page's rows fails the
  \<open>CHECK_GE\<close>; otherwise an infinite value with a finite sentinel fails with
  \<open>InfInData\<close>; otherwise the page gains, after its rows, the rows of the batch (each
  row's valid elements in batch order), and the result is the largest
  \<open>column_idx + 1\<close> of the batch.
\<close>

theorem PushBatch_refines:
  assumes "wf_page p"
  shows "PushBatch p b missing n0 = push_spec p b missing n0"
  by (rule PushBatch_push_spec [OF assms])

text \<open>The spec's example: values \<open>[1.0, NaN, 0.0, 0.0]\<close> at columns \<open>0..3\<close> of one row,
  sentinel \<open>0.0\<close>, two threads: the row holds \<open>(0, 1.0)\<close> only, 4 columns are reported.\<close>

theorem PushBatch_refines_witness:
  "PushBatch \<lparr>offset = [0], data = [], base_rowid = 0\<rparr>
     \<lparr>kIsRowMajor = True, lines = [[\<lparr>row_idx = 0, column_idx = 0, tvalue = Fin 1\<rparr>,
        \<lparr>row_idx = 0, column_idx = 1, tvalue = NaN\<rparr>, \<lparr>row_idx = 0, column_idx = 2, tvalue = Fin 0\<rparr>,
        \<lparr>row_idx = 0, column_idx = 3, tvalue = Fin 0\<rparr>]]\<rparr> (Fin 0) 2 =
   Inr (\<lparr>offset = [0, 1], data = [Entry 0 (Fin 1)], base_rowid = 0\<rparr>, 4)"
proof -
  have "wf_page \<lparr>offset = [0], data = [], base_rowid = 0\<rparr>" by (simp add: wf_page_def)
  then have "PushBatch \<lparr>offset = [0], data = [], base_rowid = 0\<rparr>
     \<lparr>kIsRowMajor = True, lines = [[\<lparr>row_idx = 0, column_idx = 0, tvalue = Fin 1\<rparr>,
        \<lparr>row_idx = 0, column_idx = 1, tvalue = NaN\<rparr>, \<lparr>row_idx = 0, column_idx = 2, tvalue = Fin 0\<rparr>,
        \<lparr>row_idx = 0, column_idx = 3, tvalue = Fin 0\<rparr>]]\<rparr> (Fin 0) 2 =
     push_spec \<lparr>offset = [0], data = [], base_rowid = 0\<rparr>
     \<lparr>kIsRowMajor = True, lines = [[\<lparr>row_idx = 0, column_idx = 0, tvalue = Fin 1\<rparr>,
        \<lparr>row_idx = 0, column_idx = 1, tvalue = NaN\<rparr>, \<lparr>row_idx = 0, column_idx = 2, tvalue = Fin 0\<rparr>,
        \<lparr>row_idx = 0, column_idx = 3, tvalue = Fin 0\<rparr>]]\<rparr> (Fin 0) 2"
    by (rule PushBatch_refines)
  then show ?thesis by (simp add: model_defs)
qed

text \<open>
  C8. A successful append keeps the page well-formed and its \<open>base_rowid\<close>, appends
  exactly the batch's rows after the existing ones (an append, never an overwrite), and
  reports the batch's column count.
\<close>

theorem PushBatch_appends_rows:
  assumes wf: "wf_page p" and run: "PushBatch p b missing n0 = Inr (p', mc)"
  shows "wf_page p' \<and> rows p' = rows p @ batch_rows p b missing \<and>
         base_rowid p' = base_rowid p \<and> mc = max_columns b"
proof -
  have spec: "push_spec p b missing n0 = Inr (p', mc)"
    using run PushBatch_push_spec [OF wf] by simp
  show ?thesis
  proof (cases "BatchSize b = 0")
    case True
    then show ?thesis using spec wf batch_rows_empty [OF True] by (simp add: push_spec_def)
  next
    case False
    then have p': "p' = PushPage p (page_of_rows (batch_rows p b missing))" and "mc = max_columns b"
      using spec by (auto simp: push_spec_def split: if_splits)
    then show ?thesis
      using PushPage_rows [OF wf wf_page_page_of_rows] by (simp add: rows_page_of_rows PushPage_def Let_def)
  qed
qed

text \<open>The spec's example: \<open>[(col 0, 5.0)]\<close> then \<open>[(col 1, 6.0)]\<close> pushed to an empty page
  give \<open>offset = [0, 1, 2]\<close> and \<open>data = [(0, 5.0), (1, 6.0)]\<close>.\<close>

theorem PushBatch_appends_rows_witness:
  "PushBatch \<lparr>offset = [0, 1], data = [Entry 0 (Fin 5)], base_rowid = 0\<rparr>
     \<lparr>kIsRowMajor = True, lines = [[\<lparr>row_idx = 1, column_idx = 1, tvalue = Fin 6\<rparr>]]\<rparr> (Fin 0) 1 =
   Inr (\<lparr>offset = [0, 1, 2], data = [Entry 0 (Fin 5), Entry 1 (Fin 6)], base_rowid = 0\<rparr>, 2) \<and>
   rows \<lparr>offset = [0, 1, 2], data = [Entry 0 (Fin 5), Entry 1 (Fin 6)], base_rowid = 0\<rparr> =
     [[Entry 0 (Fin 5)], [Entry 1 (Fin 6)]]"
proof -
  have wf: "wf_page \<lparr>offset = [0, 1], data = [Entry 0 (Fin 5)], base_rowid = 0\<rparr>"
    by (simp add: wf_page_def)
  have run: "PushBatch \<lparr>offset = [0, 1], data = [Entry 0 (Fin 5)], base_rowid = 0\<rparr>
     \<lparr>kIsRowMajor = True, lines = [[\<lparr>row_idx = 1, column_idx = 1, tvalue = Fin 6\<rparr>]]\<rparr> (Fin 0) 1 =
     Inr (\<lparr>offset = [0, 1, 2], data = [Entry 0 (Fin 5), Entry 1 (Fin 6)], base_rowid = 0\<rparr>, 2)"
    by code_simp
  have "rows \<lparr>offset = [0, 1, 2], data = [Entry 0 (Fin 5), Entry 1 (Fin 6)], base_rowid = 0\<rparr> =
          rows \<lparr>offset = [0, 1], data = [Entry 0 (Fin 5)], base_rowid = 0\<rparr> @
          batch_rows \<lparr>offset = [0, 1], data = [Entry 0 (Fin 5)], base_rowid = 0\<rparr>
            \<lparr>kIsRowMajor = True, lines = [[\<lparr>row_idx = 1, column_idx = 1, tvalue = Fin 6\<rparr>]]\<rparr> (Fin 0)"
    using PushBatch_appends_rows [OF wf run] by simp
  then show ?thesis using run by (simp add: model_defs)
qed

text \<open>
  C9. The outcome of an append does not depend on the number of threads: any two positive
  thread counts give the same page, the same column count and the same errors.
\<close>

theorem PushBatch_thread_count:
  assumes "wf_page p" and "0 < n1" and "0 < n2"
  shows "PushBatch p b missing n1 = PushBatch p b missing n2"
  using assms PushBatch_push_spec [of p b missing n1] PushBatch_push_spec [of p b missing n2]
  by (simp add: push_spec_def)

theorem PushBatch_thread_count_witness:
  "PushBatch \<lparr>offset = [0], data = [], base_rowid = 0\<rparr>
     \<lparr>kIsRowMajor = True, lines = [[\<lparr>row_idx = 0, column_idx = 2, tvalue = Fin 1\<rparr>],
        [\<lparr>row_idx = 1, column_idx = 0, tvalue = Fin 2\<rparr>], [\<lparr>row_idx = 2, column_idx = 1, tvalue = Fin 3\<rparr>]]\<rparr> (Fin 0) 1 =
   PushBatch \<lparr>offset = [0], data = [], base_rowid = 0\<rparr>
     \<lparr>kIsRowMajor = True, lines = [[\<lparr>row_idx = 0, column_idx = 2, tvalue = Fin 1\<rparr>],
        [\<lparr>row_idx = 1, column_idx = 0, tvalue = Fin 2\<rparr>], [\<lparr>row_idx = 2, column_idx = 1, tvalue = Fin 3\<rparr>]]\<rparr> (Fin 0) 2"
  by (rule PushBatch_thread_count) (simp_all add: wf_page_def)

text \<open>
  The number of rows an append adds is the larger of \<open>batch_size - Size()\<close> and the
  highest valid row reached: a row-major batch whose last line holds only missing values
  gains that line as an empty row on an empty page, and loses it on a page that already
  has rows.
\<close>

theorem PushBatch_trailing_rows:
  "PushBatch \<lparr>offset = [0], data = [], base_rowid = 0\<rparr>
     \<lparr>kIsRowMajor = True, lines = [[\<lparr>row_idx = 0, column_idx = 0, tvalue = Fin 1\<rparr>],
        [\<lparr>row_idx = 1, column_idx = 0, tvalue = Fin 0\<rparr>]]\<rparr> (Fin 0) 1 =
   Inr (\<lparr>offset = [0, 1, 1], data = [Entry 0 (Fin 1)], base_rowid = 0\<rparr>, 1) \<and>
   PushBatch \<lparr>offset = [0, 1], data = [Entry 0 (Fin 7)], base_rowid = 0\<rparr>
     \<lparr>kIsRowMajor = True, lines = [[\<lparr>row_idx = 1, column_idx = 0, tvalue = Fin 1\<rparr>],
        [\<lparr>row_idx = 2, column_idx = 0, tvalue = Fin 0\<rparr>]]\<rparr> (Fin 0) 1 =
   Inr (\<lparr>offset = [0, 1, 2], data = [Entry 0 (Fin 7), Entry 0 (Fin 1)], base_rowid = 0\<rparr>, 1)"
  by code_simp

text \<open>
  The row key \<open>row_idx - base_rowid\<close> is a 64-bit difference: for a row index below
  \<open>base_rowid\<close> it wraps to \<open>2^64 + row_idx - base_rowid\<close>, so the code's
  \<open>CHECK_GE(key, Size())\<close> accepts it on any page of fewer rows.
\<close>

theorem elem_key_wraps:
  assumes "row_idx e < rowid0"
  shows "elem_key rowid0 e = 2 ^ 64 + unat (row_idx e) - unat rowid0 \<and> 2 ^ 64 - unat rowid0 \<le> elem_key rowid0 e"
  using elem_key_wrap [OF assms] by simp

theorem elem_key_wraps_witness:
  "elem_key 1 \<lparr>row_idx = 0, column_idx = 0, tvalue = Fin 1\<rparr> = 18446744073709551615"
  using elem_key_wraps [of "\<lparr>row_idx = 0, column_idx = 0, tvalue = Fin 1\<rparr>" 1] by simp

end
