(* ===== verification/Transpose.thy ===== *)
theory Transpose
  imports Sparse_Page Group_Builder
begin

text \<open>
  The CSC operations of \<open>src/src/data/data.cc\<close>: \<open>SparsePage::GetTranspose(num_columns,
  n_threads)\<close>, which buckets the entries of a page by column with the Parallel Group
  Builder, and \<open>SparsePage::PushCSC(batch)\<close>, which merges two column-major pages
  column by column. The two \<open>common::ParallelFor\<close> loops of the transpose are
  \<open>parallel_for_err\<close> with the static schedule; a \<open>CHECK\<close> failure is an \<open>Inl\<close>.
\<close>

datatype transpose_error = NoThreads | TransposeFault gb_error | OffsetSizeMismatch

text \<open>\<open>SparsePage()\<close>: a new page is cleared, \<open>offset = {0}\<close>, no entries, \<open>base_rowid = 0\<close>.\<close>

definition SparsePage_new :: sparse_page where
  "SparsePage_new = \<lparr>offset = [0], data = [], base_rowid = 0\<rparr>"

text \<open>The entry placed for \<open>entry\<close> of row \<open>i\<close>:
  \<open>Entry(static_cast<bst_uint>(this->base_rowid + i), entry.fvalue)\<close>, a 64-bit sum
  truncated to the 32-bit index.\<close>

definition transpose_entry :: "sparse_page \<Rightarrow> nat \<Rightarrow> entry \<Rightarrow> entry" where
  "transpose_entry p i e = Entry (ucast (base_rowid p + of_nat i)) (fvalue e)"

text \<open>The bodies of the two loops for row \<open>i\<close> on thread \<open>tid\<close>.\<close>

definition transpose_budget :: "sparse_page \<Rightarrow> nat \<Rightarrow> nat \<Rightarrow> entry group_builder \<Rightarrow> gb_error + entry group_builder" where
  "transpose_budget p i tid = fold_err (\<lambda>e. AddBudget (unat (index e)) tid) (row_view p i)"

definition transpose_place :: "sparse_page \<Rightarrow> nat \<Rightarrow> nat \<Rightarrow> entry group_builder \<Rightarrow> gb_error + entry group_builder" where
  "transpose_place p i tid = fold_err (\<lambda>e. GroupPush (unat (index e)) (transpose_entry p i e) tid) (row_view p i)"

text \<open>\<open>GetTranspose\<close>: the builder targets the new page with base 0 and \<open>num_columns\<close>
  groups; an empty source gets \<open>num_columns + 1\<close> zero offsets; \<open>CHECK_EQ(offset.Size(),
  num_columns + 1)\<close> ends it. \<open>ParallelFor\<close> needs a positive thread count.\<close>

definition GetTranspose :: "sparse_page \<Rightarrow> nat \<Rightarrow> nat \<Rightarrow> transpose_error + sparse_page" where
  "GetTranspose p num_columns n_threads =
     (let transpose = SparsePage_new;
          builder = InitBudget num_columns n_threads (gb_new (offset transpose) (data transpose) 0)
      in if n_threads = 0 then Inl NoThreads
         else case parallel_for_err (Size p) n_threads (transpose_budget p) builder of
           Inl err \<Rightarrow> Inl (TransposeFault err)
         | Inr st \<Rightarrow>
             (case parallel_for_err (Size p) n_threads (transpose_place p) (InitStorage entry0 st) of
                Inl err \<Rightarrow> Inl (TransposeFault err)
              | Inr st' \<Rightarrow>
                  let off = (if data p = [] then replicate (num_columns + 1) 0 else gb_offset st')
                  in if length off \<noteq> num_columns + 1 then Inl OffsetSizeMismatch
                     else Inr (transpose\<lparr>offset := off, data := gb_data st'\<rparr>)))"

declare SparsePage_new_def [model_defs] transpose_entry_def [model_defs] transpose_budget_def [model_defs]
  transpose_place_def [model_defs] GetTranspose_def [model_defs]

subsection \<open>What the transpose promises\<close>

text \<open>The \<open>(row, entry)\<close> pairs of a page in storage order, the calls the placement loop
  makes thread after thread, and the columns of the page: column \<open>c\<close> lists, row after
  row, the transposed entries of index \<open>c\<close>.\<close>

definition row_entries :: "sparse_page \<Rightarrow> (nat \<times> entry) list" where
  "row_entries p = concat (map (\<lambda>i. map (Pair i) (row_view p i)) [0..<Size p])"

definition transpose_ops :: "sparse_page \<Rightarrow> nat \<Rightarrow> (nat \<times> entry \<times> nat) list" where
  "transpose_ops p nt =
     concat (map (\<lambda>t. map (\<lambda>(i, e). (unat (index e), transpose_entry p i e, t))
       (concat (map (\<lambda>i. map (Pair i) (row_view p i)) (thread_range (Size p) nt t)))) [0..<nt])"

definition columns :: "sparse_page \<Rightarrow> nat \<Rightarrow> entry list list" where
  "columns p num_columns =
     map (\<lambda>c. map (\<lambda>(i, e). transpose_entry p i e) (filter (\<lambda>(i, e). unat (index e) = c) (row_entries p)))
       [0..<num_columns]"

definition transpose_spec :: "sparse_page \<Rightarrow> nat \<Rightarrow> nat \<Rightarrow> transpose_error + sparse_page" where
  "transpose_spec p num_columns n_threads =
     (if n_threads = 0 then Inl NoThreads
      else if list_ex (\<lambda>e. num_columns \<le> unat (index e)) (data p) then Inl OffsetSizeMismatch
      else Inr (page_of_rows (columns p num_columns)))"

definition triples :: "sparse_page \<Rightarrow> (nat \<times> nat \<times> f32) list" where
  "triples p = map (\<lambda>(i, e). (i, unat (index e), fvalue e)) (row_entries p)"

declare triples_def [model_defs] row_entries_def [model_defs] transpose_ops_def [model_defs] columns_def [model_defs]
  transpose_spec_def [model_defs]

subsection \<open>The two passes of the transpose\<close>

lemma transpose_budget_run:
  "parallel_for_err (Size p) nt (transpose_budget p) st =
     add_budget_all (map (\<lambda>(k, v, t). (k, t)) (transpose_ops p nt)) st"
  by (simp add: transpose_budget_def parallel_for_err_def add_budget_all_def transpose_ops_def
      fold_err_concat fold_err_map map_concat comp_def case_prod_unfold)

lemma transpose_place_run:
  "parallel_for_err (Size p) nt (transpose_place p) st = push_all (transpose_ops p nt) st"
  by (simp add: transpose_place_def parallel_for_err_def push_all_def transpose_ops_def
      fold_err_concat fold_err_map comp_def case_prod_unfold)

lemma transpose_ops_threads: "\<forall>(k, v, t) \<in> set (transpose_ops p nt). 0 \<le> k \<and> t < nt"
  by (auto simp: transpose_ops_def)

lemma transpose_ops_group:
  assumes nt: "0 < nt"
  shows "concat (map (\<lambda>t. pushed (transpose_ops p nt) t c) [0..<nt]) =
           map (\<lambda>(i, e). transpose_entry p i e) (filter (\<lambda>(i, e). unat (index e) = c) (row_entries p))"
proof -
  define X where "X = (\<lambda>t. concat (map (\<lambda>i. map (Pair i) (row_view p i)) (thread_range (Size p) nt t)))"
  have f: "filter (\<lambda>(k', v, t'). k' = c \<and> t' = t) (transpose_ops p nt) =
           (if t < nt then map (\<lambda>x. (\<lambda>(i, e). (unat (index e), transpose_entry p i e, t)) x)
              (filter (\<lambda>(i, e). unat (index e) = c) (X t)) else [])" for t
    unfolding transpose_ops_def X_def by (rule filter_thread_tagged) auto
  have "concat (map (\<lambda>t. pushed (transpose_ops p nt) t c) [0..<nt]) =
          concat (map (\<lambda>t. map (\<lambda>(i, e). transpose_entry p i e) (filter (\<lambda>(i, e). unat (index e) = c) (X t))) [0..<nt])"
  proof (intro arg_cong [where f = concat] map_cong refl)
    fix t assume "t \<in> set [0..<nt]"
    then show "pushed (transpose_ops p nt) t c =
        map (\<lambda>(i, e). transpose_entry p i e) (filter (\<lambda>(i, e). unat (index e) = c) (X t))"
      unfolding pushed_def f by (simp add: comp_def case_prod_unfold)
  qed
  also have "\<dots> = map (\<lambda>(i, e). transpose_entry p i e) (filter (\<lambda>(i, e). unat (index e) = c) (concat (map X [0..<nt])))"
    by (simp add: filter_concat map_concat comp_def)
  also have "concat (map X [0..<nt]) = row_entries p"
    using concat_map_thread_range [OF nt] by (simp add: X_def row_entries_def)
  finally show ?thesis .
qed

lemma set_row_entries: "wf_page p \<Longrightarrow> snd ` set (row_entries p) = set (data p)"
  using data_concat_rows [of p] by (force simp: row_entries_def rows_def image_iff)

lemma offset_page_of_rows_Cons:
  "offset (page_of_rows cs) = 0 # map (\<lambda>j. length (concat (take (Suc j) cs))) [0..<length cs]"
  by (simp add: page_of_rows_def map_upt_Suc del: upt_Suc)

lemma transpose_ops_keys:
  assumes "0 < nt"
  shows "map (\<lambda>(k, v, t). Suc (k - 0)) (transpose_ops p nt) = map (\<lambda>(i, e). Suc (unat (index e))) (row_entries p)"
proof -
  have "map (\<lambda>(k, v, t). Suc (k - 0)) (transpose_ops p nt) =
          concat (map (\<lambda>t. concat (map (\<lambda>i. map (\<lambda>(i, e). Suc (unat (index e))) (map (Pair i) (row_view p i)))
            (thread_range (Size p) nt t))) [0..<nt])"
    by (simp add: transpose_ops_def map_concat comp_def case_prod_unfold)
  also have "\<dots> = concat (map (\<lambda>i. map (\<lambda>(i, e). Suc (unat (index e))) (map (Pair i) (row_view p i))) [0..<Size p])"
    by (rule concat_map_thread_range [OF assms])
  finally show ?thesis by (simp add: row_entries_def map_concat comp_def)
qed

lemma GetTranspose_run:
  fixes p nc nt
  assumes nt: "0 < nt"
  defines "grp \<equiv> \<lambda>j. map (\<lambda>(i, e). transpose_entry p i e) (filter (\<lambda>(i, e). unat (index e) = j) (row_entries p))"
    and "G \<equiv> fold max (map (\<lambda>(i, e). Suc (unat (index e))) (row_entries p)) nc"
  shows "GetTranspose p nc nt =
    (let off = (if data p = [] then replicate (nc + 1) 0
                else 0 # map (\<lambda>j. length (concat (map grp [0..<Suc j]))) [0..<G])
     in if length off \<noteq> nc + 1 then Inl OffsetSizeMismatch
        else Inr \<lparr>offset = off, data = concat (map grp [0..<G]), base_rowid = 0\<rparr>)"
proof -
  have ops: "\<forall>(k, v, t) \<in> set (transpose_ops p nt). 0 \<le> k \<and> t < nt"
    by (auto simp: transpose_ops_def)
  have top: "length ([] :: entry list) = top_offset [0]" by (simp add: top_offset_def)
  note TP1 = two_pass_build(1) [OF nt ops top, where Gmin = nc]
  note TP2 = two_pass_build(2) [OF nt ops top, where Gmin = nc and dflt = entry0]
  have grp: "(\<lambda>j. concat (map (\<lambda>t. pushed (transpose_ops p nt) t j) [0..<nt])) = grp"
    using transpose_ops_group [OF nt] by (simp add: grp_def fun_eq_iff)
  have G: "fold max (map (\<lambda>(k, v, t). Suc k) (transpose_ops p nt)) nc = G"
    using transpose_ops_keys [OF nt] by (simp add: G_def)
  from TP2 obtain S2 where run: "push_all (transpose_ops p nt) (InitStorage entry0
      ((InitBudget nc nt (gb_new [0] [] 0))\<lparr>gb_budget := budget_table (replicate nt (replicate (nc - 0) 0))
         (map (\<lambda>(k, v, t). (k - 0, t)) (transpose_ops p nt))\<rparr>)) = Inr S2"
    and data: "gb_data S2 = concat (map grp [0..<G])"
    and off: "gb_offset S2 = 0 # map (\<lambda>j. length (concat (map grp [0..<Suc j]))) [0..<G]"
    by (auto simp: grp G top_offset_def simp del: upt_Suc)
  show ?thesis
    using nt TP1 run
    by (simp add: GetTranspose_def SparsePage_new_def transpose_budget_run transpose_place_run
        data off Let_def del: upt_Suc)
qed


lemma GetTranspose_push_spec:
  assumes wf: "wf_page p"
  shows "GetTranspose p nc nt = transpose_spec p nc nt"
proof (cases "nt = 0")
  case True
  then show ?thesis by (simp add: GetTranspose_def transpose_spec_def)
next
  case False
  then have nt: "0 < nt" by simp
  define cs where "cs = columns p nc"
  define grp where "grp = (\<lambda>j. map (\<lambda>(i, e). transpose_entry p i e) (filter (\<lambda>(i, e). unat (index e) = j) (row_entries p)))"
  define G where "G = fold max (map (\<lambda>(i, e). Suc (unat (index e))) (row_entries p)) nc"
  note run = GetTranspose_run [OF nt, of p nc, folded grp_def G_def]
  have ents: "snd ` set (row_entries p) = set (data p)" by (rule set_row_entries [OF wf])
  show ?thesis
  proof (cases "list_ex (\<lambda>e. nc \<le> unat (index e)) (data p)")
    case True
    then obtain e where e: "e \<in> set (data p)" and big: "nc \<le> unat (index e)" by (auto simp: list_ex_iff)
    then obtain i where ie: "(i, e) \<in> set (row_entries p)" using ents by force
    have "Suc (unat (index e)) \<le> G"
      using fold_max_ge [OF ie, of "\<lambda>(i, e). Suc (unat (index e))" nc] by (simp add: G_def)
    then have "nc < G" using big by simp
    then show ?thesis using True e run nt by (auto simp: transpose_spec_def Let_def)
  next
    case False
    then have small: "\<forall>x \<in> set (row_entries p). (\<lambda>(i, e). Suc (unat (index e))) x \<le> nc"
      using ents by (force simp: list_ex_iff not_le)
    then have G: "G = nc" unfolding G_def by (rule fold_max_bounded)
    have lcs: "length cs = nc" by (simp add: cs_def columns_def)
    have grp_cs: "map grp [0..<k] = take k cs" if "k \<le> nc" for k
      using that by (intro nth_equalityI) (auto simp: cs_def columns_def grp_def)
    have offs: "0 # map (\<lambda>j. length (concat (map grp [0..<Suc j]))) [0..<nc] = offset (page_of_rows cs)"
      unfolding offset_page_of_rows_Cons lcs using grp_cs by (simp del: upt_Suc)
    have empty: "offset (page_of_rows cs) = replicate (nc + 1) 0" if "data p = []"
    proof -
      have "row_entries p = []" using ents that by auto
      then show ?thesis by (simp add: offset_page_of_rows_Cons cs_def columns_def map_replicate_const
        del: upt_Suc)
    qed
    have "GetTranspose p nc nt = Inr (page_of_rows cs)"
      using run G offs empty grp_cs [of nc] lcs by (simp add: Let_def page_of_rows_def)
    then show ?thesis using False nt by (simp add: transpose_spec_def cs_def)
  qed
qed

lemma row_entries_page_of_rows:
  "row_entries (page_of_rows cs) = concat (map (\<lambda>r. map (Pair r) (cs ! r)) [0..<length cs])"
proof -
  show ?thesis
    using row_view_page_of_rows [of _ cs]
    unfolding row_entries_def Size_page_of_rows by (intro arg_cong [where f = concat] map_cong) auto
qed

lemma triples_page_of_rows:
  "triples (page_of_rows cs) = concat (map (\<lambda>r. map (\<lambda>e. (r, unat (index e), fvalue e)) (cs ! r)) [0..<length cs])"
  by (simp add: triples_def row_entries_page_of_rows map_concat comp_def)

lemma concat_singleton_upt:
  "concat (map (\<lambda>c. if k = c then [x] else []) [0..<n]) = (if k < n then [x] else [])"
  by (induction n) auto

text \<open>Bucketing a list by a key below \<open>n\<close> and concatenating the buckets permutes it.\<close>

lemma mset_concat_buckets:
  "\<forall>x \<in> set xs. k x < n \<Longrightarrow> mset (concat (map (\<lambda>c. filter (\<lambda>x. k x = c) xs) [0..<n])) = mset xs"
proof (induction xs)
  case (Cons x xs)
  have "mset (concat (map (\<lambda>c. filter (\<lambda>y. k y = c) (x # xs)) [0..<n])) =
          mset (concat (map (\<lambda>c. if k x = c then [x] else []) [0..<n])) +
          mset (concat (map (\<lambda>c. filter (\<lambda>y. k y = c) xs) [0..<n]))"
    by (induction n) auto
  then show ?case using Cons by (simp add: concat_singleton_upt)
qed simp

lemma fvalue_transpose_entry [simp]: "fvalue (transpose_entry p i e) = fvalue e"
  by (simp add: transpose_entry_def)

lemma triples_columns:
  assumes wf: "wf_page p" and base: "base_rowid p = 0"
    and rows: "\<forall>(i, e) \<in> set (row_entries p). i < 2 ^ 32"
    and cols: "\<forall>e \<in> set (data p). unat (index e) < nc"
  shows "mset (triples (page_of_rows (columns p nc))) = image_mset (\<lambda>(i, c, v). (c, i, v)) (mset (triples p))"
proof -
  define RE where "RE = row_entries p"
  have ents: "snd ` set RE = set (data p)" unfolding RE_def by (rule set_row_entries [OF wf])
  have key: "\<forall>x \<in> set RE. (\<lambda>(i, e). unat (index e)) x < nc" using cols ents by force
  have te: "unat (index (transpose_entry p i e)) = i" if "i < 2 ^ 32" for i e
    using that by (simp add: transpose_entry_def base unsigned_ucast_eq take_bit_nat_eq_self_iff
        unsigned_of_nat)
  have "triples (page_of_rows (columns p nc)) =
          concat (map (\<lambda>c. map (\<lambda>(i, e). (unat (index e), i, fvalue e))
            (filter (\<lambda>(i, e). unat (index e) = c) RE)) [0..<nc])"
    unfolding triples_page_of_rows
  proof (intro arg_cong [where f = concat] map_cong)
    show "[0..<length (columns p nc)] = [0..<nc]" by (simp add: columns_def)
    fix c assume "c \<in> set [0..<nc]"
    then have "columns p nc ! c = map (\<lambda>(i, e). transpose_entry p i e) (filter (\<lambda>(i, e). unat (index e) = c) RE)"
      by (simp add: columns_def RE_def)
    moreover have "(c, unat (index (transpose_entry p i e)), fvalue e) = (unat (index e), i, fvalue e)"
      if "(i, e) \<in> set (filter (\<lambda>(i, e). unat (index e) = c) RE)" for i e
      using that rows te by (auto simp: RE_def)
    ultimately show "map (\<lambda>e. (c, unat (index e), fvalue e)) (columns p nc ! c) =
        map (\<lambda>(i, e). (unat (index e), i, fvalue e)) (filter (\<lambda>(i, e). unat (index e) = c) RE)"
      by (auto simp: case_prod_unfold)
  qed
  also have "\<dots> = map (\<lambda>(i, e). (unat (index e), i, fvalue e))
      (concat (map (\<lambda>c. filter (\<lambda>(i, e). unat (index e) = c) RE) [0..<nc]))"
    by (simp add: map_concat comp_def)
  moreover have "mset (concat (map (\<lambda>c. filter (\<lambda>(i, e). unat (index e) = c) RE) [0..<nc])) = mset RE"
    using mset_concat_buckets [OF key] by (simp add: case_prod_unfold)
  ultimately have "mset (triples (page_of_rows (columns p nc))) =
      image_mset (\<lambda>(i, e). (unat (index e), i, fvalue e)) (mset RE)"
    by (simp only: mset_map)
  then show ?thesis by (simp add: triples_def RE_def multiset.map_comp comp_def case_prod_unfold)
qed

lemma row_entries_bound: "(i, e) \<in> set (row_entries p) \<Longrightarrow> i < Size p"
  by (auto simp: row_entries_def)

lemma row_entries_columns:
  assumes "(c, e) \<in> set (row_entries (page_of_rows (columns p nc)))"
  shows "\<exists>i e'. (i, e') \<in> set (row_entries p) \<and> e = transpose_entry p i e' \<and> unat (index e') = c"
  using assms by (auto simp: row_entries_page_of_rows columns_def)

lemma data_columns:
  assumes "e \<in> set (data (page_of_rows (columns p nc)))"
  shows "\<exists>i e'. (i, e') \<in> set (row_entries p) \<and> e = transpose_entry p i e'"
  using assms by (auto simp: page_of_rows_def columns_def)

lemma unat_index_transpose_entry:
  "base_rowid p = 0 \<Longrightarrow> i < 2 ^ 32 \<Longrightarrow> unat (index (transpose_entry p i e)) = i"
  by (simp add: transpose_entry_def unsigned_ucast_eq take_bit_nat_eq_self_iff unsigned_of_nat)

lemma sorted_row_entries: "sorted (map fst (row_entries p))"
proof -
  have "sorted (concat (map (\<lambda>i. replicate (f i) i) [0..<n])) \<and>
        (\<forall>x \<in> set (concat (map (\<lambda>i. replicate (f i) i) [0..<n])). x < n)" for f n
    by (induction n) (auto simp: sorted_append)
  moreover have "map fst (row_entries p) = concat (map (\<lambda>i. replicate (length (row_view p i)) i) [0..<Size p])"
    by (simp add: row_entries_def map_concat comp_def map_replicate_const)
  ultimately show ?thesis by simp
qed

lemma transpose_index:
  "unat (index (transpose_entry p i e)) = (unat (base_rowid p) + i) mod 2 ^ 32"
proof -
  have "unat (index (transpose_entry p i e)) = unat (base_rowid p + of_nat i) mod 2 ^ 32"
    by (simp add: transpose_entry_def unsigned_ucast_eq take_bit_eq_mod)
  also have "\<dots> = ((unat (base_rowid p) + i) mod 2 ^ 64) mod 2 ^ 32"
    by (simp add: unat_word_ariths unat_of_nat mod_add_right_eq)
  also have "\<dots> = (unat (base_rowid p) + i) mod 2 ^ 32"
    by (simp add: mod_mod_cancel)
  finally show ?thesis .
qed
lemma sorted_map_unat: "sorted (map f xs) \<longleftrightarrow> sorted (map (\<lambda>x. unat (f x)) xs)"
  for f :: "'a \<Rightarrow> 'b::len word"
  by (simp add: sorted_map word_le_nat_alt)

lemma columns_sorted:
  assumes bnd: "unat (base_rowid p) + Size p \<le> 2 ^ 32" and c: "c < nc"
  shows "sorted (map index (columns p nc ! c))"
proof -
  define ys where "ys = filter (\<lambda>(i, e). unat (index e) = c) (row_entries p)"
  have col: "columns p nc ! c = map (\<lambda>(i, e). transpose_entry p i e) ys"
    using c by (simp add: columns_def ys_def)
  have idx: "unat (index (transpose_entry p i e)) = unat (base_rowid p) + i" if "(i, e) \<in> set ys" for i e
  proof -
    have "i < Size p" using that by (auto simp: ys_def dest: row_entries_bound)
    then show ?thesis using bnd by (simp add: transpose_index)
  qed
  have "sorted (map fst ys)"
    unfolding ys_def using sorted_row_entries [of p] by (rule sorted_filter)
  then have "sorted (map (\<lambda>(i, e). unat (base_rowid p) + i) ys)"
    by (simp add: sorted_map case_prod_unfold)
  also have "map (\<lambda>(i, e). unat (base_rowid p) + i) ys = map (\<lambda>x. unat (index x)) (columns p nc ! c)"
    using idx by (auto simp: col)
  finally show ?thesis by (simp add: sorted_map_unat)
qed

subsection \<open>Properties of the transpose\<close>

text \<open>
  C12. On a well-formed page and with a positive thread count, \<open>GetTranspose(num_columns,
  n_threads)\<close> is its specification: when every column index is below \<open>num_columns\<close>, the
  page whose row \<open>c\<close> lists, in row order, \<open>Entry(base_rowid + i, value)\<close> for every
  entry of column \<open>c\<close> in row \<open>i\<close>; otherwise the \<open>CHECK_EQ\<close> on the offset size fails.
\<close>

theorem GetTranspose_refines:
  assumes "wf_page p"
  shows "GetTranspose p nc nt = transpose_spec p nc nt"
  by (rule GetTranspose_push_spec [OF assms])

text \<open>The spec's example: the row \<open>[(0, 1.0), (2, 2.0)]\<close> transposed with
  \<open>num_columns = 3\<close> gives the rows \<open>[(0, 1.0)]\<close>, \<open>[]\<close>, \<open>[(0, 2.0)]\<close>.\<close>

theorem GetTranspose_refines_witness:
  "GetTranspose \<lparr>offset = [0, 2], data = [Entry 0 (Fin 1), Entry 2 (Fin 2)], base_rowid = 0\<rparr> 3 2 =
   Inr \<lparr>offset = [0, 1, 1, 2], data = [Entry 0 (Fin 1), Entry 0 (Fin 2)], base_rowid = 0\<rparr>"
proof -
  have "wf_page \<lparr>offset = [0, 2], data = [Entry 0 (Fin 1), Entry 2 (Fin 2)], base_rowid = 0\<rparr>"
    by (simp add: wf_page_def)
  then have "GetTranspose \<lparr>offset = [0, 2], data = [Entry 0 (Fin 1), Entry 2 (Fin 2)], base_rowid = 0\<rparr> 3 2 =
      transpose_spec \<lparr>offset = [0, 2], data = [Entry 0 (Fin 1), Entry 2 (Fin 2)], base_rowid = 0\<rparr> 3 2"
    by (rule GetTranspose_refines)
  then show ?thesis by code_simp
qed

text \<open>
  C13. Transposing twice restores the page's multiset of \<open>(row, column, value)\<close>
  triples, and both transposes succeed: on a well-formed page with \<open>base_rowid = 0\<close>, at
  most \<open>2^32\<close> rows, and every column index below \<open>num_columns\<close>.
\<close>

theorem GetTranspose_roundtrip:
  assumes wf: "wf_page p" and base: "base_rowid p = 0" and sz: "Size p \<le> 2 ^ 32"
    and cols: "\<forall>e \<in> set (data p). unat (index e) < nc" and nt: "0 < nt"
  shows "\<exists>T1 T2. GetTranspose p nc nt = Inr T1 \<and> GetTranspose T1 (Size p) nt = Inr T2 \<and>
           mset (triples T2) = mset (triples p)"
proof -
  define T1 where "T1 = page_of_rows (columns p nc)"
  define T2 where "T2 = page_of_rows (columns T1 (Size p))"
  have r1: "GetTranspose p nc nt = Inr T1"
    using GetTranspose_push_spec [OF wf] cols nt by (auto simp: transpose_spec_def T1_def list_ex_iff not_le)
  have wf1: "wf_page T1" by (simp add: T1_def wf_page_page_of_rows)
  have base1: "base_rowid T1 = 0" by (simp add: T1_def page_of_rows_def)
  have rows0: "\<forall>(i, e) \<in> set (row_entries p). i < 2 ^ 32"
    using sz by (auto dest: row_entries_bound)
  have rows1: "\<forall>(c, e) \<in> set (row_entries T1). c < 2 ^ 32"
  proof (clarify)
    fix c e assume "(c, e) \<in> set (row_entries T1)"
    then obtain e' :: entry where "unat (index e') = c"
      using row_entries_columns [of c e p nc] unfolding T1_def by blast
    moreover have "unat (index e') < 2 ^ LENGTH(32)" by (rule unsigned_less)
    ultimately show "c < 2 ^ 32" by simp
  qed
  have cols1: "\<forall>e \<in> set (data T1). unat (index e) < Size p"
  proof
    fix e assume "e \<in> set (data T1)"
    then obtain i e' where ie: "(i, e') \<in> set (row_entries p)" and e: "e = transpose_entry p i e'"
      using data_columns [of e p nc] by (auto simp: T1_def)
    from ie have "i < Size p" by (rule row_entries_bound)
    with sz e base show "unat (index e) < Size p" by (simp add: unat_index_transpose_entry)
  qed
  have r2: "GetTranspose T1 (Size p) nt = Inr T2"
    using GetTranspose_push_spec [OF wf1] cols1 nt by (auto simp: transpose_spec_def T2_def list_ex_iff not_le)
  have "mset (triples T2) = image_mset (\<lambda>(i, c, v). (c, i, v)) (mset (triples T1))"
    unfolding T2_def by (rule triples_columns [OF wf1 base1 rows1 cols1])
  also have "mset (triples T1) = image_mset (\<lambda>(i, c, v). (c, i, v)) (mset (triples p))"
    unfolding T1_def by (rule triples_columns [OF wf base rows0 cols])
  finally have "mset (triples T2) = mset (triples p)"
    by (simp add: multiset.map_comp comp_def case_prod_unfold)
  with r1 r2 show ?thesis by blast
qed

theorem GetTranspose_roundtrip_witness:
  "\<exists>T1 T2. GetTranspose \<lparr>offset = [0, 2, 3], data = [Entry 0 (Fin 1), Entry 2 (Fin 2), Entry 1 (Fin 3)], base_rowid = 0\<rparr> 3 2 = Inr T1 \<and>
     GetTranspose T1 (Size \<lparr>offset = [0, 2, 3], data = [Entry 0 (Fin 1), Entry 2 (Fin 2), Entry 1 (Fin 3)], base_rowid = 0\<rparr>) 2 = Inr T2 \<and>
     mset (triples T2) = mset (triples \<lparr>offset = [0, 2, 3], data = [Entry 0 (Fin 1), Entry 2 (Fin 2), Entry 1 (Fin 3)], base_rowid = 0\<rparr>)"
  by (rule GetTranspose_roundtrip) (simp_all add: wf_page_def Size_def)

text \<open>
  C14. The rows of a transposed page are sorted by index, so \<open>IsIndicesSorted\<close> holds
  without a \<open>SortIndices\<close> pass, whenever the source's global row ids
  \<open>base_rowid .. base_rowid + Size() - 1\<close> fit in 32 bits.
\<close>

theorem GetTranspose_sorted:
  assumes wf: "wf_page p" and bnd: "unat (base_rowid p) + Size p \<le> 2 ^ 32"
    and run: "GetTranspose p nc nt = Inr T"
  shows "wf_page T \<and> IsIndicesSorted n T"
proof -
  have T: "T = page_of_rows (columns p nc)"
    using run GetTranspose_push_spec [OF wf] by (simp add: transpose_spec_def split: if_splits)
  have "is_sorted_by CmpIndex (row_view T c)" if "c < Size T" for c
    using that columns_sorted [OF bnd, of c nc]
    by (simp add: T columns_def row_view_page_of_rows is_sorted_by_CmpIndex)
  then show ?thesis by (simp add: IsIndicesSorted_all T wf_page_page_of_rows)
qed

theorem GetTranspose_sorted_witness:
  "wf_page \<lparr>offset = [0, 1, 2], data = [Entry 0 (Fin 1), Entry 0 (Fin 2)], base_rowid = 7\<rparr> \<and>
   IsIndicesSorted 2 \<lparr>offset = [0, 2], data = [Entry 7 (Fin 1), Entry 8 (Fin 2)], base_rowid = 0\<rparr>"
proof -
  have run: "GetTranspose \<lparr>offset = [0, 1, 2], data = [Entry 0 (Fin 1), Entry 0 (Fin 2)], base_rowid = 7\<rparr> 1 2 =
      Inr \<lparr>offset = [0, 2], data = [Entry 7 (Fin 1), Entry 8 (Fin 2)], base_rowid = 0\<rparr>"
    by code_simp
  have wf: "wf_page \<lparr>offset = [0, 1, 2], data = [Entry 0 (Fin 1), Entry 0 (Fin 2)], base_rowid = 7\<rparr>"
    by (simp add: wf_page_def)
  have "unat (base_rowid \<lparr>offset = [0, 1, 2], data = [Entry 0 (Fin 1), Entry 0 (Fin 2)], base_rowid = 7\<rparr>) +
      Size \<lparr>offset = [0, 1, 2], data = [Entry 0 (Fin 1), Entry 0 (Fin 2)], base_rowid = 7\<rparr> \<le> 2 ^ 32"
    by (simp add: Size_def)
  from GetTranspose_sorted [OF wf this run] show ?thesis using wf by simp
qed

text \<open>
  The transposed index is the 32-bit truncation of \<open>base_rowid + i\<close>: for a page
  whose rows cross \<open>2^32\<close>, the column of two rows holds the indices \<open>2^32 - 1\<close> and
  \<open>0\<close>, out of row order.
\<close>

theorem GetTranspose_index_wraps:
  "GetTranspose \<lparr>offset = [0, 1, 2], data = [Entry 0 (Fin 1), Entry 0 (Fin 2)], base_rowid = 4294967295\<rparr> 1 1 =
   Inr \<lparr>offset = [0, 2], data = [Entry 4294967295 (Fin 1), Entry 0 (Fin 2)], base_rowid = 0\<rparr>"
  by code_simp

text \<open>
  A transposed page's indices are global row ids: for a page with \<open>base_rowid = 1\<close>,
  transposing the transpose with \<open>Size()\<close> columns fails the offset-size check.
\<close>

theorem GetTranspose_twice_base_rowid:
  "GetTranspose \<lparr>offset = [0, 1], data = [Entry 0 (Fin 1)], base_rowid = 1\<rparr> 1 1 =
     Inr \<lparr>offset = [0, 1], data = [Entry 1 (Fin 1)], base_rowid = 0\<rparr> \<and>
   GetTranspose \<lparr>offset = [0, 1], data = [Entry 1 (Fin 1)], base_rowid = 0\<rparr>
     (Size \<lparr>offset = [0, 1], data = [Entry 0 (Fin 1)], base_rowid = 1\<rparr>) 1 = Inl OffsetSizeMismatch"
  by code_simp

text \<open>
  A page without entries transposes to \<open>num_columns\<close> empty rows:
  \<open>num_columns + 1\<close> offsets, all zero.
\<close>

theorem GetTranspose_empty:
  assumes "wf_page p" and "data p = []" and "0 < nt"
  shows "GetTranspose p nc nt = Inr \<lparr>offset = replicate (nc + 1) 0, data = [], base_rowid = 0\<rparr>"
proof -
  have "row_entries p = []" using set_row_entries [OF assms(1)] assms(2) by auto
  then show ?thesis
    using GetTranspose_push_spec [OF assms(1)] assms
    by (simp add: transpose_spec_def page_of_rows_def columns_def map_replicate_const del: upt_Suc)
qed

theorem GetTranspose_empty_witness:
  "GetTranspose \<lparr>offset = [0, 0, 0], data = [], base_rowid = 0\<rparr> 3 2 =
   Inr \<lparr>offset = [0, 0, 0, 0], data = [], base_rowid = 0\<rparr>"
  using GetTranspose_empty [of "\<lparr>offset = [0, 0, 0], data = [], base_rowid = 0\<rparr>" 2 3]
  by (simp add: wf_page_def numeral_eq_Suc)

end
