(* ===== verification/Push_CSC.thy ===== *)
theory Push_CSC
  imports Sparse_Page
begin

text \<open>
  \<open>SparsePage::PushCSC(batch)\<close> of \<open>src/src/data/data.cc\<close>: the merge of two column-major
  pages, each of whose rows is a column of the matrix. The merged row \<open>i\<close> is this page's
  row \<open>i\<close> followed by the batch's row \<open>i\<close>, copied with \<open>std::memcpy\<close> into a buffer
  of the combined size. A copy that would read or write outside its vector is undefined
  behaviour in the code; the model returns it as the error \<open>MemoryFault\<close>, next to the
  \<open>CHECK\<close> failures.
\<close>

datatype csc_error = OffsetCountMismatch | BegPastEnd | PtrOutOfRange | MemoryFault

text \<open>\<open>std::memcpy(dst + dst_beg, src + src_beg, sizeof(Entry) * len)\<close>.\<close>

definition memcpy_entries ::
  "nat \<Rightarrow> entry list \<Rightarrow> nat \<Rightarrow> nat \<Rightarrow> entry list \<Rightarrow> csc_error + entry list" where
  "memcpy_entries dst_beg src src_beg len dst =
     (if src_beg + len \<le> length src \<and> dst_beg + len \<le> length dst
      then Inr (take dst_beg dst @ slice src_beg (src_beg + len) src @ drop (dst_beg + len) dst)
      else Inl MemoryFault)"

type_synonym csc_state = "entry list \<times> nat list \<times> nat \<times> nat"

text \<open>One iteration of the loop over the features: copy this page's slice of feature
  \<open>i\<close>, then the batch's, and record the running end in \<open>offset.at(ptr)\<close>.\<close>

definition pushcsc_step ::
  "nat list \<Rightarrow> entry list \<Rightarrow> nat list \<Rightarrow> entry list \<Rightarrow> nat \<Rightarrow> csc_state \<Rightarrow> csc_error + csc_state" where
  "pushcsc_step self_offset self_data other_offset other_data i s =
     (case s of (buf, offs, beg, ptr) \<Rightarrow>
       let self_beg = self_offset ! i;
           self_length = self_offset ! (i + 1) - self_beg
       in if \<not> beg \<le> length buf then Inl BegPastEnd
          else case memcpy_entries beg self_data self_beg self_length buf of
            Inl err \<Rightarrow> Inl err
          | Inr buf1 \<Rightarrow>
              let beg1 = beg + self_length;
                  other_beg = other_offset ! i;
                  other_length = other_offset ! (i + 1) - other_beg
              in if \<not> beg1 \<le> length buf1 then Inl BegPastEnd
                 else case memcpy_entries beg1 other_data other_beg other_length buf1 of
                   Inl err \<Rightarrow> Inl err
                 | Inr buf2 \<Rightarrow>
                     let beg2 = beg1 + other_length
                     in if \<not> ptr < length offs then Inl PtrOutOfRange
                        else Inr (buf2, offs[ptr := beg2], beg2, ptr + 1))"

text \<open>\<open>PushCSC(batch)\<close>: an empty batch hands its offsets to this page; a non-empty batch
  must have as many offsets as this page unless this page is empty, in which case it is
  replaced by the batch; otherwise the features are merged one by one.\<close>

definition PushCSC :: "sparse_page \<Rightarrow> sparse_page \<Rightarrow> csc_error + sparse_page" where
  "PushCSC p batch =
     (let self_data = data p; self_offset = offset p;
          other_data = data batch; other_offset = offset batch
      in if other_data = [] then Inr (p\<lparr>offset := other_offset\<rparr>)
         else if self_data \<noteq> [] \<and> length self_offset \<noteq> length other_offset then Inl OffsetCountMismatch
         else if self_data = [] then Inr (p\<lparr>data := other_data, offset := other_offset\<rparr>)
         else
           let offs0 = replicate (length other_offset) 0;
               buf0 = replicate (length self_data + length other_data) entry0;
               n_features = length other_offset - 1
           in case fold_err (pushcsc_step self_offset self_data other_offset other_data) [0..<n_features]
                     (buf0, offs0, 0, 1) of
                Inl err \<Rightarrow> Inl err
              | Inr (buf, offs, beg, ptr) \<Rightarrow> Inr (p\<lparr>data := buf, offset := offs\<rparr>))"

declare memcpy_entries_def [model_defs] pushcsc_step_def [model_defs] PushCSC_def [model_defs]

subsection \<open>What the merge promises\<close>

text \<open>Row \<open>i\<close> of the merge is row \<open>i\<close> of this page followed by row \<open>i\<close> of the batch; the
  degenerate cases are as the code has them.\<close>

definition merged_rows :: "sparse_page \<Rightarrow> sparse_page \<Rightarrow> entry list list" where
  "merged_rows p b = map (\<lambda>i. row_view p i @ row_view b i) [0..<Size b]"

definition csc_spec :: "sparse_page \<Rightarrow> sparse_page \<Rightarrow> csc_error + sparse_page" where
  "csc_spec p b =
     (if data b = [] then Inr (p\<lparr>offset := offset b\<rparr>)
      else if data p = [] then Inr (p\<lparr>data := data b, offset := offset b\<rparr>)
      else if Size p \<noteq> Size b then Inl OffsetCountMismatch
      else Inr ((page_of_rows (merged_rows p b))\<lparr>base_rowid := base_rowid p\<rparr>))"

declare merged_rows_def [model_defs] csc_spec_def [model_defs]

text \<open>The loop state after \<open>k\<close> features of a merge into the rows \<open>M\<close>: the merged
  prefix, then the value-initialised rest of the buffer; the offsets of the prefix, then
  zeros; the running end; the next offset slot (a proof device of the loop lemma).\<close>

definition csc_inv :: "entry list list \<Rightarrow> nat \<Rightarrow> nat \<Rightarrow> csc_state" where
  "csc_inv M tot k =
     (concat (take k M) @ replicate (tot - length (concat (take k M))) entry0,
      take (Suc k) (offset (page_of_rows M)) @ replicate (length M - k) 0,
      length (concat (take k M)), Suc k)"


subsection \<open>The merge loop\<close>

lemma memcpy_entries_fill:
  assumes "length X = beg" and "sb + len \<le> length src" and "len \<le> r"
  shows "memcpy_entries beg src sb len (X @ replicate r d) =
           Inr (X @ slice sb (sb + len) src @ replicate (r - len) d)"
  using assms by (simp add: memcpy_entries_def)

lemma length_concat_take_Suc:
  "k < length M \<Longrightarrow> length (concat (take (Suc k) M)) = length (concat (take k M)) + length (M ! k)"
  by (simp add: take_Suc_conv_app_nth)

lemma length_concat_take_le: "length (concat (take k M)) \<le> length (concat M)"
  by (metis append_take_drop_id concat_append le_add1 length_append)

lemma pushcsc_step_inv:
  assumes wf: "wf_page p" and wfb: "wf_page b" and sz: "Size p = Size b" and k: "k < Size b"
  defines "M \<equiv> merged_rows p b"
  shows "pushcsc_step (offset p) (data p) (offset b) (data b) k (csc_inv M (length (concat M)) k) =
           Inr (csc_inv M (length (concat M)) (Suc k))"
proof -
  define X where "X = concat (take k M)"
  define tot where "tot = length (concat M)"
  have lM: "length M = Size b" by (simp add: M_def merged_rows_def)
  have Mk: "M ! k = row_view p k @ row_view b k" using k by (simp add: M_def merged_rows_def)
  note Op = wf_page_offsets [OF wf] and Ob = wf_page_offsets [OF wfb]
  have lp: "length (row_view p k) = offset p ! (k + 1) - offset p ! k"
    using length_row_view [OF wf] k sz by simp
  have lb: "length (row_view b k) = offset b ! (k + 1) - offset b ! k"
    using length_row_view [OF wfb] k by simp
  have sp: "offset p ! k + (offset p ! (k + 1) - offset p ! k) \<le> length (data p)"
    using Op(3) Op(4) [of "Suc k" "Size p"] Op(4) [of k "Suc k"] k sz by simp
  have sb: "offset b ! k + (offset b ! (k + 1) - offset b ! k) \<le> length (data b)"
    using Ob(3) Ob(4) [of "Suc k" "Size b"] Ob(4) [of k "Suc k"] k by simp
  have LSuc: "length (concat (take (Suc k) M)) = length X + length (row_view p k) + length (row_view b k)"
    using length_concat_take_Suc [of k M] k lM Mk by (simp add: X_def)
  have room: "length X + length (row_view p k) + length (row_view b k) \<le> tot"
    using LSuc length_concat_take_le [of "Suc k" M] by (simp add: tot_def)
  have rp: "row_view p k = slice (offset p ! k) (offset p ! k + (offset p ! (k + 1) - offset p ! k)) (data p)"
    using Op(4) [of k "Suc k"] k sz by (simp add: row_view_def)
  have rb: "row_view b k = slice (offset b ! k) (offset b ! k + (offset b ! (k + 1) - offset b ! k)) (data b)"
    using Ob(4) [of k "Suc k"] k by (simp add: row_view_def)
  have m1: "memcpy_entries (length X) (data p) (offset p ! k) (offset p ! (k + 1) - offset p ! k)
              (X @ replicate (tot - length X) entry0) =
            Inr (X @ row_view p k @ replicate (tot - length X - length (row_view p k)) entry0)"
    using memcpy_entries_fill [OF refl sp, of "tot - length X" X entry0] room lp rp by simp
  have m2: "memcpy_entries (length X + length (row_view p k)) (data b) (offset b ! k) (offset b ! (k + 1) - offset b ! k)
              ((X @ row_view p k) @ replicate (tot - length X - length (row_view p k)) entry0) =
            Inr ((X @ row_view p k) @ row_view b k @
                 replicate (tot - length X - length (row_view p k) - length (row_view b k)) entry0)"
    using memcpy_entries_fill [OF _ sb, of "X @ row_view p k" _ "tot - length X - length (row_view p k)" entry0]
      room lb rb by simp
  have OM: "offset (page_of_rows M) ! Suc k = length (concat (take (Suc k) M))"
    using k lM by (simp add: offset_page_of_rows)
  have offs: "(take (Suc k) (offset (page_of_rows M)) @ replicate (length M - k) 0)[Suc k := length (concat (take (Suc k) M))] =
      take (Suc (Suc k)) (offset (page_of_rows M)) @ replicate (length M - Suc k) 0"
  proof -
    have lt: "Suc k < length (offset (page_of_rows M))" using k lM by (simp add: page_of_rows_def)
    have "length M - k = Suc (length M - Suc k)" using k lM by simp
    then have "replicate (length M - k) (0::nat) = 0 # replicate (length M - Suc k) 0" by simp
    moreover have "length (take (Suc k) (offset (page_of_rows M))) = Suc k" using lt by simp
    ultimately show ?thesis
      using lt OM by (simp add: list_update_append take_Suc_conv_app_nth)
  qed
  have ptr: "Suc k < length (take (Suc k) (offset (page_of_rows M)) @ replicate (length M - k) (0::nat))"
    using k lM by (simp add: page_of_rows_def)
  have lp': "offset p ! Suc k - offset p ! k = length (row_view p k)" using lp by simp
  have lb': "offset b ! Suc k - offset b ! k = length (row_view b k)" using lb by simp
  show ?thesis
    using m1 m2 offs ptr room LSuc
    by (simp add: lp' lb' pushcsc_step_def csc_inv_def X_def [symmetric] tot_def [symmetric] Let_def
        algebra_simps take_Suc_conv_app_nth [of k M] k lM Mk)
qed

lemma pushcsc_loop:
  assumes wf: "wf_page p" and wfb: "wf_page b" and sz: "Size p = Size b" and k: "k \<le> Size b"
  shows "fold_err (pushcsc_step (offset p) (data p) (offset b) (data b)) [0..<k]
           (csc_inv (merged_rows p b) (length (concat (merged_rows p b))) 0) =
         Inr (csc_inv (merged_rows p b) (length (concat (merged_rows p b))) k)"
  using k
proof (induction k)
  case (Suc k)
  then show ?case
    using pushcsc_step_inv [OF wf wfb sz, of k] by (simp add: fold_err_snoc)
qed simp

lemma length_concat_merged:
  assumes "wf_page p" and "wf_page b" and "Size p = Size b"
  shows "length (concat (merged_rows p b)) = length (data p) + length (data b)"
proof -
  have "length (concat (map (\<lambda>i. f i @ g i) xs)) = length (concat (map f xs)) + length (concat (map g xs))"
    for f g :: "nat \<Rightarrow> entry list" and xs
    by (induction xs) auto
  then show ?thesis
    using data_concat_rows [OF assms(1)] data_concat_rows [OF assms(2)] assms(3)
    by (simp add: merged_rows_def rows_def)
qed

lemma PushCSC_push_spec:
  assumes wf: "wf_page p" and wfb: "wf_page b"
  shows "PushCSC p b = csc_spec p b"
proof -
  note Op = wf_page_offsets [OF wf] and Ob = wf_page_offsets [OF wfb]
  consider "data b = []" | "data b \<noteq> []" "data p = []" | "data b \<noteq> []" "data p \<noteq> []" "Size p \<noteq> Size b"
    | "data b \<noteq> []" "data p \<noteq> []" "Size p = Size b" by blast
  then show ?thesis
  proof cases
    case 4
    define M where "M = merged_rows p b"
    have lM: "length M = Size b" by (simp add: M_def merged_rows_def)
    have init: "csc_inv M (length (concat M)) 0 =
        (replicate (length (data p) + length (data b)) entry0, replicate (length (offset b)) 0, 0, 1)"
      using length_concat_merged [OF wf wfb 4(3)] Ob(2) lM
      by (simp add: csc_inv_def M_def page_of_rows_def map_upt_Suc del: upt_Suc)
    have fin: "csc_inv M (length (concat M)) (Size b) =
        (concat M, offset (page_of_rows M), length (concat M), Suc (Size b))"
      using lM by (simp add: csc_inv_def page_of_rows_def)
    have "PushCSC p b = Inr (p\<lparr>data := concat M, offset := offset (page_of_rows M)\<rparr>)"
      using 4 pushcsc_loop [OF wf wfb 4(3) order_refl] init fin Op(2) Ob(2)
      by (simp add: PushCSC_def Let_def M_def)
    then show ?thesis using 4 by (simp add: csc_spec_def M_def page_of_rows_def)
  qed (use Op(2) Ob(2) in \<open>auto simp: PushCSC_def csc_spec_def\<close>)
qed

subsection \<open>Properties of the merge\<close>

text \<open>
  C18. On two well-formed pages, \<open>PushCSC\<close> is its specification: an empty batch gives
  this page the batch's offsets, an empty page takes the batch, pages with different
  numbers of rows fail \<open>CHECK_EQ\<close>, and otherwise row \<open>i\<close> of the result is this page's
  row \<open>i\<close> followed by the batch's row \<open>i\<close>; no copy leaves its vector.
\<close>

theorem PushCSC_refines:
  assumes "wf_page p" and "wf_page b"
  shows "PushCSC p b = csc_spec p b"
  by (rule PushCSC_push_spec [OF assms])

text \<open>The spec's example: \<open>A\<close> with columns \<open>[(r0, 1.0)]\<close>, \<open>[]\<close> merged with \<open>B\<close> with
  columns \<open>[]\<close>, \<open>[(r1, 2.0)]\<close> gives the columns \<open>[(r0, 1.0)]\<close>, \<open>[(r1, 2.0)]\<close>.\<close>

theorem PushCSC_refines_witness:
  "PushCSC \<lparr>offset = [0, 1, 1], data = [Entry 0 (Fin 1)], base_rowid = 0\<rparr>
           \<lparr>offset = [0, 0, 1], data = [Entry 1 (Fin 2)], base_rowid = 0\<rparr> =
   Inr \<lparr>offset = [0, 1, 2], data = [Entry 0 (Fin 1), Entry 1 (Fin 2)], base_rowid = 0\<rparr>"
proof -
  have "wf_page \<lparr>offset = [0, 1, 1], data = [Entry 0 (Fin 1)], base_rowid = 0\<rparr>"
    and "wf_page \<lparr>offset = [0, 0, 1], data = [Entry 1 (Fin 2)], base_rowid = 0\<rparr>"
    by (simp_all add: wf_page_def)
  then have "PushCSC \<lparr>offset = [0, 1, 1], data = [Entry 0 (Fin 1)], base_rowid = 0\<rparr>
           \<lparr>offset = [0, 0, 1], data = [Entry 1 (Fin 2)], base_rowid = 0\<rparr> =
      csc_spec \<lparr>offset = [0, 1, 1], data = [Entry 0 (Fin 1)], base_rowid = 0\<rparr>
           \<lparr>offset = [0, 0, 1], data = [Entry 1 (Fin 2)], base_rowid = 0\<rparr>"
    by (rule PushCSC_refines)
  then show ?thesis by code_simp
qed

text \<open>
  C19. Merging two non-empty well-formed pages with the same number of columns keeps the
  page invariant and \<open>base_rowid\<close>, interleaves the pages column by column, and keeps
  every entry of both: the merged entries are the union of the two multisets.
\<close>

theorem PushCSC_merges:
  assumes wf: "wf_page p" and wfb: "wf_page b" and sz: "Size p = Size b"
    and ne: "data p \<noteq> []" "data b \<noteq> []"
  shows "\<exists>q. PushCSC p b = Inr q \<and> wf_page q \<and> rows q = merged_rows p b \<and>
             base_rowid q = base_rowid p \<and> mset (data q) = mset (data p) + mset (data b)"
proof -
  define q where "q = (page_of_rows (merged_rows p b))\<lparr>base_rowid := base_rowid p\<rparr>"
  have run: "PushCSC p b = Inr q"
    using PushCSC_push_spec [OF wf wfb] sz ne by (simp add: csc_spec_def q_def)
  have wq: "wf_page q" using wf_page_page_of_rows [of "merged_rows p b"] by (simp add: q_def wf_page_def)
  have "rows q = rows (page_of_rows (merged_rows p b))" by (simp add: q_def rows_def row_view_def Size_def)
  then have rq: "rows q = merged_rows p b" by (simp add: rows_page_of_rows)
  have "mset (concat (map (\<lambda>i. f i @ g i) xs)) = mset (concat (map f xs)) + mset (concat (map g xs))"
    for f g :: "nat \<Rightarrow> entry list" and xs
    by (induction xs) (auto simp: ac_simps)
  then have "mset (data q) = mset (data p) + mset (data b)"
    using data_concat_rows [OF wf] data_concat_rows [OF wfb] sz
    by (simp add: q_def page_of_rows_def merged_rows_def rows_def)
  with run wq rq show ?thesis by (auto simp: q_def)
qed

theorem PushCSC_merges_witness:
  "\<exists>q. PushCSC \<lparr>offset = [0, 1, 2], data = [Entry 0 (Fin 1), Entry 1 (Fin 2)], base_rowid = 0\<rparr>
           \<lparr>offset = [0, 1, 1], data = [Entry 2 (Fin 3)], base_rowid = 0\<rparr> = Inr q \<and> wf_page q \<and>
     rows q = merged_rows \<lparr>offset = [0, 1, 2], data = [Entry 0 (Fin 1), Entry 1 (Fin 2)], base_rowid = 0\<rparr>
           \<lparr>offset = [0, 1, 1], data = [Entry 2 (Fin 3)], base_rowid = 0\<rparr> \<and>
     base_rowid q = 0 \<and>
     mset (data q) = mset [Entry 0 (Fin 1), Entry 1 (Fin 2)] + mset [Entry 2 (Fin 3)]"
  using PushCSC_merges [of "\<lparr>offset = [0, 1, 2], data = [Entry 0 (Fin 1), Entry 1 (Fin 2)], base_rowid = 0\<rparr>"
      "\<lparr>offset = [0, 1, 1], data = [Entry 2 (Fin 3)], base_rowid = 0\<rparr>"]
  by (simp add: wf_page_def Size_def)

text \<open>
  Merging an empty batch replaces this page's offsets by the batch's, whatever this
  page holds: a page with one entry merged with an empty batch of the same shape is no
  longer well-formed (its last offset is 0, its data has one entry).
\<close>

theorem PushCSC_empty_batch:
  "wf_page \<lparr>offset = [0, 1, 1], data = [Entry 0 (Fin 1)], base_rowid = 0\<rparr> \<and>
   wf_page \<lparr>offset = [0, 0, 0], data = [], base_rowid = 0\<rparr> \<and>
   PushCSC \<lparr>offset = [0, 1, 1], data = [Entry 0 (Fin 1)], base_rowid = 0\<rparr>
           \<lparr>offset = [0, 0, 0], data = [], base_rowid = 0\<rparr> =
     Inr \<lparr>offset = [0, 0, 0], data = [Entry 0 (Fin 1)], base_rowid = 0\<rparr> \<and>
   \<not> wf_page \<lparr>offset = [0, 0, 0], data = [Entry 0 (Fin 1)], base_rowid = 0\<rparr>"
  by (simp add: PushCSC_def wf_page_def)

end
