(* ===== verification/Meta_Format.thy ===== *)
theory Meta_Format
  imports Entry
begin

text \<open>
  The field format of the binary \<open>MetaInfo\<close> file, the helpers \<open>SaveScalarField\<close>,
  \<open>SaveVectorField\<close>, \<open>SaveTensorField\<close>, \<open>LoadScalarField\<close>, \<open>LoadVectorField\<close> and
  \<open>LoadTensorField\<close> of \<open>src/src/data/data.cc\<close>. A \<open>dmlc::Stream\<close> is modelled as the
  sequence of the values written to it, one token per \<open>Write\<close>: the byte encoding of
  each value belongs to dmlc-core and is not part of the repository. A \<open>Read\<close> takes the
  next token; it fails, as \<open>Read\<close> returning \<open>false\<close> does, at the end of the stream or on
  a token of another kind. A failed \<open>CHECK\<close> of a loader is the error \<open>InvalidField\<close>
  with the expected field name, the prefix of all its messages.
\<close>

datatype datum =
    DRaw string
  | DStr string
  | DU8 "8 word"
  | DBool bool
  | DI32 int
  | DU64 "64 word"
  | DF32s "f32 list"
  | DU32s "32 word list"
  | DStrs "string list"
  | DChars "char list"
  | DU64s "64 word list"
  | DEntries "entry list"

type_synonym stream = "datum list"

text \<open>\<open>enum class DataType : uint8_t\<close> of \<open>include/xgboost/data.h\<close>.\<close>

datatype data_type = kFloat32 | kDouble | kUInt32 | kUInt64 | kStr

fun data_type_code :: "data_type \<Rightarrow> 8 word" where
  "data_type_code kFloat32 = 1"
| "data_type_code kDouble = 2"
| "data_type_code kUInt32 = 3"
| "data_type_code kUInt64 = 4"
| "data_type_code kStr = 5"

datatype meta_error =
    InvalidField string
  | BadVersionFormat
  | BadVersion
  | InvalidNumField
  | InsufficientFields
  | WrongFieldCount
  | BadFeatureType

text \<open>Reading one token of a given kind.\<close>

definition read_tok :: "(datum \<Rightarrow> 'a option) \<Rightarrow> stream \<Rightarrow> ('a \<times> stream) option" where
  "read_tok f s = (case s of [] \<Rightarrow> None | d # s' \<Rightarrow> map_option (\<lambda>x. (x, s')) (f d))"

fun as_str :: "datum \<Rightarrow> string option" where
  "as_str (DStr x) = Some x" | "as_str _ = None"
fun as_u8 :: "datum \<Rightarrow> 8 word option" where
  "as_u8 (DU8 x) = Some x" | "as_u8 _ = None"
fun as_bool :: "datum \<Rightarrow> bool option" where
  "as_bool (DBool x) = Some x" | "as_bool _ = None"
fun as_u64 :: "datum \<Rightarrow> 64 word option" where
  "as_u64 (DU64 x) = Some x" | "as_u64 _ = None"
fun as_i32 :: "datum \<Rightarrow> int option" where
  "as_i32 (DI32 x) = Some x" | "as_i32 _ = None"
fun as_f32s :: "datum \<Rightarrow> f32 list option" where
  "as_f32s (DF32s x) = Some x" | "as_f32s _ = None"
fun as_u32s :: "datum \<Rightarrow> 32 word list option" where
  "as_u32s (DU32s x) = Some x" | "as_u32s _ = None"
fun as_strs :: "datum \<Rightarrow> string list option" where
  "as_strs (DStrs x) = Some x" | "as_strs _ = None"
fun as_chars :: "datum \<Rightarrow> char list option" where
  "as_chars (DChars x) = Some x" | "as_chars _ = None"
fun as_u64s :: "datum \<Rightarrow> 64 word list option" where
  "as_u64s (DU64s x) = Some x" | "as_u64s _ = None"
fun as_entries :: "datum \<Rightarrow> entry list option" where
  "as_entries (DEntries x) = Some x" | "as_entries _ = None"

text \<open>A \<open>CHECK(strm->Read(&x))\<close>: the value read, or the loader's error.\<close>

definition check_read ::
  "string \<Rightarrow> (datum \<Rightarrow> 'a option) \<Rightarrow> stream \<Rightarrow> meta_error + ('a \<times> stream)" where
  "check_read name f s = (case read_tok f s of None \<Rightarrow> Inl (InvalidField name) | Some r \<Rightarrow> Inr r)"

text \<open>The common head of every field: its name, its \<open>DataType\<close> and the \<open>is_scalar\<close> flag.\<close>

definition save_head :: "string \<Rightarrow> data_type \<Rightarrow> bool \<Rightarrow> stream" where
  "save_head name type is_scalar = [DStr name, DU8 (data_type_code type), DBool is_scalar]"

definition SaveScalarField :: "string \<Rightarrow> data_type \<Rightarrow> 64 word \<Rightarrow> stream" where
  "SaveScalarField name type field = save_head name type True @ [DU64 field]"

definition SaveVectorField :: "string \<Rightarrow> data_type \<Rightarrow> 64 word \<times> 64 word \<Rightarrow> datum \<Rightarrow> stream" where
  "SaveVectorField name type shape field =
     save_head name type False @ [DU64 (fst shape), DU64 (snd shape), field]"

definition SaveTensorField :: "string \<Rightarrow> data_type \<Rightarrow> 64 word list \<Rightarrow> datum \<Rightarrow> stream" where
  "SaveTensorField name type shape field = save_head name type False @ map DU64 shape @ [field]"

text \<open>Reading the head back: \<open>CHECK_EQ(name, expected_name)\<close>, \<open>CHECK(type ==
  expected_type)\<close> and the check of \<open>is_scalar\<close> against what the loader expects.\<close>

definition load_head :: "string \<Rightarrow> data_type \<Rightarrow> bool \<Rightarrow> stream \<Rightarrow> meta_error + stream" where
  "load_head expected_name expected_type scalar s =
     (case check_read expected_name as_str s of
        Inl e \<Rightarrow> Inl e
      | Inr (name, s1) \<Rightarrow>
          if name \<noteq> expected_name then Inl (InvalidField expected_name)
          else case check_read expected_name as_u8 s1 of
            Inl e \<Rightarrow> Inl e
          | Inr (type_val, s2) \<Rightarrow>
              if type_val \<noteq> data_type_code expected_type then Inl (InvalidField expected_name)
              else case check_read expected_name as_bool s2 of
                Inl e \<Rightarrow> Inl e
              | Inr (is_scalar, s3) \<Rightarrow>
                  if is_scalar \<noteq> scalar then Inl (InvalidField expected_name) else Inr s3)"

definition LoadScalarField ::
  "string \<Rightarrow> data_type \<Rightarrow> stream \<Rightarrow> meta_error + (64 word \<times> stream)" where
  "LoadScalarField expected_name expected_type s =
     (case load_head expected_name expected_type True s of
        Inl e \<Rightarrow> Inl e
      | Inr s3 \<Rightarrow> check_read expected_name as_u64 s3)"

text \<open>\<open>LoadVectorField\<close> reads the shape and requires one column
  (\<open>CHECK_EQ(shape.second, 1)\<close>) before the vector, read by \<open>as_field\<close>.\<close>

definition LoadVectorField ::
  "string \<Rightarrow> data_type \<Rightarrow> (datum \<Rightarrow> 'a option) \<Rightarrow> stream \<Rightarrow> meta_error + ('a \<times> stream)" where
  "LoadVectorField expected_name expected_type as_field s =
     (case load_head expected_name expected_type False s of
        Inl e \<Rightarrow> Inl e
      | Inr s3 \<Rightarrow>
          (case check_read expected_name as_u64 s3 of
             Inl e \<Rightarrow> Inl e
           | Inr (rows, s4) \<Rightarrow>
               (case check_read expected_name as_u64 s4 of
                  Inl e \<Rightarrow> Inl e
                | Inr (cols, s5) \<Rightarrow>
                    if cols \<noteq> 1 then Inl (InvalidField expected_name)
                    else check_read expected_name as_field s5)))"

text \<open>\<open>D\<close> shape entries, in order.\<close>

fun read_shape :: "string \<Rightarrow> nat \<Rightarrow> stream \<Rightarrow> meta_error + (64 word list \<times> stream)" where
  "read_shape name 0 s = Inr ([], s)"
| "read_shape name (Suc d) s =
     (case check_read name as_u64 s of
        Inl e \<Rightarrow> Inl e
      | Inr (x, s1) \<Rightarrow> (case read_shape name d s1 of
          Inl e \<Rightarrow> Inl e
        | Inr (xs, s2) \<Rightarrow> Inr (x # xs, s2)))"

text \<open>\<open>LoadTensorField\<close>: the \<open>D\<close> shape entries, \<open>Reshape(shape)\<close>, then the data vector,
  which replaces the reshaped storage whatever its length.\<close>

definition LoadTensorField ::
  "string \<Rightarrow> data_type \<Rightarrow> nat \<Rightarrow> (datum \<Rightarrow> 'a option) \<Rightarrow> stream \<Rightarrow>
     meta_error + ((64 word list \<times> 'a) \<times> stream)" where
  "LoadTensorField expected_name expected_type D as_field s =
     (case load_head expected_name expected_type False s of
        Inl e \<Rightarrow> Inl e
      | Inr s3 \<Rightarrow>
          (case read_shape expected_name D s3 of
             Inl e \<Rightarrow> Inl e
           | Inr (shape, s4) \<Rightarrow>
               (case check_read expected_name as_field s4 of
                  Inl e \<Rightarrow> Inl e
                | Inr (field, s5) \<Rightarrow> Inr ((shape, field), s5))))"

declare read_tok_def [model_defs] check_read_def [model_defs] save_head_def [model_defs]
  SaveScalarField_def [model_defs] SaveVectorField_def [model_defs] SaveTensorField_def [model_defs]
  load_head_def [model_defs] LoadScalarField_def [model_defs] LoadVectorField_def [model_defs]
  LoadTensorField_def [model_defs]

subsection \<open>Reading back what was written\<close>

lemma check_read_Cons [simp]:
  "f d = Some x \<Longrightarrow> check_read name f (d # s) = Inr (x, s)"
  by (simp add: check_read_def read_tok_def)

lemma load_head_save_head [simp]:
  "load_head name type scalar (save_head name type scalar @ s) = Inr s"
  by (simp add: load_head_def save_head_def)

lemma read_shape_map [simp]:
  "read_shape name (length shape) (map DU64 shape @ s) = Inr (shape, s)"
  by (induction shape) auto

lemma LoadScalarField_SaveScalarField [simp]:
  "LoadScalarField name type (SaveScalarField name type x @ s) = Inr (x, s)"
  by (simp add: LoadScalarField_def SaveScalarField_def)

lemma LoadVectorField_SaveVectorField [simp]:
  "f d = Some v \<Longrightarrow> LoadVectorField name type f (SaveVectorField name type (k, 1) d @ s) = Inr (v, s)"
  by (simp add: LoadVectorField_def SaveVectorField_def)

lemma LoadTensorField_SaveTensorField [simp]:
  "length shape = D \<Longrightarrow> f d = Some v \<Longrightarrow>
   LoadTensorField name type D f (SaveTensorField name type shape d @ s) = Inr ((shape, v), s)"
  using read_shape_map [of name shape "d # s"] by (simp add: LoadTensorField_def SaveTensorField_def)

text \<open>A field whose head differs from what the loader expects is rejected.\<close>

lemma load_head_mismatch:
  "(name', type', sc') \<noteq> (name, type, sc) \<Longrightarrow>
   load_head name type sc (save_head name' type' sc' @ s) = Inl (InvalidField name)"
proof -
  have "data_type_code type' = data_type_code type \<longleftrightarrow> type' = type"
    by (cases type; cases type') simp_all
  then show "(name', type', sc') \<noteq> (name, type, sc) \<Longrightarrow> ?thesis"
    by (auto simp add: load_head_def save_head_def)
qed

lemma read_shape_length:
  "read_shape name d s = Inr (xs, s') \<Longrightarrow> length xs = d"
  by (induction name d s arbitrary: xs s' rule: read_shape.induct)
     (auto split: sum.splits prod.splits)

end
