(* ===== verification/Meta_Info.thy ===== *)
theory Meta_Info
  imports Meta_Format "HOL-Library.Sublist"
begin

text \<open>
  The binary serialization of \<open>MetaInfo\<close> (\<open>src/src/data/data.cc\<close>): the fields the
  binary file carries as a record, \<open>MetaInfo::Clear\<close>, \<open>MetaInfo::SaveBinary\<close>, the
  helper \<open>LoadFeatureType\<close> and \<open>MetaInfo::LoadBinary\<close>, over the token stream of
  \<open>Meta_Format\<close>. The header \<open>Version::Save\<close>/\<open>Version::Load\<close> (\<open>src/common/version.cc\<close>,
  outside the sources staged here) is modelled from its role: the tag \<open>version:\<close> and the
  three components of the version. The categories container is kept as its JSON dump,
  the character vector the file carries.
\<close>

datatype feature_type = kNumerical | kCategorical

text \<open>A \<open>linalg::Tensor<float, 2>\<close>: its shape and its host data.\<close>

record tensor =
  tshape :: "64 word list"
  tdata :: "f32 list"

record meta_info =
  num_row :: "64 word"
  num_col :: "64 word"
  num_nonzero :: "64 word"
  labels :: tensor
  group_ptr :: "32 word list"
  weights :: "f32 list"
  base_margin :: tensor
  labels_lower_bound :: "f32 list"
  labels_upper_bound :: "f32 list"
  feature_names :: "string list"
  feature_type_names :: "string list"
  feature_types :: "feature_type list"
  feature_weights :: "f32 list"
  has_categorical :: bool
  cats :: "char list"

type_synonym version = "int \<times> int \<times> int"

definition Version_Save :: "version \<Rightarrow> stream" where
  "Version_Save v = (case v of (major, minor, patch) \<Rightarrow>
     [DRaw ''version:'', DI32 major, DI32 minor, DI32 patch])"

definition Version_Load :: "stream \<Rightarrow> meta_error + (version \<times> stream)" where
  "Version_Load s =
     (case s of
        DRaw r # s1 \<Rightarrow>
          if r \<noteq> ''version:'' then Inl BadVersionFormat
          else (case s1 of
                  DI32 major # DI32 minor # DI32 patch # s2 \<Rightarrow> Inr ((major, minor, patch), s2)
                | _ \<Rightarrow> Inl BadVersionFormat)
      | _ \<Rightarrow> Inl BadVersionFormat)"

text \<open>\<open>MetaInfo::kNumField\<close>.\<close>

definition kNumField :: "64 word" where
  "kNumField = 13"

text \<open>A default-constructed \<open>Tensor<float, 2>\<close>.\<close>

definition empty_tensor :: tensor where
  "empty_tensor = \<lparr>tshape = [0, 0], tdata = []\<rparr>"

text \<open>\<open>MetaInfo::Clear\<close> resets the counts, the labels, the groups, the weights and the base
  margin, and nothing else.\<close>

definition Clear :: "meta_info \<Rightarrow> meta_info" where
  "Clear m = m\<lparr>num_row := 0, num_col := 0, num_nonzero := 0, labels := empty_tensor,
     group_ptr := [], weights := [], base_margin := empty_tensor\<rparr>"

text \<open>The fields \<open>SaveBinary\<close> writes, in its order, one stream segment per \<open>++field_cnt\<close>.\<close>

definition save_fields :: "meta_info \<Rightarrow> stream list" where
  "save_fields m =
     [SaveScalarField ''num_row'' kUInt64 (num_row m),
      SaveScalarField ''num_col'' kUInt64 (num_col m),
      SaveScalarField ''num_nonzero'' kUInt64 (num_nonzero m),
      SaveTensorField ''labels'' kFloat32 (tshape (labels m)) (DF32s (tdata (labels m))),
      SaveVectorField ''group_ptr'' kUInt32 (of_nat (length (group_ptr m)), 1) (DU32s (group_ptr m)),
      SaveVectorField ''weights'' kFloat32 (of_nat (length (weights m)), 1) (DF32s (weights m)),
      SaveTensorField ''base_margin'' kFloat32 (tshape (base_margin m)) (DF32s (tdata (base_margin m))),
      SaveVectorField ''labels_lower_bound'' kFloat32 (of_nat (length (labels_lower_bound m)), 1)
        (DF32s (labels_lower_bound m)),
      SaveVectorField ''labels_upper_bound'' kFloat32 (of_nat (length (labels_upper_bound m)), 1)
        (DF32s (labels_upper_bound m)),
      SaveVectorField ''feature_names'' kStr (of_nat (length (feature_names m)), 1)
        (DStrs (feature_names m)),
      SaveVectorField ''feature_types'' kStr (of_nat (length (feature_type_names m)), 1)
        (DStrs (feature_type_names m)),
      SaveVectorField ''feature_weights'' kFloat32 (of_nat (length (feature_weights m)), 1)
        (DF32s (feature_weights m)),
      SaveVectorField ''cats'' kStr (of_nat (length (cats m)), 1) (DChars (cats m))]"

text \<open>\<open>SaveBinary\<close>: the version, \<open>kNumField\<close>, the fields, and the final
  \<open>CHECK_EQ(field_cnt, kNumField)\<close>.\<close>

definition SaveBinary :: "version \<Rightarrow> meta_info \<Rightarrow> meta_error + stream" where
  "SaveBinary self m =
     (let fields = save_fields m in
      if of_nat (length fields) \<noteq> kNumField then Inl WrongFieldCount
      else Inr (Version_Save self @ [DU64 kNumField] @ concat fields))"

text \<open>One iteration of the loop of \<open>LoadFeatureType\<close>; \<open>LOG(FATAL)\<close> is the error.\<close>

definition feature_type_step ::
  "string \<Rightarrow> feature_type list \<times> bool \<Rightarrow> meta_error + (feature_type list \<times> bool)" where
  "feature_type_step elem acc = (case acc of (types, has_cat) \<Rightarrow>
     if elem = ''int'' then Inr (types @ [kNumerical], has_cat)
     else if elem = ''float'' then Inr (types @ [kNumerical], has_cat)
     else if elem = ''i'' then Inr (types @ [kNumerical], has_cat)
     else if elem = ''q'' then Inr (types @ [kNumerical], has_cat)
     else if elem = ''c'' then Inr (types @ [kCategorical], True)
     else Inl BadFeatureType)"

definition LoadFeatureType :: "string list \<Rightarrow> meta_error + (feature_type list \<times> bool)" where
  "LoadFeatureType type_names = fold_err feature_type_step type_names ([], False)"

text \<open>The thirteen loads of \<open>LoadBinary\<close>, in the order of the file, with the call to
  \<open>LoadFeatureType\<close> between \<open>feature_weights\<close> and \<open>cats\<close>.\<close>

definition load_fields :: "meta_info \<Rightarrow> stream \<Rightarrow> meta_error + (meta_info \<times> stream)" where
  "load_fields m s =
     err_bind (LoadScalarField ''num_row'' kUInt64 s) (\<lambda>(nrow, sa).
     err_bind (LoadScalarField ''num_col'' kUInt64 sa) (\<lambda>(ncol, sb).
     err_bind (LoadScalarField ''num_nonzero'' kUInt64 sb) (\<lambda>(nnz, sc).
     err_bind (LoadTensorField ''labels'' kFloat32 2 as_f32s sc) (\<lambda>((lsh, ldat), sd).
     err_bind (LoadVectorField ''group_ptr'' kUInt32 as_u32s sd) (\<lambda>(gptr, se).
     err_bind (LoadVectorField ''weights'' kFloat32 as_f32s se) (\<lambda>(wts, sf).
     err_bind (LoadTensorField ''base_margin'' kFloat32 2 as_f32s sf) (\<lambda>((bsh, bdat), sg).
     err_bind (LoadVectorField ''labels_lower_bound'' kFloat32 as_f32s sg) (\<lambda>(lower, sh).
     err_bind (LoadVectorField ''labels_upper_bound'' kFloat32 as_f32s sh) (\<lambda>(upper, si).
     err_bind (LoadVectorField ''feature_names'' kStr as_strs si) (\<lambda>(fnames, sj).
     err_bind (LoadVectorField ''feature_types'' kStr as_strs sj) (\<lambda>(ftnames, sk).
     err_bind (LoadVectorField ''feature_weights'' kFloat32 as_f32s sk) (\<lambda>(fwts, sl).
     err_bind (LoadFeatureType ftnames) (\<lambda>(ftypes, has_cat).
     err_bind (LoadVectorField ''cats'' kStr as_chars sl) (\<lambda>(values, sm).
       Inr (m\<lparr>num_row := nrow, num_col := ncol, num_nonzero := nnz,
              labels := \<lparr>tshape = lsh, tdata = ldat\<rparr>, group_ptr := gptr, weights := wts,
              base_margin := \<lparr>tshape = bsh, tdata = bdat\<rparr>,
              labels_lower_bound := lower, labels_upper_bound := upper,
              feature_names := fnames, feature_type_names := ftnames, feature_types := ftypes,
              feature_weights := fwts, has_categorical := has_cat, cats := values\<rparr>, sm)))))))))))))))"

text \<open>\<open>LoadBinary\<close>: the version checks \<open>CHECK_GE(major, 3)\<close> and \<open>CHECK_GE(minor, 1)\<close>, the
  number of fields and its check against \<open>expected\<close>, then the fields. A file with extra
  fields is accepted (with a warning) and the extra fields are left unread.\<close>

definition LoadBinary :: "meta_info \<Rightarrow> stream \<Rightarrow> meta_error + (meta_info \<times> stream)" where
  "LoadBinary m s =
     err_bind (Version_Load s) (\<lambda>((major, minor, patch), s1).
       if major < 3 then Inl BadVersion
       else if minor < 1 then Inl BadVersion
       else (case read_tok as_u64 s1 of
               None \<Rightarrow> Inl InvalidNumField
             | Some (num_field, s2) \<Rightarrow>
                 (let expected = (if major = 1 \<and> minor < 2 then unat kNumField - 2
                                  else unat kNumField) in
                  if unat num_field < expected then Inl InsufficientFields
                  else load_fields m s2)))"

text \<open>The well-formedness of a \<open>MetaInfo\<close> as the file format sees it: both tensors are
  two-dimensional and the feature types are those \<open>LoadFeatureType\<close> derives from the
  type names.\<close>

definition wf_meta :: "meta_info \<Rightarrow> bool" where
  "wf_meta m \<longleftrightarrow> length (tshape (labels m)) = 2 \<and> length (tshape (base_margin m)) = 2 \<and>
     LoadFeatureType (feature_type_names m) = Inr (feature_types m, has_categorical m)"

text \<open>The specification of \<open>LoadFeatureType\<close> on one name.\<close>

fun feature_type_of :: "string \<Rightarrow> feature_type option" where
  "feature_type_of n = (if n = ''int'' \<or> n = ''float'' \<or> n = ''i'' \<or> n = ''q'' then Some kNumerical
     else if n = ''c'' then Some kCategorical else None)"

text \<open>A MetaInfo with two rows, labels, groups and a categorical feature.\<close>

definition meta_example :: meta_info where
  "meta_example = \<lparr>num_row = 2, num_col = 3, num_nonzero = 4,
     labels = \<lparr>tshape = [2, 1], tdata = [Fin 1, Fin 0]\<rparr>, group_ptr = [0, 2], weights = [],
     base_margin = empty_tensor, labels_lower_bound = [], labels_upper_bound = [],
     feature_names = [''a'', ''b'', ''c''], feature_type_names = [''q'', ''c'', ''int''],
     feature_types = [kNumerical, kCategorical, kNumerical], feature_weights = [],
     has_categorical = True, cats = ''{}''\<rparr>"

declare Version_Save_def [model_defs] Version_Load_def [model_defs] kNumField_def [model_defs]
  empty_tensor_def [model_defs] Clear_def [model_defs] save_fields_def [model_defs]
  SaveBinary_def [model_defs] feature_type_step_def [model_defs] LoadFeatureType_def [model_defs]
  load_fields_def [model_defs] LoadBinary_def [model_defs]

subsection \<open>Round trip and errors\<close>


lemma Version_Load_Save [simp]: "Version_Load (Version_Save v @ s) = Inr (v, s)"
  by (cases v) (simp add: Version_Load_def Version_Save_def)

lemma SaveBinary_eq: "SaveBinary self m = Inr (Version_Save self @ [DU64 kNumField] @ concat (save_fields m))"
  by (simp add: SaveBinary_def save_fields_def kNumField_def)

lemma load_fields_save_fields:
  assumes "wf_meta m"
  shows "load_fields m0 (concat (save_fields m) @ s) = Inr (m, s)"
  using assms by (simp add: load_fields_def save_fields_def wf_meta_def)

lemma fold_feature_type_step:
  "fold_err feature_type_step names (acc, hc) =
     (case those (map feature_type_of names) of None \<Rightarrow> Inl BadFeatureType
      | Some ts \<Rightarrow> Inr (acc @ ts, hc \<or> kCategorical \<in> set ts))"
  by (induction names arbitrary: acc hc) (auto simp: feature_type_step_def split: option.splits)

lemma suffix_Cons_self [simp]: "suffix s (x # s)"
  by (simp add: suffix_def)

lemma check_read_suffix: "check_read n f s = Inr (x, s') \<Longrightarrow> suffix s' s"
  by (auto simp: check_read_def read_tok_def split: list.splits option.splits)

lemma load_head_suffix: "load_head n t sc s = Inr s' \<Longrightarrow> suffix s' s"
  by (auto simp: load_head_def split: sum.splits prod.splits if_splits
           dest!: check_read_suffix intro: suffix_order.trans)

lemma read_shape_suffix: "read_shape n d s = Inr (xs, s') \<Longrightarrow> suffix s' s"
proof (induction d arbitrary: s xs)
  case (Suc d)
  then obtain x s1 xs' where "check_read n as_u64 s = Inr (x, s1)" "read_shape n d s1 = Inr (xs', s')"
    by (auto split: sum.splits prod.splits)
  with Suc.IH show ?case
    by (blast dest: check_read_suffix intro: suffix_order.trans)
qed simp

lemma LoadScalarField_suffix: "LoadScalarField n t s = Inr (x, s') \<Longrightarrow> suffix s' s"
  by (auto simp: LoadScalarField_def split: sum.splits
           dest!: check_read_suffix load_head_suffix intro: suffix_order.trans)

lemma LoadVectorField_suffix: "LoadVectorField n t f s = Inr (x, s') \<Longrightarrow> suffix s' s"
  by (auto simp: LoadVectorField_def split: sum.splits prod.splits if_splits
           dest!: check_read_suffix load_head_suffix intro: suffix_order.trans)

lemma LoadTensorField_result:
  "LoadTensorField n t d f s = Inr ((sh, x), s') \<Longrightarrow> length sh = d \<and> suffix s' s"
  by (auto simp: LoadTensorField_def split: sum.splits prod.splits
           dest!: check_read_suffix load_head_suffix dest: read_shape_suffix read_shape_length
           intro: suffix_order.trans)

lemma load_fields_result:
  "load_fields m s = Inr (m', s') \<Longrightarrow> wf_meta m' \<and> suffix s' s"
  unfolding load_fields_def wf_meta_def
  by (auto simp: err_bind_eq_Inr split: prod.splits
           dest!: LoadScalarField_suffix LoadVectorField_suffix LoadTensorField_result
           intro: suffix_order.trans)

lemma LoadBinary_header:
  "3 \<le> major \<Longrightarrow> 1 \<le> minor \<Longrightarrow>
   LoadBinary m (Version_Save (major, minor, patch) @ DU64 n # s) =
     (if unat n < unat kNumField then Inl InsufficientFields else load_fields m s)"
  by (simp add: LoadBinary_def Version_Save_def Version_Load_def read_tok_def)

lemma LoadBinary_saved_stream:
  "3 \<le> major \<Longrightarrow> 1 \<le> minor \<Longrightarrow> wf_meta m \<Longrightarrow>
   LoadBinary m0 (Version_Save (major, minor, patch) @ [DU64 kNumField] @ concat (save_fields m) @ rest) =
     Inr (m, rest)"
  using LoadBinary_header [of major minor m0 patch kNumField "concat (save_fields m) @ rest"]
  by (simp add: load_fields_save_fields)

text \<open>C21: a MetaInfo written by \<open>SaveBinary\<close> with a supported version and read back by \<open>LoadBinary\<close> is the MetaInfo that was written, and the rest of the stream is left unread; \<open>SaveBinary\<close> never fails.\<close>

theorem LoadBinary_SaveBinary:
  assumes "3 \<le> fst self" and "1 \<le> fst (snd self)" and "wf_meta m"
  shows "\<exists>s. SaveBinary self m = Inr s \<and> LoadBinary m0 (s @ rest) = Inr (m, rest)"
proof -
  obtain major minor patch where v: "self = (major, minor, patch)" by (cases self) auto
  show ?thesis
    using assms LoadBinary_saved_stream [of major minor m m0 patch rest]
    by (simp add: v SaveBinary_eq)
qed

lemma wf_meta_example: "wf_meta meta_example"
  by (simp add: wf_meta_def meta_example_def empty_tensor_def LoadFeatureType_def feature_type_step_def)

theorem LoadBinary_SaveBinary_witness:
  "3 \<le> fst (3::int, 1::int, 0::int) \<and> 1 \<le> fst (snd (3::int, 1::int, 0::int)) \<and> wf_meta meta_example \<and>
   (\<exists>s. SaveBinary (3, 1, 0) meta_example = Inr s \<and>
        LoadBinary (Clear meta_example) (s @ []) = Inr (meta_example, []))"
  using wf_meta_example LoadBinary_SaveBinary [of "(3, 1, 0)" meta_example "Clear meta_example" "[]"]
  by simp

text \<open>C23: \<open>LoadFeatureType\<close> maps \<open>int\<close>, \<open>float\<close>, \<open>i\<close>, \<open>q\<close> to numerical and \<open>c\<close> to categorical, reports a categorical feature exactly when one is present, and fails on any other name.\<close>

theorem LoadFeatureType_iff:
  "LoadFeatureType names =
     (case those (map feature_type_of names) of
        None \<Rightarrow> Inl BadFeatureType
      | Some ts \<Rightarrow> Inr (ts, kCategorical \<in> set ts))"
  by (simp add: LoadFeatureType_def fold_feature_type_step split: option.split)

lemma LoadBinary_Inr:
  assumes "LoadBinary m s = Inr r"
  shows "\<exists>v d s2. Version_Load s = Inr (v, d # s2) \<and> load_fields m s2 = Inr r"
proof (cases "Version_Load s")
  case (Inl e)
  then show ?thesis using assms by (simp add: LoadBinary_def)
next
  case (Inr vs)
  obtain major minor patch s1 where vs: "vs = ((major, minor, patch), s1)" by (cases vs) auto
  show ?thesis
  proof (cases s1)
    case Nil
    then show ?thesis using assms Inr vs by (simp add: LoadBinary_def read_tok_def split: if_splits)
  next
    case (Cons d s2)
    then show ?thesis using assms Inr vs
      by (auto simp add: LoadBinary_def read_tok_def Let_def split: if_splits option.splits)
  qed
qed

lemma Version_Load_suffix: "Version_Load s = Inr (v, s1) \<Longrightarrow> suffix s1 s"
  by (auto simp: Version_Load_def suffix_def split: list.splits datum.splits if_splits)

text \<open>C22: whatever \<open>LoadBinary\<close> accepts yields a well-formed MetaInfo (two-dimensional label and base-margin tensors, feature types derived from the type names) and consumes a prefix of the stream.\<close>

theorem LoadBinary_wf:
  "LoadBinary m s = Inr (m', s') \<Longrightarrow> wf_meta m' \<and> suffix s' s"
  by (blast dest: LoadBinary_Inr Version_Load_suffix load_fields_result suffix_ConsD
            intro: suffix_order.trans)

theorem LoadBinary_wf_witness:
  "LoadBinary (Clear meta_example) (Version_Save (3, 1, 0) @ [DU64 kNumField] @
      concat (save_fields meta_example) @ []) = Inr (meta_example, []) \<and>
   wf_meta meta_example \<and>
   suffix [] (Version_Save (3, 1, 0) @ [DU64 kNumField] @ concat (save_fields meta_example) @ [])"
proof -
  have ld: "LoadBinary (Clear meta_example) (Version_Save (3, 1, 0) @ [DU64 kNumField] @
      concat (save_fields meta_example) @ []) = Inr (meta_example, [])"
    using LoadBinary_saved_stream [of 3 1 meta_example "Clear meta_example" 0 "[]"] wf_meta_example
    by simp
  show ?thesis using ld LoadBinary_wf [OF ld] by blast
qed

text \<open>C24: a file whose major version is below 3 or whose minor version is below 1 is rejected, whatever its major version; a 4.0 file is rejected too.\<close>

theorem LoadBinary_rejects_version:
  "major < 3 \<or> minor < 1 \<Longrightarrow> LoadBinary m (Version_Save (major, minor, patch) @ s) = Inl BadVersion"
  by (auto simp add: LoadBinary_def Version_Save_def Version_Load_def)

theorem LoadBinary_rejects_version_witness:
  "((4::int) < 3 \<or> (0::int) < 1) \<and>
   LoadBinary meta_example (Version_Save (4, 0, 0) @ []) = Inl BadVersion"
  using LoadBinary_rejects_version [of 4 0 meta_example 0 "[]"] by simp

text \<open>C25: every version \<open>LoadBinary\<close> accepts must carry all \<open>kNumField\<close> fields: the relaxed count of the \<open>major == 1 && minor < 2\<close> branch is never used.\<close>

theorem LoadBinary_requires_all_fields:
  "3 \<le> major \<Longrightarrow> 1 \<le> minor \<Longrightarrow> unat n < unat kNumField \<Longrightarrow>
   LoadBinary m (Version_Save (major, minor, patch) @ DU64 n # s) = Inl InsufficientFields"
  by (simp add: LoadBinary_header)

theorem LoadBinary_requires_all_fields_witness:
  "3 \<le> (3::int) \<and> 1 \<le> (1::int) \<and> unat (11::64 word) < unat kNumField \<and>
   LoadBinary meta_example (Version_Save (3, 1, 0) @ DU64 11 # []) = Inl InsufficientFields"
  using LoadBinary_requires_all_fields [of 3 1 11 meta_example 0 "[]"] by (simp add: kNumField_def)

text \<open>A vector field whose name, type or scalar flag differs from what the loader expects is rejected with the loader's error.\<close>

theorem LoadVectorField_rejects_head:
  "(name', type', sc) \<noteq> (name, type, False) \<Longrightarrow>
   LoadVectorField name type f (save_head name' type' sc @ s) = Inl (InvalidField name)"
  by (simp add: LoadVectorField_def load_head_mismatch)

theorem LoadVectorField_rejects_head_witness:
  "(''weights'', kFloat32, True) \<noteq> (''weights'', kFloat32, False) \<and>
   LoadVectorField ''weights'' kFloat32 as_f32s (SaveScalarField ''weights'' kFloat32 7) =
     Inl (InvalidField ''weights'')"
  using LoadVectorField_rejects_head [of "''weights''" kFloat32 True "''weights''" kFloat32 as_f32s "[DU64 7]"]
  by (simp add: SaveScalarField_def)

text \<open>\<open>LoadTensorField\<close> accepts a tensor whose shape does not match the length of its data.\<close>

theorem LoadTensorField_unchecked_shape:
  "LoadTensorField ''labels'' kFloat32 2 as_f32s (SaveTensorField ''labels'' kFloat32 [2, 1] (DF32s [])) =
     Inr (([2, 1], []), []) \<and> prod_list (map unat [2, 1 :: 64 word]) \<noteq> length ([] :: f32 list)"
  using LoadTensorField_SaveTensorField [of "[2, 1]" 2 as_f32s "DF32s []" "[]" "''labels''" kFloat32 "[]"]
  by simp

text \<open>\<open>Clear\<close> preserves the well-formedness of a MetaInfo.\<close>

theorem Clear_wf:
  "wf_meta m \<Longrightarrow> wf_meta (Clear m)"
  by (simp add: wf_meta_def Clear_def empty_tensor_def)

theorem Clear_wf_witness:
  "wf_meta meta_example \<and> wf_meta (Clear meta_example)"
  using wf_meta_example Clear_wf [OF wf_meta_example] by simp

text \<open>\<open>SaveBinary\<close> always succeeds: its \<open>CHECK_EQ(field_cnt, kNumField)\<close> holds, and it writes the version and \<open>kNumField\<close> = 13 first.\<close>

theorem SaveBinary_total:
  "\<exists>s. SaveBinary self m = Inr s \<and> take 5 s = Version_Save self @ [DU64 13]"
  by (cases self) (simp add: SaveBinary_eq Version_Save_def kNumField_def)

end
