(* ===== verification/Meta_Ops.thy ===== *)
theory Meta_Ops
  imports Meta_Info
begin

text \<open>
  The operations on a whole \<open>MetaInfo\<close> of \<open>src/src/data/data.cc\<close> other than its
  serialization: the row gather \<open>Gather\<close> and \<open>MetaInfo::Slice\<close> (host path),
  \<open>MetaInfo::Extend\<close> and \<open>MetaInfo::Copy\<close>, and \<open>MetaInfo::Validate\<close>. Two helpers
  declared outside \<open>src/\<close> are modelled from their contracts: \<open>linalg::Stack\<close> (append along
  the first axis, adopting the other axes where they are still 0) and
  \<open>data::CheckFeatureTypes\<close> (equal feature types). Device placement is not modelled: every
  vector is on the host, so \<open>CheckDevice\<close> always passes. A read out of bounds, undefined
  behaviour in the code, is the error \<open>GatherOutOfRange\<close>; a remainder by a zero row
  count is the error \<open>DivisionByZero\<close>.
\<close>

datatype info_error =
    GatherOutOfRange
  | BaseMarginSize
  | DivisionByZero
  | ColumnMismatch
  | StackShapeMismatch
  | EmptyGroupPtr
  | FeatureTypeMismatch
  | InfoFault meta_error
  | GroupWeight
  | GroupSize
  | WeightSize
  | LabelSize
  | LowerBoundSize
  | FeatureWeightSize
  | UpperBoundSize
  | NonzeroExceeds

text \<open>A default-constructed \<open>MetaInfo\<close>; its categories container is empty.\<close>

definition meta_default :: meta_info where
  "meta_default = \<lparr>num_row = 0, num_col = 0, num_nonzero = 0, labels = empty_tensor,
     group_ptr = [], weights = [], base_margin = empty_tensor, labels_lower_bound = [],
     labels_upper_bound = [], feature_names = [], feature_type_names = [], feature_types = [],
     feature_weights = [], has_categorical = False, cats = []\<rparr>"

text \<open>\<open>Gather(in, ridxs, stride)\<close>: \<open>out[i * stride + j] = in[ridx * stride + j]\<close>, the index
  computed in \<open>size_t\<close>; an empty input gives an empty output without reading.\<close>

definition gather_read :: "'a list \<Rightarrow> 64 word \<Rightarrow> nat \<Rightarrow> nat \<Rightarrow> 'a option" where
  "gather_read inp ridx stride j =
     (let k = unat (ridx * of_nat stride + of_nat j) in
      if k < length inp then Some (inp ! k) else None)"

definition Gather :: "'a list \<Rightarrow> 64 word list \<Rightarrow> nat \<Rightarrow> 'a list option" where
  "Gather inp ridxs stride =
     (if inp = [] then Some []
      else those (concat (map (\<lambda>ridx. map (gather_read inp ridx stride) [0..<stride]) ridxs)))"

definition gather_err :: "'a list \<Rightarrow> 64 word list \<Rightarrow> nat \<Rightarrow> info_error + 'a list" where
  "gather_err inp ridxs stride =
     (case Gather inp ridxs stride of None \<Rightarrow> Inl GatherOutOfRange | Some out \<Rightarrow> Inr out)"

text \<open>\<open>t.Size()\<close> of a tensor, in \<open>size_t\<close>.\<close>

definition tsize :: "tensor \<Rightarrow> 64 word" where
  "tsize t = of_nat (length (tdata t))"

text \<open>The rows of a labels or base-margin tensor picked by \<open>ridxs\<close>: a matrix keeps its
  columns (\<open>Stride(0)\<close> of a row-major matrix is its column count), a vector becomes a
  column of the gathered length.\<close>

definition slice_tensor :: "tensor \<Rightarrow> 64 word \<Rightarrow> 64 word list \<Rightarrow> info_error + tensor" where
  "slice_tensor t nrow ridxs =
     (if tsize t \<noteq> nrow then
        err_bind (gather_err (tdata t) ridxs (unat (tshape t ! 1))) (\<lambda>out.
          Inr \<lparr>tshape = [of_nat (length ridxs), tshape t ! 1], tdata = out\<rparr>)
      else
        err_bind (gather_err (tdata t) ridxs 1) (\<lambda>out.
          Inr \<lparr>tshape = [of_nat (length out), 1], tdata = out\<rparr>))"

text \<open>\<open>MetaInfo::Slice\<close> on the host: shape and feature information are copied, the
  per-row information is gathered. The base margin of a matrix is first checked to be a
  multiple of the row count.\<close>

definition Slice :: "meta_info \<Rightarrow> 64 word list \<Rightarrow> 64 word \<Rightarrow> info_error + meta_info" where
  "Slice m ridxs nnz =
     (let out = meta_default\<lparr>num_row := of_nat (length ridxs), num_col := num_col m,
                  num_nonzero := nnz, feature_weights := feature_weights m,
                  feature_names := feature_names m, feature_types := feature_types m,
                  feature_type_names := feature_type_names m\<rparr> in
      err_bind (slice_tensor (labels m) (num_row m) ridxs) (\<lambda>lab.
      err_bind (gather_err (labels_upper_bound m) ridxs 1) (\<lambda>upper.
      err_bind (gather_err (labels_lower_bound m) ridxs 1) (\<lambda>lower.
      err_bind (if of_nat (length (weights m)) + 1 = (of_nat (length (group_ptr m)) :: 64 word)
                then Inr (weights out) else gather_err (weights m) ridxs 1) (\<lambda>wts.
      err_bind (if tsize (base_margin m) \<noteq> num_row m \<and> num_row m = 0 then Inl DivisionByZero
                else if tsize (base_margin m) \<noteq> num_row m \<and> tsize (base_margin m) mod num_row m \<noteq> 0
                then Inl BaseMarginSize
                else slice_tensor (base_margin m) (num_row m) ridxs) (\<lambda>margin.
        Inr (out\<lparr>labels := lab, labels_upper_bound := upper, labels_lower_bound := lower,
                 weights := wts, base_margin := margin\<rparr>)))))))"

text \<open>\<open>linalg::Stack(&l, r)\<close>: nothing when \<open>r\<close> is empty; otherwise each axis after the first
  is adopted from \<open>r\<close> where \<open>l\<close> has 0 and must agree otherwise, the data are appended and
  the first axis is the sum.\<close>

definition Stack :: "tensor \<Rightarrow> tensor \<Rightarrow> info_error + tensor" where
  "Stack l r =
     (if tdata r = [] then Inr l
      else
        (let cols = (if tshape l ! 1 = 0 then tshape r ! 1 else tshape l ! 1) in
         if cols \<noteq> tshape r ! 1 then Inl StackShapeMismatch
         else Inr \<lparr>tshape = [tshape l ! 0 + tshape r ! 0, cols], tdata = tdata l @ tdata r\<rparr>))"

definition CheckFeatureTypes :: "feature_type list \<Rightarrow> feature_type list \<Rightarrow> info_error + unit" where
  "CheckFeatureTypes lhs rhs = (if lhs \<noteq> rhs then Inl FeatureTypeMismatch else Inr ())"

text \<open>The group part of \<open>Extend\<close>: the other pointers, shifted by the last pointer of
  this one, replace their leading 0.\<close>

definition extend_groups :: "32 word list \<Rightarrow> 32 word list \<Rightarrow> info_error + 32 word list" where
  "extend_groups gp that_gp =
     (if gp = [] then Inr that_gp
      else if that_gp = [] then Inl EmptyGroupPtr
      else Inr (gp @ map (\<lambda>x. x + last gp) (tl that_gp)))"

text \<open>The feature part of \<open>Extend\<close>: names, the check of the types, the types derived
  from the other's type names or copied from its types, and the feature weights.\<close>

definition extend_features :: "meta_info \<Rightarrow> meta_info \<Rightarrow> info_error + meta_info" where
  "extend_features this that =
     (let this1 = (if feature_names that \<noteq> [] then this\<lparr>feature_names := feature_names that\<rparr>
                   else this) in
      err_bind (if feature_types this1 \<noteq> [] then CheckFeatureTypes (feature_types this1) (feature_types that)
                else Inr ()) (\<lambda>_.
      err_bind (if feature_type_names that \<noteq> [] then
                  (case LoadFeatureType (feature_type_names that) of
                     Inl e \<Rightarrow> Inl (InfoFault e)
                   | Inr (ft, has_cat) \<Rightarrow>
                       Inr (this1\<lparr>feature_type_names := feature_type_names that,
                                  feature_types := ft, has_categorical := has_cat\<rparr>))
                else if feature_types that \<noteq> [] then
                  Inr (this1\<lparr>feature_types := feature_types that,
                             has_categorical := kCategorical \<in> set (feature_types that)\<rparr>)
                else Inr this1) (\<lambda>this2.
        Inr (if feature_weights that \<noteq> [] then this2\<lparr>feature_weights := feature_weights that\<rparr>
             else this2))))"

text \<open>\<open>MetaInfo::Extend(that, accumulate_rows, check_column)\<close>. The \<open>std::max\<close> of the
  column counts is stored and then overwritten by \<open>that.num_col_\<close>, as in the code.\<close>

definition Extend :: "meta_info \<Rightarrow> meta_info \<Rightarrow> bool \<Rightarrow> bool \<Rightarrow> info_error + meta_info" where
  "Extend this that accumulate_rows check_column =
     (let nrow = (if accumulate_rows then num_row this + num_row that else num_row this) in
      if num_col this \<noteq> 0 \<and> check_column \<and> num_col this \<noteq> num_col that then Inl ColumnMismatch
      else
        err_bind (Stack (labels this) (labels that)) (\<lambda>lab.
        err_bind (Stack (base_margin this) (base_margin that)) (\<lambda>margin.
        err_bind (extend_groups (group_ptr this) (group_ptr that)) (\<lambda>gp.
          extend_features
            (this\<lparr>num_row := nrow, num_col := num_col that, labels := lab,
                  weights := weights this @ weights that,
                  labels_lower_bound := labels_lower_bound this @ labels_lower_bound that,
                  labels_upper_bound := labels_upper_bound this @ labels_upper_bound that,
                  base_margin := margin, group_ptr := gp\<rparr>) that))))"

definition Copy :: "meta_info \<Rightarrow> info_error + meta_info" where
  "Copy m = Extend meta_default m True False"

text \<open>\<open>MetaInfo::Validate\<close>, with its early returns: after the first check of a non-empty
  weight, label or lower-bound vector nothing else is checked.\<close>

definition Validate :: "meta_info \<Rightarrow> info_error + unit" where
  "Validate m =
     (if group_ptr m \<noteq> [] \<and> weights m \<noteq> [] then
        (if length (group_ptr m) \<noteq> length (weights m) + 1 then Inl GroupWeight else Inr ())
      else if group_ptr m \<noteq> [] \<and> ucast (last (group_ptr m)) \<noteq> num_row m then Inl GroupSize
      else if weights m \<noteq> [] then
        (if of_nat (length (weights m)) \<noteq> num_row m then Inl WeightSize else Inr ())
      else if tdata (labels m) \<noteq> [] then
        (if tshape (labels m) ! 0 \<noteq> num_row m then Inl LabelSize else Inr ())
      else if labels_lower_bound m \<noteq> [] then
        (if of_nat (length (labels_lower_bound m)) \<noteq> num_row m then Inl LowerBoundSize else Inr ())
      else if feature_weights m \<noteq> [] \<and> of_nat (length (feature_weights m)) \<noteq> num_col m then
        Inl FeatureWeightSize
      else if labels_upper_bound m \<noteq> [] then
        (if of_nat (length (labels_upper_bound m)) \<noteq> num_row m then Inl UpperBoundSize else Inr ())
      else if \<not> num_nonzero m \<le> num_col m * num_row m then Inl NonzeroExceeds
      else if tdata (base_margin m) \<noteq> [] then
        (if num_row m = 0 then Inl DivisionByZero
         else if tsize (base_margin m) mod num_row m \<noteq> 0 then Inl BaseMarginSize else Inr ())
      else Inr ())"

text \<open>Specification side: the elements of a per-row vector picked by \<open>ridxs\<close> (none from an
  empty vector), a column vector, the slice of a tensor that is a per-row vector or empty,
  and the sizes of the groups a group pointer delimits.\<close>

definition pick :: "'a list \<Rightarrow> 64 word list \<Rightarrow> 'a list" where
  "pick xs ridxs = (if xs = [] then [] else map (\<lambda>r. xs ! unat r) ridxs)"

definition column :: "f32 list \<Rightarrow> tensor" where
  "column xs = \<lparr>tshape = [of_nat (length xs), 1], tdata = xs\<rparr>"

definition slice_col :: "tensor \<Rightarrow> 64 word \<Rightarrow> 64 word list \<Rightarrow> tensor" where
  "slice_col t n ridxs =
     (if tdata t = [] \<and> n \<noteq> 0 then \<lparr>tshape = [of_nat (length ridxs), tshape t ! 1], tdata = []\<rparr>
      else column (pick (tdata t) ridxs))"

definition group_sizes :: "32 word list \<Rightarrow> 32 word list" where
  "group_sizes p = map (\<lambda>(x, y). y - x) (zip p (tl p))"

text \<open>Example inputs.\<close>

definition slice_example :: meta_info where
  "slice_example = meta_default\<lparr>num_row := 3, num_col := 2,
     labels := \<lparr>tshape = [3, 1], tdata = [Fin 1, Fin 2, Fin 3]\<rparr>,
     group_ptr := [0, 2, 3], weights := [Fin 5, Fin 7],
     feature_type_names := [''c'', ''q''], feature_types := [kCategorical, kNumerical],
     has_categorical := True\<rparr>"

definition slice_vec :: meta_info where
  "slice_vec = meta_default\<lparr>num_row := 3, num_col := 2,
     labels := \<lparr>tshape = [3, 1], tdata = [Fin 1, Fin 2, Fin 3]\<rparr>,
     weights := [Fin 5, Fin 7, Fin 9]\<rparr>"

definition extend_left :: meta_info where
  "extend_left = meta_default\<lparr>num_row := 5, num_col := 5, group_ptr := [0, 2, 5]\<rparr>"

definition extend_right :: meta_info where
  "extend_right = meta_default\<lparr>num_row := 4, num_col := 3, group_ptr := [0, 1, 4]\<rparr>"

declare meta_default_def [model_defs] gather_read_def [model_defs] Gather_def [model_defs]
  gather_err_def [model_defs] tsize_def [model_defs] slice_tensor_def [model_defs]
  Slice_def [model_defs] Stack_def [model_defs] CheckFeatureTypes_def [model_defs]
  extend_groups_def [model_defs] extend_features_def [model_defs] Extend_def [model_defs]
  Copy_def [model_defs] Validate_def [model_defs]

subsection \<open>Slice, Extend, Copy and Validate\<close>

lemma gather_read_1:
  assumes "unat r < length inp" "length inp < 2 ^ 64"
  shows "gather_read inp r 1 0 = Some (inp ! unat r)"
  using assms by (simp add: gather_read_def)

lemma Gather_1:
  assumes "list_all (\<lambda>r. unat r < length inp) ridxs" "length inp < 2 ^ 64"
  shows "Gather inp ridxs 1 = Some (pick inp ridxs)"
proof -
  have "those (map (\<lambda>r. gather_read inp r 1 0) ridxs) = Some (map (\<lambda>r. inp ! unat r) ridxs)"
    using assms(1) by (induction ridxs) (simp_all add: gather_read_def assms(2))
  then show ?thesis by (simp add: Gather_def pick_def comp_def)
qed

lemma gather_err_1:
  "list_all (\<lambda>r. unat r < length inp) ridxs \<Longrightarrow> length inp < 2 ^ 64 \<Longrightarrow>
   gather_err inp ridxs 1 = Inr (pick inp ridxs)"
  using Gather_1 [of inp ridxs] by (simp add: gather_err_def)

lemma gather_err_rows:
  "xs = [] \<or> length xs = unat (n :: 64 word) \<Longrightarrow> list_all (\<lambda>r. unat r < unat n) ridxs \<Longrightarrow>
   gather_err xs ridxs 1 = Inr (pick xs ridxs)"
proof -
  assume len: "xs = [] \<or> length xs = unat n" and rng: "list_all (\<lambda>r. unat r < unat n) ridxs"
  have "unat n < 2 ^ LENGTH(64)" by (rule unsigned_less)
  then show ?thesis using len rng gather_err_1 [of xs ridxs]
    by (auto simp: gather_err_def Gather_def pick_def)
qed

lemma slice_tensor_column:
  "tdata t = [] \<or> length (tdata t) = unat n \<Longrightarrow> list_all (\<lambda>r. unat r < unat n) ridxs \<Longrightarrow>
   slice_tensor t n ridxs = Inr (slice_col t n ridxs)"
  using gather_err_rows [of "tdata t" n ridxs]
  by (auto simp add: slice_tensor_def tsize_def column_def slice_col_def gather_err_def Gather_def pick_def)

lemma length_pick [simp]: "xs \<noteq> [] \<Longrightarrow> length (pick xs ridxs) = length ridxs"
  by (simp add: pick_def)

text \<open>C30: on the host, when the labels and base margin are per-row vectors or empty, the weights are not per group, and every row index is below the row count, \<open>Slice\<close> succeeds and its result has the gathered rows of every per-row field, the copied shape and feature information, and nothing else.\<close>

theorem Slice_rows:
  assumes "tdata (labels m) = [] \<or> length (tdata (labels m)) = unat (num_row m)"
    and "tdata (base_margin m) = [] \<or> length (tdata (base_margin m)) = unat (num_row m)"
    and "of_nat (length (weights m)) + 1 \<noteq> (of_nat (length (group_ptr m)) :: 64 word)"
    and "list_all (\<lambda>xs. xs = [] \<or> length xs = unat (num_row m))
           [weights m, labels_lower_bound m, labels_upper_bound m]"
    and "list_all (\<lambda>r. unat r < unat (num_row m)) ridxs"
  shows "Slice m ridxs nnz =
    Inr (meta_default\<lparr>num_row := of_nat (length ridxs), num_col := num_col m, num_nonzero := nnz,
           labels := slice_col (labels m) (num_row m) ridxs, weights := pick (weights m) ridxs,
           base_margin := slice_col (base_margin m) (num_row m) ridxs,
           labels_lower_bound := pick (labels_lower_bound m) ridxs,
           labels_upper_bound := pick (labels_upper_bound m) ridxs,
           feature_names := feature_names m, feature_type_names := feature_type_names m,
           feature_types := feature_types m, feature_weights := feature_weights m\<rparr>)"
proof -
  have bm: "tsize (base_margin m) \<noteq> num_row m \<longrightarrow> num_row m \<noteq> 0 \<and> tsize (base_margin m) mod num_row m = 0"
    using assms(2) by (auto simp add: tsize_def)
  have bm0: "num_row m = 0 \<longrightarrow> tsize (base_margin m) = num_row m"
    using assms(2) by (auto simp add: tsize_def)
  show ?thesis
    using assms bm slice_tensor_column [OF assms(1) assms(5)] slice_tensor_column [OF assms(2) assms(5)]
      gather_err_rows [OF _ assms(5), of "weights m"]
      gather_err_rows [OF _ assms(5), of "labels_lower_bound m"]
      gather_err_rows [OF _ assms(5), of "labels_upper_bound m"]
    by (simp add: Slice_def) (use bm bm0 in blast)
qed

lemma Slice_Inr:
  assumes "Slice m ridxs nnz = Inr out"
  shows "has_categorical out = False \<and> feature_types out = feature_types m \<and> cats out = [] \<and>
         (of_nat (length (weights m)) + 1 = (of_nat (length (group_ptr m)) :: 64 word) \<longrightarrow> weights out = [])"
  using assms by (auto simp: Slice_def err_bind_eq_Inr meta_default_def split: if_splits)

text \<open>When the weights are per group (one fewer than the group pointers), \<open>Slice\<close> returns no weights at all: it copies the output's own, still empty, weight vector.\<close>

theorem Slice_drops_group_weights:
  "of_nat (length (weights m)) + 1 = (of_nat (length (group_ptr m)) :: 64 word) \<Longrightarrow>
   Slice m ridxs nnz = Inr out \<Longrightarrow> weights out = []"
  using Slice_Inr by blast

text \<open>\<open>Slice\<close> copies the feature types but never sets the categorical flag, so a slice of data with categorical features reports none.\<close>

theorem Slice_drops_has_categorical:
  "Slice m ridxs nnz = Inr out \<Longrightarrow> has_categorical out = False \<and> feature_types out = feature_types m"
  using Slice_Inr by blast

lemma slice_example_run:
  "\<exists>out. Slice slice_example [0, 1] 0 = Inr out"
  by (simp add: Slice_def slice_example_def meta_default_def slice_tensor_def gather_err_def Gather_def
      gather_read_def tsize_def empty_tensor_def)

theorem Slice_rows_witness:
  "Slice slice_vec [2, 0] 0 =
     Inr (meta_default\<lparr>num_row := 2, num_col := 2, num_nonzero := 0,
       labels := \<lparr>tshape = [2, 1], tdata = [Fin 3, Fin 1]\<rparr>, weights := [Fin 9, Fin 5],
       base_margin := \<lparr>tshape = [2, 0], tdata = []\<rparr>\<rparr>)"
proof -
  have "Slice slice_vec [2, 0] 0 =
    Inr (meta_default\<lparr>num_row := of_nat (length [2, 0 :: 64 word]), num_col := num_col slice_vec, num_nonzero := 0,
           labels := slice_col (labels slice_vec) (num_row slice_vec) [2, 0], weights := pick (weights slice_vec) [2, 0],
           base_margin := slice_col (base_margin slice_vec) (num_row slice_vec) [2, 0],
           labels_lower_bound := pick (labels_lower_bound slice_vec) [2, 0],
           labels_upper_bound := pick (labels_upper_bound slice_vec) [2, 0],
           feature_names := feature_names slice_vec, feature_type_names := feature_type_names slice_vec,
           feature_types := feature_types slice_vec, feature_weights := feature_weights slice_vec\<rparr>)"
    by (rule Slice_rows) (simp_all add: slice_vec_def meta_default_def empty_tensor_def)
  then show ?thesis
    by (simp add: slice_vec_def meta_default_def empty_tensor_def pick_def column_def slice_col_def)
qed

theorem Slice_drops_group_weights_witness:
  "\<exists>out. of_nat (length (weights slice_example)) + 1 = (of_nat (length (group_ptr slice_example)) :: 64 word) \<and>
     Slice slice_example [0, 1] 0 = Inr out \<and> weights out = []"
proof -
  obtain out where run: "Slice slice_example [0, 1] 0 = Inr out" using slice_example_run by blast
  have g: "of_nat (length (weights slice_example)) + 1 = (of_nat (length (group_ptr slice_example)) :: 64 word)"
    by (simp add: slice_example_def meta_default_def)
  show ?thesis using g run Slice_drops_group_weights [OF g run] by blast
qed

theorem Slice_drops_has_categorical_witness:
  "\<exists>out. has_categorical slice_example \<and> Slice slice_example [0, 1] 0 = Inr out \<and>
     has_categorical out = False \<and> feature_types out = [kCategorical, kNumerical]"
proof -
  obtain out where run: "Slice slice_example [0, 1] 0 = Inr out" using slice_example_run by blast
  show ?thesis using run Slice_drops_has_categorical [OF run]
    by (auto simp: slice_example_def meta_default_def)
qed

lemma group_sizes_Cons_Cons [simp]: "group_sizes (x # y # ys) = (y - x) # group_sizes (y # ys)"
  by (simp add: group_sizes_def)

lemma group_sizes_single [simp]: "group_sizes [x] = []"
  by (simp add: group_sizes_def)

lemma group_sizes_snoc_append:
  "a \<noteq> [] \<Longrightarrow> group_sizes (a @ y # ys) = group_sizes a @ (y - last a) # group_sizes (y # ys)"
proof (induction a rule: induct_list012)
  case (3 x z zs)
  then show ?case by simp
qed simp_all

lemma group_sizes_shift: "group_sizes (map (\<lambda>x. x + c) xs) = group_sizes xs"
  by (induction xs rule: induct_list012) simp_all

lemma extend_groups_sizes:
  assumes "extend_groups a b = Inr g" and "a \<noteq> []" and "hd b = 0"
  shows "group_sizes g = group_sizes a @ group_sizes b"
proof -
  obtain bs where b: "b = 0 # bs" and g: "g = a @ map (\<lambda>x. x + last a) bs"
    using assms by (cases b) (auto simp: extend_groups_def split: if_splits)
  show ?thesis
  proof (cases bs)
    case (Cons y ys)
    have "g = a @ (y + last a) # map (\<lambda>x. x + last a) ys" by (simp add: g Cons)
    then have "group_sizes g =
        group_sizes a @ (y + last a - last a) # group_sizes ((y + last a) # map (\<lambda>x. x + last a) ys)"
      using group_sizes_snoc_append [OF assms(2)] by simp
    also have "\<dots> = group_sizes a @ y # group_sizes (y # ys)"
      using group_sizes_shift [of "last a" "y # ys"] by simp
    finally show ?thesis by (simp add: b Cons)
  qed (simp add: b g)
qed

lemma extend_features_keeps:
  assumes "extend_features a b = Inr r"
  shows "group_ptr r = group_ptr a \<and> num_row r = num_row a \<and> num_col r = num_col a \<and>
         labels r = labels a \<and> base_margin r = base_margin a \<and> weights r = weights a \<and>
         cats r = cats a"
  using assms by (auto simp: extend_features_def err_bind_eq_Inr Let_def split: if_splits sum.splits)

lemma Extend_Inr:
  assumes "Extend this that acc cc = Inr r"
  shows "extend_groups (group_ptr this) (group_ptr that) = Inr (group_ptr r) \<and> num_col r = num_col that"
  using assms extend_features_keeps
  by (fastforce simp: Extend_def err_bind_eq_Inr Let_def split: if_splits)

text \<open>C33: when \<open>Extend\<close> succeeds on a non-empty group pointer and another starting at 0, the group sizes of the result are those of this MetaInfo followed by those of the other, in 32-bit arithmetic.\<close>

theorem Extend_groups:
  "Extend this that acc cc = Inr r \<Longrightarrow> group_ptr this \<noteq> [] \<Longrightarrow> hd (group_ptr that) = 0 \<Longrightarrow>
   group_sizes (group_ptr r) = group_sizes (group_ptr this) @ group_sizes (group_ptr that)"
  using Extend_Inr extend_groups_sizes by blast

text \<open>Without the column check, \<open>Extend\<close> sets the column count to the other MetaInfo's, not to the maximum the code computes first.\<close>

theorem Extend_num_col_overwritten:
  "Extend this that acc False = Inr r \<Longrightarrow> num_col r = num_col that"
  using Extend_Inr by blast

lemma Stack_empty_left:
  assumes "length (tshape t) = 2" and "tdata t \<noteq> [] \<or> t = empty_tensor"
  shows "Stack empty_tensor t = Inr t"
proof -
  obtain a b where sh: "tshape t = [a, b]"
    using assms(1) by (cases "tshape t" rule: list.exhaust; cases "tl (tshape t)") auto
  show ?thesis
    using assms(2) sh by (auto simp: Stack_def empty_tensor_def)
qed

lemma LoadFeatureType_Nil: "LoadFeatureType [] = Inr ([], False)"
  by (simp add: LoadFeatureType_def)

lemma Copy_canonical:
  assumes "wf_meta m"
    and "tdata (labels m) \<noteq> [] \<or> labels m = empty_tensor"
    and "tdata (base_margin m) \<noteq> [] \<or> base_margin m = empty_tensor"
  shows "Copy m = Inr (m\<lparr>num_nonzero := 0, cats := []\<rparr>)"
proof -
  have lab: "Stack empty_tensor (labels m) = Inr (labels m)"
    using assms by (simp add: Stack_empty_left wf_meta_def)
  have bm: "Stack empty_tensor (base_margin m) = Inr (base_margin m)"
    using assms by (simp add: Stack_empty_left wf_meta_def)
  have ft: "LoadFeatureType (feature_type_names m) = Inr (feature_types m, has_categorical m)"
    using assms(1) by (simp add: wf_meta_def)
  show ?thesis
  proof (cases "feature_type_names m = []")
    case True
    then have "feature_types m = [] \<and> has_categorical m = False"
      using ft by (simp add: LoadFeatureType_Nil)
    then show ?thesis
      using True lab bm
      by (cases m) (simp add: Copy_def Extend_def extend_groups_def extend_features_def meta_default_def
          empty_tensor_def Let_def)
  next
    case False
    then show ?thesis
      using False ft lab bm
      by (cases m) (simp add: Copy_def Extend_def extend_groups_def extend_features_def meta_default_def
          empty_tensor_def Let_def)
  qed
qed

text \<open>C35: \<open>Copy\<close> of a well-formed MetaInfo with canonical tensors reproduces it except for the non-zero count, which becomes 0, and the categories container, which is fresh.\<close>

theorem Copy_resets_nnz_cats:
  assumes "wf_meta m"
    and "tdata (labels m) \<noteq> [] \<or> labels m = empty_tensor"
    and "tdata (base_margin m) \<noteq> [] \<or> base_margin m = empty_tensor"
  shows "Copy m = Inr (m\<lparr>num_nonzero := 0, cats := []\<rparr>)"
  using Copy_canonical [OF assms] .

text \<open>Without groups, \<open>Validate\<close> accepts any MetaInfo whose weight count equals the row count, whatever its labels, bounds and base margin.\<close>

theorem Validate_skips_after_weights:
  "group_ptr m = [] \<Longrightarrow> weights m \<noteq> [] \<Longrightarrow> of_nat (length (weights m)) = num_row m \<Longrightarrow>
   Validate m = Inr ()"
  by (simp add: Validate_def)

text \<open>\<open>Validate\<close> computes \<open>num_col * num_row\<close> in 64 bits: a 2^32 by 2^32 matrix with one non-zero entry is rejected because the product wraps to 0.\<close>

theorem Validate_nonzero_wraps:
  "Validate (meta_default\<lparr>num_row := 2 ^ 32, num_col := 2 ^ 32, num_nonzero := 1\<rparr>) = Inl NonzeroExceeds"
  by (simp add: Validate_def meta_default_def empty_tensor_def word_le_def)

lemma extend_example_run:
  "Extend extend_left extend_right True False =
     Inr (extend_left\<lparr>num_row := 9, num_col := 3, group_ptr := [0, 2, 5, 6, 9]\<rparr>)"
  by (simp add: Extend_def extend_left_def extend_right_def meta_default_def Stack_def
      empty_tensor_def extend_groups_def extend_features_def)

theorem Extend_groups_witness:
  "\<exists>r. Extend extend_left extend_right True False = Inr r \<and> group_ptr extend_left \<noteq> [] \<and>
     hd (group_ptr extend_right) = 0 \<and>
     group_sizes (group_ptr r) = group_sizes (group_ptr extend_left) @ group_sizes (group_ptr extend_right) \<and>
     group_sizes (group_ptr r) = [2, 3, 1, 3]"
proof -
  have ne: "group_ptr extend_left \<noteq> []" and h0: "hd (group_ptr extend_right) = 0"
    by (simp_all add: extend_left_def extend_right_def meta_default_def)
  show ?thesis
    using Extend_groups [OF extend_example_run ne h0] extend_example_run ne h0
    by (simp add: extend_left_def extend_right_def meta_default_def)
qed

theorem Extend_num_col_overwritten_witness:
  "\<exists>r. Extend extend_left extend_right True False = Inr r \<and> num_col r = num_col extend_right \<and>
     num_col r < max (num_col extend_left) (num_col extend_right)"
  using Extend_num_col_overwritten [OF extend_example_run] extend_example_run
  by (simp add: extend_left_def extend_right_def meta_default_def)

theorem Validate_skips_after_weights_witness:
  "group_ptr (meta_default\<lparr>num_row := 2, weights := [Fin 1, Fin 1],
      labels := \<lparr>tshape = [5, 1], tdata = [Fin 0, Fin 0, Fin 0, Fin 0, Fin 0]\<rparr>\<rparr>) = [] \<and>
   Validate (meta_default\<lparr>num_row := 2, weights := [Fin 1, Fin 1],
      labels := \<lparr>tshape = [5, 1], tdata = [Fin 0, Fin 0, Fin 0, Fin 0, Fin 0]\<rparr>\<rparr>) = Inr ()"
  using Validate_skips_after_weights [of "meta_default\<lparr>num_row := 2, weights := [Fin 1, Fin 1],
      labels := \<lparr>tshape = [5, 1], tdata = [Fin 0, Fin 0, Fin 0, Fin 0, Fin 0]\<rparr>\<rparr>"]
  by (simp add: meta_default_def)

theorem Copy_resets_nnz_cats_witness:
  "wf_meta meta_example \<and> Copy meta_example = Inr (meta_example\<lparr>num_nonzero := 0, cats := []\<rparr>) \<and>
   num_nonzero meta_example \<noteq> 0 \<and> cats meta_example \<noteq> []"
proof -
  have c: "(tdata (labels meta_example) \<noteq> [] \<or> labels meta_example = empty_tensor) \<and>
      (tdata (base_margin meta_example) \<noteq> [] \<or> base_margin meta_example = empty_tensor)"
    by (simp add: meta_example_def)
  show ?thesis using Copy_resets_nnz_cats [OF wf_meta_example] c wf_meta_example
    by (simp add: meta_example_def)
qed

end
