(* ===== verification/Meta_Set.thy ===== *)
theory Meta_Set
  imports Meta_Ops
begin

text \<open>
  The setters of \<open>MetaInfo\<close> in \<open>src/src/data/data.cc\<close> that build structure from their
  input: the \<open>group\<close> and \<open>qid\<close> keys of \<open>MetaInfo::SetInfoFromHost\<close>, which turn group
  sizes or sorted query ids into the group pointer, and \<open>MetaInfo::SetFeatureInfo\<close> /
  \<open>MetaInfo::GetFeatureInfo\<close> for feature names and types. Here a setter receives the decoded
  host vector; the array-interface decoding (\<open>CopyTensorInfoImpl\<close>) that produces it
  is in \<open>Meta_Host\<close>.
  \<open>data::ValidateQueryGroup\<close>, \<open>common::RunLengthEncode\<close> and \<open>std::to_string\<close> are
  declared outside \<open>src/\<close> and modelled from their contracts. In a column split, the
  all-gather of \<open>SetFeatureInfo\<close> is a parameter of the model (the strings every worker
  contributes, in rank order) and the worker's rank another.
\<close>

datatype set_error = InvalidGroup | QidNotSorted | FeatureInfoSize | UnknownFeatureInfo
  | SetFault meta_error

text \<open>\<open>data::ValidateQueryGroup\<close>: every pointer is at least its predecessor.\<close>

definition ValidateQueryGroup :: "32 word list \<Rightarrow> bool" where
  "ValidateQueryGroup gp = list_all (\<lambda>i. gp ! (i - 1) \<le> gp ! i) [1..<length gp]"

text \<open>\<open>std::partial_sum\<close> over \<open>bst_group_t\<close> values: the running sums wrap modulo \<open>2^32\<close>.\<close>

fun partial_sums :: "32 word \<Rightarrow> 32 word list \<Rightarrow> 32 word list" where
  "partial_sums acc [] = []"
| "partial_sums acc (x # xs) = (acc + x) # partial_sums (acc + x) xs"

text \<open>\<open>SetInfoFromHost(ctx, "group", arr)\<close>: a leading 0 and the partial sums of the group
  sizes, then the validation.\<close>

definition SetInfo_group :: "meta_info \<Rightarrow> 32 word list \<Rightarrow> set_error + meta_info" where
  "SetInfo_group m h_groups =
     (let gp = 0 # partial_sums 0 h_groups in
      if \<not> ValidateQueryGroup gp then Inl InvalidGroup else Inr (m\<lparr>group_ptr := gp\<rparr>))"

text \<open>\<open>common::RunLengthEncode\<close>: 0, every position where the value changes, and the
  length unless it is already last; the positions are stored as \<open>bst_group_t\<close>.\<close>

definition RunLengthEncode :: "32 word list \<Rightarrow> 32 word list" where
  "RunLengthEncode q =
     (let n = length q;
          out = 0 # map of_nat (filter (\<lambda>i. q ! i \<noteq> q ! (i - 1)) [1..<n])
      in if unat (last out) \<noteq> n then out @ [of_nat n] else out)"

text \<open>\<open>SetInfoFromHost(ctx, "qid", arr)\<close>: the query ids must be non-decreasing; their
  runs become the groups.\<close>

definition SetInfo_qid :: "meta_info \<Rightarrow> 32 word list \<Rightarrow> set_error + meta_info" where
  "SetInfo_qid m query_ids =
     (if \<not> list_all (\<lambda>i. \<not> query_ids ! i < query_ids ! (i - 1)) [1..<length query_ids]
      then Inl QidNotSorted
      else (let gp = RunLengthEncode query_ids in
            if \<not> ValidateQueryGroup gp then Inl InvalidGroup else Inr (m\<lparr>group_ptr := gp\<rparr>)))"

text \<open>The collective context of \<open>SetFeatureInfo\<close>: whether the data are split by
  columns, this worker's rank, and the all-gather of a string vector.\<close>

record collective =
  is_col_split :: bool
  rank :: nat
  allgather :: "string list \<Rightarrow> string list"

definition gather_columns :: "collective \<Rightarrow> 64 word \<Rightarrow> string list \<Rightarrow> set_error + string list" where
  "gather_columns c n_columns inputs =
     (if is_col_split c then
        (let result = allgather c inputs in
         if of_nat (length result) \<noteq> n_columns then Inl FeatureInfoSize else Inr result)
      else Inr inputs)"

definition SetFeatureInfo :: "collective \<Rightarrow> meta_info \<Rightarrow> string \<Rightarrow> string list \<Rightarrow> set_error + meta_info" where
  "SetFeatureInfo c m key info =
     (if length info \<noteq> 0 \<and> num_col m \<noteq> 0 \<and> \<not> is_col_split c \<and> of_nat (length info) \<noteq> num_col m
      then Inl FeatureInfoSize
      else if key = ''feature_type'' then
        err_bind (gather_columns c (num_col m) info) (\<lambda>names.
          case LoadFeatureType names of
            Inl e \<Rightarrow> Inl (SetFault e)
          | Inr (ft, has_cat) \<Rightarrow>
              Inr (m\<lparr>feature_type_names := names, feature_types := ft, has_categorical := has_cat\<rparr>))
      else if key = ''feature_name'' then
        err_bind (gather_columns c (num_col m)
                    (if is_col_split c then map (\<lambda>elem. decimal (rank c) @ ''.'' @ elem) info else info))
          (\<lambda>names. Inr (m\<lparr>feature_names := names\<rparr>))
      else Inl UnknownFeatureInfo)"

definition GetFeatureInfo :: "meta_info \<Rightarrow> string \<Rightarrow> set_error + string list" where
  "GetFeatureInfo m field =
     (if field = ''feature_type'' then Inr (feature_type_names m)
      else if field = ''feature_name'' then Inr (feature_names m)
      else Inl UnknownFeatureInfo)"

text \<open>Specification side: expanding a group pointer into copies of each group's first
  query id, the same over cut positions, and the row-split collective context.\<close>

definition rle_decode :: "32 word list \<Rightarrow> 32 word list \<Rightarrow> 32 word list" where
  "rle_decode q gp = concat (map (\<lambda>(a, b). replicate (unat b - unat a) (q ! unat a)) (zip gp (tl gp)))"

definition decode_cuts :: "'a list \<Rightarrow> nat list \<Rightarrow> 'a list" where
  "decode_cuts q cuts = concat (map (\<lambda>(a, b). replicate (b - a) (q ! a)) (zip cuts (tl cuts)))"

definition row_split :: collective where
  "row_split = \<lparr>is_col_split = False, rank = 0, allgather = id\<rparr>"

declare ValidateQueryGroup_def [model_defs] SetInfo_group_def [model_defs]
  RunLengthEncode_def [model_defs] SetInfo_qid_def [model_defs] gather_columns_def [model_defs]
  SetFeatureInfo_def [model_defs] GetFeatureInfo_def [model_defs]

subsection \<open>Groups, query ids and feature information\<close>

lemma ValidateQueryGroup_sorted: "ValidateQueryGroup gp \<longleftrightarrow> sorted gp"
proof -
  have "ValidateQueryGroup gp \<longleftrightarrow> (\<forall>i. 1 \<le> i \<and> i < length gp \<longrightarrow> gp ! (i - 1) \<le> gp ! i)"
    by (auto simp: ValidateQueryGroup_def list_all_iff)
  also have "\<dots> \<longleftrightarrow> (\<forall>j. Suc j < length gp \<longrightarrow> gp ! j \<le> gp ! Suc j)"
    by (metis One_nat_def Suc_le_eq Suc_pred diff_Suc_1 zero_less_Suc)
  finally show ?thesis by (simp add: sorted_iff_nth_Suc)
qed

lemma group_sizes_partial_sums: "group_sizes (acc # partial_sums acc gs) = gs"
  by (induction gs arbitrary: acc) simp_all

lemma sorted_partial_sums:
  "sorted (acc # partial_sums acc gs) \<longleftrightarrow> unat acc + sum_list (map unat gs) < 2 ^ 32"
proof (induction gs arbitrary: acc)
  case Nil
  have "unat acc < 2 ^ LENGTH(32)" by (rule unsigned_less)
  then show ?case by simp
next
  case (Cons x xs)
  have "acc \<le> acc + x \<longleftrightarrow> unat acc + unat x < 2 ^ 32"
    using no_olen_add_nat [of acc x] by simp
  moreover have "acc \<le> acc + x \<Longrightarrow> unat (acc + x) = unat acc + unat x"
    using unat_add_lem [of acc x] no_olen_add_nat [of acc x] by simp
  ultimately show ?case using Cons.IH [of "acc + x"] by (auto simp: sorted2 add.assoc)
qed

lemma last_partial_sums:
  "unat acc + sum_list (map unat gs) < 2 ^ 32 \<Longrightarrow>
   unat (last (acc # partial_sums acc gs)) = unat acc + sum_list (map unat gs)"
proof (induction gs arbitrary: acc)
  case (Cons x xs)
  then have "unat (acc + x) = unat acc + unat x"
    using unat_add_lem [of acc x] by simp
  with Cons show ?case by (simp add: add.assoc)
qed simp

text \<open>C38: setting \<open>group\<close> succeeds exactly when the group sizes add up to less than 2^32; the group pointer then delimits exactly the given group sizes and ends at their total, and nothing else changes; otherwise the wrapped 32-bit partial sums are caught by \<open>ValidateQueryGroup\<close>.\<close>

theorem SetInfo_group_sizes:
  "(case SetInfo_group m gs of
      Inl e \<Rightarrow> e = InvalidGroup \<and> 2 ^ 32 \<le> sum_list (map unat gs)
    | Inr m' \<Rightarrow> sum_list (map unat gs) < 2 ^ 32 \<and> group_sizes (group_ptr m') = gs \<and>
               unat (last (group_ptr m')) = sum_list (map unat gs) \<and> m'\<lparr>group_ptr := group_ptr m\<rparr> = m)"
  using sorted_partial_sums [of 0 gs] last_partial_sums [of 0 gs]
  by (simp add: SetInfo_group_def ValidateQueryGroup_sorted group_sizes_partial_sums)

lemma run_replicate:
  assumes "\<forall>i. a < i \<and> i < b \<longrightarrow> q ! i = q ! (i - 1)" and "a \<le> b" and "b \<le> length q"
  shows "take (b - a) (drop a q) = replicate (b - a) (q ! a)"
  using assms
proof (induction b)
  case (Suc b)
  show ?case
  proof (cases "a = Suc b")
    case False
    then have ab: "a \<le> b" using Suc.prems by simp
    have IH: "take (b - a) (drop a q) = replicate (b - a) (q ! a)" using Suc ab by simp
    have qb: "q ! b = q ! a"
    proof (cases "a = b")
      case False
      then have "take (b - a) (drop a q) ! (b - a - 1) = q ! (b - 1)"
        using ab Suc.prems by simp
      moreover have "q ! b = q ! (b - 1)" using Suc.prems(1) ab False by simp
      ultimately show ?thesis using IH ab False by simp
    qed simp
    have "take (Suc b - a) (drop a q) = take (b - a) (drop a q) @ [q ! b]"
      using ab Suc.prems(3) by (simp add: Suc_diff_le take_Suc_conv_app_nth)
    then show ?thesis using IH qb ab by (simp add: Suc_diff_le replicate_append_same)
  qed simp
qed simp

lemma decode_cuts_runs:
  assumes "sorted cuts" and "cuts \<noteq> []" and "last cuts \<le> length q"
    and "\<forall>i. hd cuts < i \<and> i < last cuts \<and> i \<notin> set cuts \<longrightarrow> q ! i = q ! (i - 1)"
  shows "decode_cuts q cuts = take (last cuts - hd cuts) (drop (hd cuts) q)"
  using assms
proof (induction cuts rule: induct_list012)
  case (3 a b rest)
  have ab: "a \<le> b" and lb: "b \<le> last (b # rest)" using "3.prems"(1) by (auto simp: sorted2)
  have p4: "\<forall>i. hd (b # rest) < i \<and> i < last (b # rest) \<and> i \<notin> set (b # rest) \<longrightarrow> q ! i = q ! (i - 1)"
    using "3.prems"(4) ab by auto
  have rec: "decode_cuts q (b # rest) = take (last (b # rest) - b) (drop b q)"
    using "3.IH"(2) [OF _ _ _ p4] "3.prems"(1,3) by (simp add: sorted2)
  have rb: "\<forall>x\<in>set rest. b \<le> x" using "3.prems"(1) by simp
  have inner: "\<forall>i. a < i \<and> i < b \<longrightarrow> q ! i = q ! (i - 1)"
  proof (intro allI impI)
    fix i assume i: "a < i \<and> i < b"
    then have ni: "i \<notin> set (a # b # rest)" using rb by fastforce
    have "i < last (a # b # rest)" using i lb by simp
    then show "q ! i = q ! (i - 1)" using "3.prems"(4) [rule_format, of i] i ni by simp
  qed
  have "replicate (b - a) (q ! a) = take (b - a) (drop a q)"
    using run_replicate [OF inner ab] "3.prems"(3) lb by simp
  moreover have "take (b - a) (drop a q) @ take (last (b # rest) - b) (drop b q) =
      take (last (b # rest) - a) (drop a q)"
  proof -
    have len: "last (b # rest) - a = (b - a) + (last (b # rest) - b)" using ab lb by simp
    have "drop (b - a) (drop a q) = drop b q" using ab by simp
    then show ?thesis unfolding len take_add by simp
  qed
  ultimately show ?case using rec by (simp add: decode_cuts_def)
qed (simp_all add: decode_cuts_def)

lemma rle_decode_cuts: "rle_decode q gp = decode_cuts q (map unat gp)"
  by (simp add: rle_decode_def decode_cuts_def zip_map_map case_prod_unfold comp_def flip: map_tl)

lemma unat_of_nat_32 [simp]: "x < 2 ^ 32 \<Longrightarrow> unat (of_nat x :: 32 word) = x"
  by (simp add: unat_of_nat)

lemma sorted_of_nat_32:
  "sorted L \<Longrightarrow> \<forall>x\<in>set L. x < 2 ^ 32 \<Longrightarrow> sorted (map (of_nat :: nat \<Rightarrow> 32 word) L)"
  by (induction L) (auto simp: word_le_nat_alt)

lemma RunLengthEncode_cuts:
  fixes q :: "32 word list"
  assumes "q \<noteq> []" and "length q < 2 ^ 32"
  shows "RunLengthEncode q =
    map of_nat (0 # filter (\<lambda>i. q ! i \<noteq> q ! (i - 1)) [1..<length q] @ [length q])"
proof -
  let ?C = "filter (\<lambda>i. q ! i \<noteq> q ! (i - 1)) [1..<length q]"
  have "unat (last (0 # map (of_nat :: nat \<Rightarrow> 32 word) ?C)) < length q"
  proof (cases "?C = []")
    case False
    then have "last ?C \<in> set ?C" by (rule last_in_set)
    then have "last ?C < length q" by simp
    then show ?thesis using False assms(2) by (simp add: last_map)
  qed (use assms(1) in simp)
  then show ?thesis unfolding RunLengthEncode_def Let_def by simp
qed

text \<open>C39: setting \<open>qid\<close> with non-decreasing query ids (fewer than 2^32 of them) succeeds, and expanding each group of the group pointer back into copies of its first query id gives back the query ids: the groups are the runs.\<close>

theorem SetInfo_qid_runs:
  assumes "sorted q" and "length q < 2 ^ 32"
  shows "\<exists>m'. SetInfo_qid m q = Inr m' \<and> rle_decode q (group_ptr m') = q \<and>
             m'\<lparr>group_ptr := group_ptr m\<rparr> = m"
proof (cases "q = []")
  case True
  then show ?thesis by (simp add: SetInfo_qid_def RunLengthEncode_def ValidateQueryGroup_def
      rle_decode_def)
next
  case False
  define C where "C = filter (\<lambda>i. q ! i \<noteq> q ! (i - 1)) [1..<length q]"
  define L where "L = 0 # C @ [length q]"
  have bound: "\<forall>x\<in>set L. x < 2 ^ 32" using assms(2) by (auto simp: L_def C_def)
  have sortedC: "sorted C" unfolding C_def by (rule sorted_wrt_filter) simp
  have sortedL: "sorted L" using sortedC by (auto simp: L_def C_def sorted_append)
  have rle: "RunLengthEncode q = map of_nat L"
    using RunLengthEncode_cuts [OF False assms(2)] by (simp add: L_def C_def)
  have valid: "ValidateQueryGroup (map of_nat L)"
    using sorted_of_nat_32 [OF sortedL bound] by (simp add: ValidateQueryGroup_sorted)
  have nondec: "list_all (\<lambda>i. \<not> q ! i < q ! (i - 1)) [1..<length q]"
    using assms(1) by (auto simp: list_all_iff not_less sorted_iff_nth_mono)
  have units: "map unat (map (of_nat :: nat \<Rightarrow> 32 word) L) = L"
    using bound by (induction L) simp_all
  have inner: "\<forall>i. hd L < i \<and> i < last L \<and> i \<notin> set L \<longrightarrow> q ! i = q ! (i - 1)"
    by (auto simp: L_def C_def)
  have "decode_cuts q L = q"
    using decode_cuts_runs [OF sortedL _ _ inner] by (simp add: L_def)
  then show ?thesis
    using rle valid nondec units by (simp add: SetInfo_qid_def rle_decode_cuts)
qed

text \<open>C40: without a column split and with as many names as columns (or no columns recorded), \<open>GetFeatureInfo\<close> returns the feature names \<open>SetFeatureInfo\<close> stored, and the feature type names it stored, with the feature types derived from them.\<close>

theorem SetFeatureInfo_roundtrip:
  assumes "\<not> is_col_split c" and "info = [] \<or> num_col m = 0 \<or> of_nat (length info) = num_col m"
  shows "(\<exists>m'. SetFeatureInfo c m ''feature_name'' info = Inr m' \<and>
              GetFeatureInfo m' ''feature_name'' = Inr info) \<and>
         (\<forall>m'. SetFeatureInfo c m ''feature_type'' info = Inr m' \<longrightarrow>
              GetFeatureInfo m' ''feature_type'' = Inr info \<and>
              LoadFeatureType (feature_type_names m') = Inr (feature_types m', has_categorical m'))"
  using assms
  by (auto simp: SetFeatureInfo_def gather_columns_def GetFeatureInfo_def split: sum.splits)

theorem SetInfo_qid_runs_witness:
  "sorted [1, 1, 3, 3, 3, 7 :: 32 word] \<and> length [1, 1, 3, 3, 3, 7 :: 32 word] < 2 ^ 32 \<and>
   (\<exists>m'. SetInfo_qid meta_example [1, 1, 3, 3, 3, 7] = Inr m' \<and>
     rle_decode [1, 1, 3, 3, 3, 7] (group_ptr m') = [1, 1, 3, 3, 3, 7] \<and>
     m'\<lparr>group_ptr := group_ptr meta_example\<rparr> = meta_example)"
proof -
  have s: "sorted [1, 1, 3, 3, 3, 7 :: 32 word]" by simp
  show ?thesis using SetInfo_qid_runs [OF s, of meta_example] s by simp
qed

theorem SetFeatureInfo_roundtrip_witness:
  "\<not> is_col_split row_split \<and> of_nat (length [''a'', ''b'', ''c'']) = num_col meta_example \<and>
   (\<exists>m'. SetFeatureInfo row_split meta_example ''feature_name'' [''a'', ''b'', ''c''] = Inr m' \<and>
      GetFeatureInfo m' ''feature_name'' = Inr [''a'', ''b'', ''c''])"
proof -
  have h: "\<not> is_col_split row_split" "of_nat (length [''a'', ''b'', ''c'']) = num_col meta_example"
    by (simp_all add: row_split_def meta_example_def)
  show ?thesis using SetFeatureInfo_roundtrip [of row_split "[''a'', ''b'', ''c'']" meta_example] h by simp
qed

end
