(* ===== verification/Meta_Host.thy ===== *)
theory Meta_Host
  imports Meta_Set
begin

text \<open>
  The host side of \<open>MetaInfo\<close>'s array-interface setters and getters in
  \<open>src/src/data/data.cc\<close>: \<open>CopyTensorInfoImpl\<close>, which decodes an array into a tensor
  of a fixed dimension, \<open>MetaInfo::SetInfoFromHost\<close> for every key (the float keys
  \<open>label\<close>, \<open>base_margin\<close>, \<open>weight\<close>, \<open>label_lower_bound\<close>, \<open>label_upper_bound\<close>,
  \<open>feature_weights\<close> with their reshaping and value checks, and the \<open>group\<close> and \<open>qid\<close>
  keys of \<open>Meta_Set\<close>), \<open>MetaInfo::SetInfo\<close>, which sends a CUDA array to
  \<open>SetInfoFromCUDA\<close> (an \<open>AssertGPUSupport\<close> failure in this build), \<open>MetaInfo::GetInfo\<close>,
  and \<open>MetaInfo::LabelAbsSort\<close> with its cache. The array interface (\<open>ArrayInterface<D>\<close>,
  outside \<open>src/\<close>) is its parsed form: its shape, its values in C order as the host
  copy or the element-wise transform produces them, whether it has a validity mask, and
  whether it lives on the device; the element cast of \<open>DispatchDType\<close> is modelled for
  the two element types used here. \<open>data::LabelsCheck\<close> and \<open>data::WeightsCheck\<close>
  (\<open>validation.h\<close>) are modelled from their contracts. The label-order cache is kept
  beside the \<open>MetaInfo\<close> record, as the separate member it is.
\<close>

datatype host_error =
    MissingValue
  | ArrayDimension
  | ColumnCount
  | EmptyColumnArray
  | IncorrectBaseMarginSize
  | IncorrectLabelSize
  | InvalidLabel
  | InvalidWeight
  | InvalidFeatureWeight
  | UnknownKey string
  | HostSetError set_error
  | NoGPUSupportInfo
  | UnknownFieldName string
  | UnknownDataType

text \<open>A decoded array interface: its shape, its values in C order, whether it carries a
  validity mask (\<open>array.valid\<close>), and whether its data is on the device.\<close>

record 'a array_if =
  arr_shape :: "64 word list"
  arr_data :: "'a list"
  arr_masked :: bool
  arr_cuda :: bool

datatype host_array = FloatArray "f32 array_if" | UIntArray "32 word array_if"

text \<open>The element casts of \<open>DispatchDType\<close>: an unsigned value read as a float, and a
  float truncated toward zero to \<open>bst_group_t\<close> (a non-finite value, undefined in C++,
  reads as 0).\<close>

fun u32_to_f32 :: "32 word \<Rightarrow> f32" where
  "u32_to_f32 w = Fin (real (unat w))"

fun f32_to_u32 :: "f32 \<Rightarrow> 32 word" where
  "f32_to_u32 (Fin r) = word_of_int (if 0 \<le> r then \<lfloor>r\<rfloor> else \<lceil>r\<rceil>)"
| "f32_to_u32 _ = 0"

fun as_float_array :: "host_array \<Rightarrow> f32 array_if" where
  "as_float_array (FloatArray a) = a"
| "as_float_array (UIntArray a) = \<lparr>arr_shape = arr_shape a, arr_data = map u32_to_f32 (arr_data a),
     arr_masked = arr_masked a, arr_cuda = arr_cuda a\<rparr>"

fun as_uint_array :: "host_array \<Rightarrow> 32 word array_if" where
  "as_uint_array (UIntArray a) = a"
| "as_uint_array (FloatArray a) = \<lparr>arr_shape = arr_shape a, arr_data = map f32_to_u32 (arr_data a),
     arr_masked = arr_masked a, arr_cuda = arr_cuda a\<rparr>"

fun host_array_cuda :: "host_array \<Rightarrow> bool" where
  "host_array_cuda (FloatArray a) = arr_cuda a"
| "host_array_cuda (UIntArray a) = arr_cuda a"

text \<open>\<open>array.n\<close>: the number of elements, the product of the shape.\<close>

definition arr_n :: "'a array_if \<Rightarrow> nat" where
  "arr_n a = prod_list (map unat (arr_shape a))"

text \<open>\<open>CopyTensorInfoImpl<D>(ctx, arr, p_out)\<close>: an empty array only reshapes the output;
  otherwise a masked array is rejected and the values are copied. The result is the
  output's shape and data. \<open>ArrayInterface<D>\<close> rejects an array of another dimension.\<close>

definition CopyTensorInfoImpl :: "nat \<Rightarrow> 'a array_if \<Rightarrow> host_error + (64 word list \<times> 'a list)" where
  "CopyTensorInfoImpl D a =
     (if length (arr_shape a) \<noteq> D then Inl ArrayDimension
      else if arr_n a = 0 then Inr (arr_shape a, [])
      else if arr_masked a then Inl MissingValue
      else Inr (arr_shape a, arr_data a))"

text \<open>\<open>data::LabelsCheck\<close> (NaN or infinity) and \<open>data::WeightsCheck\<close> (that, or negative).\<close>

definition LabelsCheck :: "f32 \<Rightarrow> bool" where
  "LabelsCheck y \<longleftrightarrow> isnan y \<or> isinf y"

definition WeightsCheck :: "f32 \<Rightarrow> bool" where
  "WeightsCheck w \<longleftrightarrow> LabelsCheck w \<or> f32_less w (Fin 0)"

text \<open>The reshape of a label or base-margin tensor whose first dimension is not the row
  count: \<open>CHECK(size % num_row == 0)\<close>, then \<open>(num_row, size / num_row)\<close>.\<close>

definition reshape_rows :: "host_error \<Rightarrow> 64 word \<Rightarrow> tensor \<Rightarrow> host_error + tensor" where
  "reshape_rows err nrow t =
     (let size = (of_nat (length (tdata t)) :: 64 word) in
      if nrow \<noteq> 0 \<and> hd (tshape t) \<noteq> nrow then
        (if size mod nrow \<noteq> 0 then Inl err
         else Inr (t\<lparr>tshape := [nrow, size div nrow]\<rparr>))
      else Inr t)"

text \<open>\<open>MetaInfo::SetInfoFromHost(ctx, key, arr)\<close>. The float keys decode the array as a
  one-dimensional float tensor before looking at the key, so an unknown key is reported
  only for an array that decodes.\<close>

definition SetInfoFromHost :: "meta_info \<Rightarrow> string \<Rightarrow> host_array \<Rightarrow> host_error + meta_info" where
  "SetInfoFromHost m key arr =
     (if key = ''base_margin'' then
        err_bind (CopyTensorInfoImpl 2 (as_float_array arr)) (\<lambda>(shape, vals).
          map_sum id (\<lambda>t. m\<lparr>base_margin := t\<rparr>)
            (reshape_rows IncorrectBaseMarginSize (num_row m) \<lparr>tshape = shape, tdata = vals\<rparr>))
      else if key = ''label'' then
        err_bind (CopyTensorInfoImpl 2 (as_float_array arr)) (\<lambda>(shape, vals).
          err_bind (reshape_rows IncorrectLabelSize (num_row m) \<lparr>tshape = shape, tdata = vals\<rparr>) (\<lambda>t.
            if list_ex LabelsCheck (tdata t) then Inl InvalidLabel else Inr (m\<lparr>labels := t\<rparr>)))
      else if key = ''group'' then
        err_bind (CopyTensorInfoImpl 1 (as_uint_array arr)) (\<lambda>(shape, h_groups).
          map_sum HostSetError id (SetInfo_group m h_groups))
      else if key = ''qid'' then
        err_bind (CopyTensorInfoImpl 1 (as_uint_array arr)) (\<lambda>(shape, query_ids).
          map_sum HostSetError id (SetInfo_qid m query_ids))
      else
        err_bind (CopyTensorInfoImpl 1 (as_float_array arr)) (\<lambda>(shape, t).
          if key = ''weight'' then
            (if list_ex (\<lambda>w. f32_less w (Fin 0) \<or> isinf w \<or> isnan w) t then Inl InvalidWeight
             else Inr (m\<lparr>weights := t\<rparr>))
          else if key = ''label_lower_bound'' then Inr (m\<lparr>labels_lower_bound := t\<rparr>)
          else if key = ''label_upper_bound'' then Inr (m\<lparr>labels_upper_bound := t\<rparr>)
          else if key = ''feature_weights'' then
            (if list_ex WeightsCheck t then Inl InvalidFeatureWeight
             else Inr (m\<lparr>feature_weights := t\<rparr>))
          else Inl (UnknownKey key)))"

text \<open>The parsed \<open>interface_str\<close> of \<open>SetInfo\<close>: a list of columns or one object, each
  with its \<open>stream\<close> entry if any.\<close>

record array_desc =
  desc_stream :: bool
  desc_array :: host_array

datatype interface_json = JArray "array_desc list" | JObject array_desc

text \<open>\<open>SetInfoFromCUDA\<close> in a build without CUDA.\<close>

definition SetInfoFromCUDA :: "meta_info \<Rightarrow> string \<Rightarrow> interface_json \<Rightarrow> host_error + meta_info" where
  "SetInfoFromCUDA m key j = Inl NoGPUSupportInfo"

text \<open>The host array \<open>ArrayInterface\<close> makes of the interface: an object, or a list of
  exactly one column.\<close>

fun interface_array :: "interface_json \<Rightarrow> host_error + host_array" where
  "interface_array (JObject d) = Inr (desc_array d)"
| "interface_array (JArray [d]) = Inr (desc_array d)"
| "interface_array (JArray _) = Inl ColumnCount"

text \<open>\<open>MetaInfo::SetInfo(ctx, key, interface_str)\<close>: the first column, or the object,
  decides whether the data is on the device. Its \<open>CHECK_GE(array.size(), 0)\<close> holds for
  every size, so an empty list reaches \<open>array.front()\<close>, undefined in C++ and the error
  \<open>EmptyColumnArray\<close> here.\<close>

definition SetInfo :: "meta_info \<Rightarrow> string \<Rightarrow> interface_json \<Rightarrow> host_error + meta_info" where
  "SetInfo m key j =
     (let first = (case j of JArray [] \<Rightarrow> None | JArray (d # _) \<Rightarrow> Some d | JObject d \<Rightarrow> Some d) in
      case first of
        None \<Rightarrow> Inl EmptyColumnArray
      | Some d \<Rightarrow>
          (let is_cuda = desc_stream d \<or> host_array_cuda (desc_array d) in
           if is_cuda then SetInfoFromCUDA m key j
           else err_bind (interface_array j) (SetInfoFromHost m key)))"

text \<open>What \<open>GetInfo\<close> hands back: the vector its pointer and length describe.\<close>

datatype info_vector = FloatVec "f32 list" | UIntVec "32 word list"

definition GetInfo :: "meta_info \<Rightarrow> string \<Rightarrow> data_type \<Rightarrow> host_error + info_vector" where
  "GetInfo m key dtype =
     (if dtype = kFloat32 then
        (if key = ''label'' then Inr (FloatVec (tdata (labels m)))
         else if key = ''weight'' then Inr (FloatVec (weights m))
         else if key = ''base_margin'' then Inr (FloatVec (tdata (base_margin m)))
         else if key = ''label_lower_bound'' then Inr (FloatVec (labels_lower_bound m))
         else if key = ''label_upper_bound'' then Inr (FloatVec (labels_upper_bound m))
         else if key = ''feature_weights'' then Inr (FloatVec (feature_weights m))
         else Inl (UnknownFieldName key))
      else if dtype = kUInt32 then
        (if key = ''group_ptr'' then Inr (UIntVec (group_ptr m)) else Inl (UnknownFieldName key))
      else Inl UnknownDataType)"

text \<open>\<open>std::abs\<close> on a float, and the key \<open>LabelAbsSort\<close> compares.\<close>

fun f32_abs :: "f32 \<Rightarrow> f32" where
  "f32_abs (Fin r) = Fin \<bar>r\<bar>"
| "f32_abs NegInf = PosInf"
| "f32_abs PosInf = PosInf"
| "f32_abs NaN = NaN"

text \<open>\<open>MetaInfo::LabelAbsSort(ctx)\<close> on the labels' data and the cache
  \<open>label_order_cache_\<close>: the cache is returned when its size is the label count;
  otherwise it is refilled with \<open>0, 1, ...\<close> (\<open>common::Iota\<close>) and stably sorted by the
  labels' absolute values (\<open>common::StableSort\<close>). The result is the order and the new
  cache.\<close>

definition LabelAbsSort :: "f32 list \<Rightarrow> nat list \<Rightarrow> nat list \<times> nat list" where
  "LabelAbsSort l cache =
     (if length cache = length l then (cache, cache)
      else (let order = sort_key (\<lambda>i. f32_key (f32_abs (l ! i))) [0..<length l] in (order, order)))"

text \<open>\<open>DataSplitMode\<close> and the reduction of \<open>collective::Allreduce\<close> over one value per
  worker, in rank order (declared outside \<open>src/\<close>, modelled from its contract: every
  worker receives the sum, wrapping in 64 bits, or the maximum).\<close>

datatype DataSplitMode = kRow | kCol

datatype reduce_op = kSum | kMax

fun Allreduce :: "reduce_op \<Rightarrow> 64 word list \<Rightarrow> 64 word" where
  "Allreduce kSum vs = sum_list vs"
| "Allreduce kMax vs = fold max vs 0"

text \<open>\<open>MetaInfo::SynchronizeNumberOfColumns(ctx, split_mode)\<close> on the worker of rank
  \<open>r\<close>, the other workers' column counts being \<open>others\<close>: the split mode is stored
  (returned beside the MetaInfo) and the column count becomes the all-reduce, the sum
  in a column split and the maximum in a row split.\<close>

definition SynchronizeNumberOfColumns ::
    "64 word list \<Rightarrow> nat \<Rightarrow> meta_info \<Rightarrow> DataSplitMode \<Rightarrow> DataSplitMode \<times> meta_info" where
  "SynchronizeNumberOfColumns others r m split_mode =
     (let op = (if split_mode = kCol then kSum else kMax);
          vs = take r others @ num_col m # drop r others in
      (split_mode, m\<lparr>num_col := Allreduce op vs\<rparr>))"

text \<open>The float keys that store the decoded vector as it is, and two example arrays.\<close>

definition float_keys :: "string list" where
  "float_keys = [''weight'', ''label_lower_bound'', ''label_upper_bound'', ''feature_weights'']"

definition weights_array :: "f32 array_if" where
  "weights_array = \<lparr>arr_shape = [2], arr_data = [Fin 1, Fin 0], arr_masked = False, arr_cuda = False\<rparr>"

definition labels_flat :: "f32 array_if" where
  "labels_flat = \<lparr>arr_shape = [4, 1], arr_data = [Fin 1, Fin 2, Fin 3, Fin 4], arr_masked = False,
     arr_cuda = False\<rparr>"

declare u32_to_f32.simps [model_defs] f32_to_u32.simps [model_defs] as_float_array.simps [model_defs]
  as_uint_array.simps [model_defs] host_array_cuda.simps [model_defs] arr_n_def [model_defs]
  CopyTensorInfoImpl_def [model_defs] LabelsCheck_def [model_defs] WeightsCheck_def [model_defs]
  reshape_rows_def [model_defs] SetInfoFromHost_def [model_defs] SetInfoFromCUDA_def [model_defs]
  interface_array.simps [model_defs] SetInfo_def [model_defs] GetInfo_def [model_defs]
  f32_abs.simps [model_defs] LabelAbsSort_def [model_defs] Allreduce.simps [model_defs]
  SynchronizeNumberOfColumns_def [model_defs]

subsection \<open>Properties\<close>

lemma CopyTensorInfoImpl_ok:
  assumes "length (arr_shape a) = D" and "\<not> arr_masked a" and "arr_n a = length (arr_data a)"
  shows "CopyTensorInfoImpl D a = Inr (arr_shape a, arr_data a)"
  using assms by (simp add: CopyTensorInfoImpl_def)

lemma CopyTensorInfoImpl_shape:
  "CopyTensorInfoImpl D a = Inr (shape, vals) \<Longrightarrow> length shape = D"
  by (simp add: CopyTensorInfoImpl_def split: if_splits)

lemma reshape_rows_shape:
  "reshape_rows err r t = Inr t' \<Longrightarrow> t' = t \<or> length (tshape t') = 2"
  by (auto simp: reshape_rows_def Let_def split: if_splits)

lemma wf_meta_upd [simp]:
  "wf_meta (m\<lparr>weights := w\<rparr>) = wf_meta m" "wf_meta (m\<lparr>labels_lower_bound := w\<rparr>) = wf_meta m"
  "wf_meta (m\<lparr>labels_upper_bound := w\<rparr>) = wf_meta m" "wf_meta (m\<lparr>feature_weights := w\<rparr>) = wf_meta m"
  "wf_meta (m\<lparr>group_ptr := g\<rparr>) = wf_meta m"
  by (simp_all add: wf_meta_def)

lemma SetInfo_group_Inr: "SetInfo_group m g = Inr m' \<Longrightarrow> \<exists>gp. m' = m\<lparr>group_ptr := gp\<rparr>"
  by (auto simp: SetInfo_group_def Let_def split: if_splits)

lemma SetInfo_qid_Inr: "SetInfo_qid m q = Inr m' \<Longrightarrow> \<exists>gp. m' = m\<lparr>group_ptr := gp\<rparr>"
  by (auto simp: SetInfo_qid_def Let_def split: if_splits)

lemma map_sum_eq_Inr: "map_sum f g x = Inr y \<longleftrightarrow> (\<exists>z. x = Inr z \<and> y = g z)"
  by (cases x) auto

lemma SetInfoFromHost_frame:
  assumes "SetInfoFromHost m key arr = Inr m'"
  shows "(wf_meta m \<longrightarrow> wf_meta m') \<and> num_row m' = num_row m \<and> num_col m' = num_col m \<and>
         num_nonzero m' = num_nonzero m \<and> cats m' = cats m"
  using assms
  unfolding SetInfoFromHost_def
  by (auto simp: err_bind_eq_Inr map_sum_eq_Inr wf_meta_def
           dest!: CopyTensorInfoImpl_shape SetInfo_group_Inr SetInfo_qid_Inr
           dest!: reshape_rows_shape split: if_splits prod.splits)

lemma SetInfo_frame:
  assumes "SetInfo m key j = Inr m'"
  shows "(wf_meta m \<longrightarrow> wf_meta m') \<and> num_row m' = num_row m \<and> num_col m' = num_col m \<and>
         num_nonzero m' = num_nonzero m \<and> cats m' = cats m"
  using assms
  by (auto simp: SetInfo_def SetInfoFromCUDA_def Let_def err_bind_eq_Inr
           dest!: SetInfoFromHost_frame split: option.splits list.splits if_splits interface_json.splits)


text \<open>C15: a one-dimensional float array without a mask and with valid weights, set under \<open>weight\<close>, \<open>label_lower_bound\<close>, \<open>label_upper_bound\<close> or \<open>feature_weights\<close>, is read back by \<open>GetInfo\<close> unchanged.\<close>

theorem SetInfoFromHost_GetInfo:
  assumes "key \<in> set float_keys" and "length (arr_shape a) = 1" and "\<not> arr_masked a"
    and "arr_n a = length (arr_data a)" and "\<not> list_ex WeightsCheck (arr_data a)"
  shows "\<exists>m'. SetInfoFromHost m key (FloatArray a) = Inr m' \<and>
              GetInfo m' key kFloat32 = Inr (FloatVec (arr_data a))"
proof -
  have c: "CopyTensorInfoImpl 1 a = Inr (arr_shape a, arr_data a)"
    using assms(2-4) by (rule CopyTensorInfoImpl_ok)
  have w: "\<not> list_ex (\<lambda>w. f32_less w (Fin 0) \<or> isinf w \<or> isnan w) (arr_data a)"
    using assms(5) by (auto simp: WeightsCheck_def LabelsCheck_def list_ex_iff)
  show ?thesis using assms(1) c w assms(5)
    by (auto simp: float_keys_def SetInfoFromHost_def GetInfo_def)
qed


text \<open>C16: labels whose first dimension is not the row count are reshaped to \<open>num_row\<close> rows when their size is a multiple of the row count, in 64-bit arithmetic, and rejected with \<open>IncorrectLabelSize\<close> otherwise.\<close>

theorem SetInfoFromHost_label_reshape:
  assumes "length (arr_shape a) = 2" and "\<not> arr_masked a" and "arr_n a = length (arr_data a)"
    and "num_row m \<noteq> 0" and "hd (arr_shape a) \<noteq> num_row m"
    and "\<not> list_ex LabelsCheck (arr_data a)"
  shows "SetInfoFromHost m ''label'' (FloatArray a) =
           (let size = (of_nat (length (arr_data a)) :: 64 word) in
            if size mod num_row m = 0
            then Inr (m\<lparr>labels := \<lparr>tshape = [num_row m, size div num_row m], tdata = arr_data a\<rparr>\<rparr>)
            else Inl IncorrectLabelSize)"
proof -
  have c: "CopyTensorInfoImpl 2 a = Inr (arr_shape a, arr_data a)"
    using assms(1-3) by (rule CopyTensorInfoImpl_ok)
  show ?thesis using c assms(4-6) by (simp add: SetInfoFromHost_def reshape_rows_def Let_def)
qed

lemma f32_nonneg_iff:
  "\<not> (f32_less w (Fin 0) \<or> isinf w \<or> isnan w) \<longleftrightarrow> (\<exists>r. w = Fin r \<and> 0 \<le> r)"
  by (cases w) auto

text \<open>C34: the \<open>weight\<close> key accepts exactly the finite non-negative weights, zero included, although its message asks for positive values, and rejects every other array.\<close>

theorem SetInfoFromHost_weight:
  assumes "length (arr_shape a) = 1" and "\<not> arr_masked a" and "arr_n a = length (arr_data a)"
  shows "SetInfoFromHost m ''weight'' (FloatArray a) =
           (if \<forall>w \<in> set (arr_data a). \<exists>r. w = Fin r \<and> 0 \<le> r then Inr (m\<lparr>weights := arr_data a\<rparr>)
            else Inl InvalidWeight)"
proof -
  have c: "CopyTensorInfoImpl 1 a = Inr (arr_shape a, arr_data a)"
    using assms by (rule CopyTensorInfoImpl_ok)
  have "list_ex (\<lambda>w. f32_less w (Fin 0) \<or> isinf w \<or> isnan w) (arr_data a) \<longleftrightarrow>
        \<not> (\<forall>w \<in> set (arr_data a). \<exists>r. w = Fin r \<and> 0 \<le> r)"
    using f32_nonneg_iff by (auto simp: list_ex_iff)
  then show ?thesis using c by (simp add: SetInfoFromHost_def)
qed


text \<open>C37: \<open>LabelAbsSort\<close> only compares the cache size with the label count, so after the labels change to values of the same count it returns the order of the old labels.\<close>

theorem LabelAbsSort_stale:
  "length l' = length l \<Longrightarrow> LabelAbsSort l' (snd (LabelAbsSort l cache)) = LabelAbsSort l cache"
  by (simp add: LabelAbsSort_def Let_def)

lemma LabelAbsSort_stale_witness:
  "LabelAbsSort [Fin 2, Fin 1] (snd (LabelAbsSort [Fin 1, Fin 2] [])) = ([0, 1], [0, 1]) \<and>
   fst (LabelAbsSort [Fin 2, Fin 1] []) = [1, 0]"
  using LabelAbsSort_stale [of "[Fin 2, Fin 1]" "[Fin 1, Fin 2]" "[]"]
  by (simp add: LabelAbsSort_def upt_rec Let_def)


lemma SetInfoFromHost_GetInfo_witness:
  "\<exists>m'. SetInfoFromHost meta_default ''weight'' (FloatArray weights_array) = Inr m' \<and>
        GetInfo m' ''weight'' kFloat32 = Inr (FloatVec [Fin 1, Fin 0])"
  using SetInfoFromHost_GetInfo [of "''weight''" weights_array meta_default]
  by (simp add: float_keys_def weights_array_def arr_n_def WeightsCheck_def LabelsCheck_def)

lemma SetInfoFromHost_weight_witness:
  "SetInfoFromHost meta_default ''weight'' (FloatArray weights_array) =
     Inr (meta_default\<lparr>weights := [Fin 1, Fin 0]\<rparr>)"
  using SetInfoFromHost_weight [of weights_array meta_default]
  by (simp add: weights_array_def arr_n_def)

lemma SetInfoFromHost_label_reshape_witness:
  "SetInfoFromHost (meta_default\<lparr>num_row := 2\<rparr>) ''label'' (FloatArray labels_flat) =
     Inr (meta_default\<lparr>num_row := 2, labels := \<lparr>tshape = [2, 2], tdata = [Fin 1, Fin 2, Fin 3, Fin 4]\<rparr>\<rparr>)"
  using SetInfoFromHost_label_reshape [of labels_flat "meta_default\<lparr>num_row := 2\<rparr>"]
  by (simp add: labels_flat_def arr_n_def LabelsCheck_def)



text \<open>An empty label array set on a matrix with rows is reshaped to \<open>num_row \<times> 0\<close>;
  \<open>Copy\<close> then stacks it onto the default tensor, which an empty tensor leaves as it is,
  so the copy's labels lose that shape.\<close>

lemma Copy_empty_labels_shape:
  "SetInfoFromHost (meta_default\<lparr>num_row := 2\<rparr>) ''label''
     (FloatArray \<lparr>arr_shape = [0, 1], arr_data = [], arr_masked = False, arr_cuda = False\<rparr>) =
     Inr (meta_default\<lparr>num_row := 2, labels := \<lparr>tshape = [2, 0], tdata = []\<rparr>\<rparr>) \<and>
   Copy (meta_default\<lparr>num_row := 2, labels := \<lparr>tshape = [2, 0], tdata = []\<rparr>\<rparr>) =
     Inr (meta_default\<lparr>num_row := 2\<rparr>)"
  by (simp add: SetInfoFromHost_def CopyTensorInfoImpl_def arr_n_def reshape_rows_def LabelsCheck_def
                Copy_def Extend_def extend_groups_def extend_features_def meta_default_def Stack_def
                empty_tensor_def Let_def CheckFeatureTypes_def)

text \<open>In a row split every worker ends with the largest column count of all workers, so
  no worker's count decreases and nothing else changes; in a column split the counts are
  added in 64 bits, and two workers with \<open>2^63\<close> columns each end with none.\<close>

lemma SynchronizeNumberOfColumns_row:
  assumes "SynchronizeNumberOfColumns others r m kRow = (mode, m')"
  shows "mode = kRow \<and> num_col m \<le> num_col m' \<and> (\<forall>v \<in> set others. v \<le> num_col m') \<and>
    m' = m\<lparr>num_col := num_col m'\<rparr>"
proof -
  define vs where "vs = take r others @ num_col m # drop r others"
  have m': "m' = m\<lparr>num_col := fold max vs 0\<rparr>" and mode: "mode = kRow"
    using assms by (auto simp: SynchronizeNumberOfColumns_def vs_def)
  have ge: "v \<le> num_col m'" if "v \<in> set vs" for v
    using fold_max_ge [of v vs id 0] that m' by simp
  have "set others \<subseteq> set vs"
    unfolding vs_def by (metis append_take_drop_id set_append set_subset_Cons Un_mono subset_refl)
  then show ?thesis using ge m' mode by (auto simp: vs_def)
qed

lemma SynchronizeNumberOfColumns_col_wraps:
  "SynchronizeNumberOfColumns [2 ^ 63] 1 (meta_default\<lparr>num_col := 2 ^ 63\<rparr>) kCol =
     (kCol, meta_default)"
  by (simp add: SynchronizeNumberOfColumns_def meta_default_def)

end
