(* ===== verification/DMatrix_Factory.thy ===== *)
theory DMatrix_Factory
  imports Adapter_Batch Meta_Ops
begin

text \<open>
  The \<open>DMatrix\<close> factories of \<open>src/src/data/data.cc\<close>: \<open>TryLoadBinary\<close> and
  \<open>DMatrix::Load\<close>, which recognise a binary \<open>SimpleDMatrix\<close> file by its magic number,
  and \<open>DMatrix::Create(adapter, missing, nthread)\<close>, which builds a \<open>SimpleDMatrix\<close> from
  an adapter. \<open>SimpleDMatrix\<close> itself (\<open>simple_dmatrix.cc\<close>) is outside \<open>src/\<close>; its
  stream constructor, its binary writer and its adapter constructor are modelled from
  their contracts: the magic number, the \<open>MetaInfo\<close> record, then the page's offsets and
  entries, whose reads the constructor does not check; the adapter constructor appends
  the batch to a cleared page with \<open>SparsePage::Push(batch)\<close> and records the counts. The
  file system is a map from names to token streams, \<open>None\<close> where the file cannot be
  opened; the text parser of the deprecated text path belongs to dmlc-core and is
  represented by its input name.
\<close>

record dmatrix =
  dm_info :: meta_info
  dm_page :: sparse_page

datatype dmatrix_error =
    TextExternalMemory
  | InvalidInputFormat
  | MagicMismatch
  | DMatrixInfo meta_error
  | DMatrixPush push_error

type_synonym file_system = "string \<Rightarrow> stream option"

text \<open>\<open>SimpleDMatrix::kMagic\<close>, \<open>0xffffab01\<close> read as a 32-bit signed integer.\<close>

definition kMagic :: int where
  "kMagic = - 21759"

text \<open>A cleared \<open>SparsePage\<close>: one offset, no entries.\<close>

definition page_clear :: sparse_page where
  "page_clear = \<lparr>offset = [0], data = [], base_rowid = 0\<rparr>"

text \<open>\<open>SimpleDMatrix(dmlc::Stream*)\<close>: \<open>CHECK(Read(&tmagic))\<close>, \<open>CHECK_EQ(tmagic, kMagic)\<close>,
  \<open>info_.LoadBinary\<close>, then the two unchecked reads of the page.\<close>

definition SimpleDMatrix_Load :: "stream \<Rightarrow> dmatrix_error + dmatrix" where
  "SimpleDMatrix_Load s =
     (case read_tok as_i32 s of
        None \<Rightarrow> Inl InvalidInputFormat
      | Some (tmagic, s1) \<Rightarrow>
          if tmagic \<noteq> kMagic then Inl MagicMismatch
          else (case LoadBinary meta_default s1 of
                  Inl e \<Rightarrow> Inl (DMatrixInfo e)
                | Inr (info, s2) \<Rightarrow>
                    (let (off, s3) = (case read_tok as_u64s s2 of
                                        None \<Rightarrow> ([0], s2)
                                      | Some (xs, s3) \<Rightarrow> (map unat xs, s3));
                         dat = (case read_tok as_entries s3 of None \<Rightarrow> [] | Some (es, _) \<Rightarrow> es)
                     in Inr \<lparr>dm_info = info, dm_page = page_clear\<lparr>offset := off, data := dat\<rparr>\<rparr>)))"

text \<open>\<open>SimpleDMatrix::SaveToLocalFile\<close>: the magic number, \<open>info_.SaveBinary\<close>, the offsets
  and the entries.\<close>

definition SimpleDMatrix_Save :: "version \<Rightarrow> dmatrix \<Rightarrow> meta_error + stream" where
  "SimpleDMatrix_Save v dm =
     err_bind (SaveBinary v (dm_info dm)) (\<lambda>s.
       Inr ([DI32 kMagic] @ s @ [DU64s (map of_nat (offset (dm_page dm))), DEntries (data (dm_page dm))]))"

text \<open>\<open>TryLoadBinary(fname, silent)\<close>: no matrix when the file cannot be opened, when the
  first value cannot be peeked as a 32-bit integer, or when it is not the magic number;
  otherwise the stream constructor, reading from the start (the peek does not consume).\<close>

definition TryLoadBinary :: "file_system \<Rightarrow> string \<Rightarrow> dmatrix_error + dmatrix option" where
  "TryLoadBinary files fname =
     (case files fname of
        None \<Rightarrow> Inr None
      | Some s \<Rightarrow>
          (case read_tok as_i32 s of
             None \<Rightarrow> Inr None
           | Some (magic, _) \<Rightarrow>
               if magic = kMagic then map_sum id Some (SimpleDMatrix_Load s) else Inr None))"

text \<open>What \<open>DMatrix::Load\<close> returns: the binary matrix, or the text file handed to the
  parser after the deprecation warning.\<close>

datatype load_result = LoadedBinary dmatrix | TextFile string

definition DMatrix_Load :: "file_system \<Rightarrow> string \<Rightarrow> dmatrix_error + load_result" where
  "DMatrix_Load files uri =
     (if CHR ''#'' \<in> set uri then Inl TextExternalMemory
      else (case TryLoadBinary files uri of
              Inl e \<Rightarrow> Inl e
            | Inr (Some d) \<Rightarrow> Inr (LoadedBinary d)
            | Inr None \<Rightarrow> Inr (TextFile uri)))"

text \<open>\<open>SimpleDMatrix(adapter, missing, nthread)\<close>: the batch pushed into a cleared page;
  the row count is the page's, the column count the one the push reports, the non-zero
  count the number of entries.\<close>

definition SimpleDMatrix_FromAdapter :: "adapter_batch \<Rightarrow> f32 \<Rightarrow> nat \<Rightarrow> dmatrix_error + dmatrix" where
  "SimpleDMatrix_FromAdapter b missing nthread =
     (case PushBatch page_clear b missing nthread of
        Inl e \<Rightarrow> Inl (DMatrixPush e)
      | Inr (p, mcs) \<Rightarrow>
          Inr \<lparr>dm_info = meta_default\<lparr>num_row := of_nat (Size p), num_col := mcs,
                                      num_nonzero := of_nat (length (data p))\<rparr>,
               dm_page = p\<rparr>)"

text \<open>\<open>DMatrix::Create(adapter, missing, nthread, cache_prefix, data_split_mode)\<close>.\<close>

definition DMatrix_Create :: "adapter_batch \<Rightarrow> f32 \<Rightarrow> nat \<Rightarrow> dmatrix_error + dmatrix" where
  "DMatrix_Create b missing nthread = SimpleDMatrix_FromAdapter b missing nthread"

text \<open>A one-row matrix with the example \<open>MetaInfo\<close>.\<close>

definition dm_example :: dmatrix where
  "dm_example = \<lparr>dm_info = meta_example, dm_page = \<lparr>offset = [0, 1], data = [entry0], base_rowid = 0\<rparr>\<rparr>"

declare kMagic_def [model_defs] page_clear_def [model_defs] SimpleDMatrix_Load_def [model_defs]
  SimpleDMatrix_Save_def [model_defs] TryLoadBinary_def [model_defs] DMatrix_Load_def [model_defs]
  SimpleDMatrix_FromAdapter_def [model_defs] DMatrix_Create_def [model_defs]

subsection \<open>Loading\<close>

lemma read_tok_Cons [simp]: "read_tok f (d # s) = map_option (\<lambda>x. (x, s)) (f d)"
  by (simp add: read_tok_def)

lemma unat_of_nat_offsets: "\<forall>x \<in> set xs. x < 2 ^ 64 \<Longrightarrow> map (unat \<circ> (of_nat :: nat \<Rightarrow> 64 word)) xs = xs"
  by (induction xs) (simp_all add: unat_of_nat)

lemma SimpleDMatrix_Save_eq:
  "SimpleDMatrix_Save v dm =
     Inr ([DI32 kMagic] @ Version_Save v @ [DU64 kNumField] @ concat (save_fields (dm_info dm)) @
          [DU64s (map of_nat (offset (dm_page dm))), DEntries (data (dm_page dm))])"
  by (simp add: SimpleDMatrix_Save_def SaveBinary_eq)

lemma SimpleDMatrix_Load_saved:
  assumes "3 \<le> fst v" and "1 \<le> fst (snd v)" and "wf_meta (dm_info dm)"
    and "base_rowid (dm_page dm) = 0" and "\<forall>x \<in> set (offset (dm_page dm)). x < 2 ^ 64"
    and "SimpleDMatrix_Save v dm = Inr s"
  shows "SimpleDMatrix_Load s = Inr dm"
proof -
  obtain major minor patch where v: "v = (major, minor, patch)" by (cases v) auto
  have s: "s = [DI32 kMagic] @ Version_Save v @ [DU64 kNumField] @ concat (save_fields (dm_info dm)) @
          [DU64s (map of_nat (offset (dm_page dm))), DEntries (data (dm_page dm))]"
    using assms(6) by (simp add: SimpleDMatrix_Save_eq)
  have ld: "LoadBinary meta_default (Version_Save v @ [DU64 kNumField] @ concat (save_fields (dm_info dm)) @
          [DU64s (map of_nat (offset (dm_page dm))), DEntries (data (dm_page dm))]) =
        Inr (dm_info dm, [DU64s (map of_nat (offset (dm_page dm))), DEntries (data (dm_page dm))])"
    using LoadBinary_saved_stream [of major minor "dm_info dm" meta_default patch] assms(1-3) v by simp
  show ?thesis
    using ld assms(4,5) unfolding s
    by (cases dm, cases "dm_page dm")
       (simp add: SimpleDMatrix_Load_def page_clear_def unat_of_nat_offsets)
qed

text \<open>C28: a matrix saved in the binary format with a supported version, a well-formed MetaInfo and 64-bit offsets is loaded back by \<open>DMatrix::Load\<close> as the same matrix.\<close>

theorem DMatrix_Load_SimpleDMatrix_Save:
  assumes "3 \<le> fst v" and "1 \<le> fst (snd v)" and "wf_meta (dm_info dm)"
    and "base_rowid (dm_page dm) = 0" and "\<forall>x \<in> set (offset (dm_page dm)). x < 2 ^ 64"
    and "CHR ''#'' \<notin> set fname"
  shows "\<exists>s. SimpleDMatrix_Save v dm = Inr s \<and> DMatrix_Load (files(fname \<mapsto> s)) fname = Inr (LoadedBinary dm)"
proof -
  let ?s = "[DI32 kMagic] @ Version_Save v @ [DU64 kNumField] @ concat (save_fields (dm_info dm)) @
          [DU64s (map of_nat (offset (dm_page dm))), DEntries (data (dm_page dm))]"
  have sv: "SimpleDMatrix_Save v dm = Inr ?s" by (simp add: SimpleDMatrix_Save_eq)
  have "SimpleDMatrix_Load ?s = Inr dm" using SimpleDMatrix_Load_saved [OF assms(1-5) sv] .
  then show ?thesis using sv assms(6) by (simp add: DMatrix_Load_def TryLoadBinary_def)
qed


text \<open>C29: a file that starts with the magic number but holds a MetaInfo \<open>LoadBinary\<close> rejects fails with that error instead of falling back to the text parser.\<close>

theorem DMatrix_Load_corrupt_info:
  assumes "CHR ''#'' \<notin> set fname" and "files fname = Some (DI32 kMagic # s)"
    and "LoadBinary meta_default s = Inl e"
  shows "DMatrix_Load files fname = Inl (DMatrixInfo e)"
  using assms by (simp add: DMatrix_Load_def TryLoadBinary_def SimpleDMatrix_Load_def)

lemma DMatrix_Load_SimpleDMatrix_Save_witness:
  "\<exists>s. SimpleDMatrix_Save (3, 1, 0) dm_example = Inr s \<and>
       DMatrix_Load ((\<lambda>_. None)(''train.buffer'' \<mapsto> s)) ''train.buffer'' = Inr (LoadedBinary dm_example)"
proof -
  have "wf_meta (dm_info dm_example)" using wf_meta_example by (simp add: dm_example_def)
  then show ?thesis
    using DMatrix_Load_SimpleDMatrix_Save [where v = "(3, 1, 0)" and dm = dm_example
            and fname = "''train.buffer''" and files = "\<lambda>_. None"]
    by (simp add: dm_example_def)
qed

lemma DMatrix_Load_corrupt_info_witness:
  "DMatrix_Load [''train.buffer'' \<mapsto> [DI32 kMagic]] ''train.buffer'' =
     Inl (DMatrixInfo BadVersionFormat)"
proof -
  have "LoadBinary meta_default [] = Inl BadVersionFormat"
    by (simp add: LoadBinary_def Version_Load_def)
  moreover have "CHR ''#'' \<notin> set ''train.buffer''" by simp
  ultimately show ?thesis
    using DMatrix_Load_corrupt_info [where fname = "''train.buffer''"
            and files = "[''train.buffer'' \<mapsto> [DI32 kMagic]]" and s = "[]" and e = BadVersionFormat]
    by simp
qed

end
