(* ===== verification/Proxy_DMatrix.thy ===== *)
theory Proxy_DMatrix
  imports DMatrix_Factory Meta_Host
begin

text \<open>
  \<open>DMatrixProxy\<close> of \<open>src/src/data/proxy_dmatrix.cc\<close>, in a build without CUDA: the
  setters \<open>SetColumnar\<close>, \<open>SetArray\<close>, \<open>SetCsr\<close>, which wrap the input in a host adapter,
  copy its shape into the proxy's \<open>MetaInfo\<close> and select the CPU, the CUDA setters, which
  fail with \<open>AssertGPUSupport\<close>, and \<open>CreateDMatrixFromProxy\<close>, which dispatches on the
  adapter to \<open>DMatrix::Create\<close> and then replaces the new matrix's \<open>MetaInfo\<close> by a
  \<open>Copy\<close> of the proxy's. The adapters (\<open>ColumnarAdapter\<close>, \<open>ArrayAdapter\<close>,
  \<open>CSRArrayAdapter\<close>, in \<open>adapter.h\<close>) and \<open>HostAdapterDispatch\<close> (\<open>proxy_dmatrix.h\<close>) are
  outside \<open>src/\<close>: an adapter is its parsed batch and its shape, and the dispatch calls
  the function on a host adapter and reports a type error (the null result) otherwise.
  The proxy's reachable states are those of a sequence of setter calls and of
  \<open>SetInfo\<close> calls, of any key, on its \<open>MetaInfo\<close> (\<open>Meta_Host\<close>).
\<close>

datatype device = DeviceCPU | DeviceCUDA

text \<open>An adapter over an array interface: the batch it yields and the shape it reports.\<close>

record array_interface =
  ai_batch :: adapter_batch
  ai_rows :: "64 word"
  ai_cols :: "64 word"

datatype host_adapter =
    ColumnarAdapter array_interface
  | ArrayAdapter array_interface
  | CSRArrayAdapter array_interface "32 word"

fun adapter_batch_of :: "host_adapter \<Rightarrow> adapter_batch" where
  "adapter_batch_of (ColumnarAdapter ai) = ai_batch ai"
| "adapter_batch_of (ArrayAdapter ai) = ai_batch ai"
| "adapter_batch_of (CSRArrayAdapter ai _) = ai_batch ai"

text \<open>\<open>NumColumns()\<close> and \<open>NumRows()\<close>; a CSR adapter reports the \<open>n_features\<close> it was
  given.\<close>

fun NumColumns :: "host_adapter \<Rightarrow> 64 word" where
  "NumColumns (ColumnarAdapter ai) = ai_cols ai"
| "NumColumns (ArrayAdapter ai) = ai_cols ai"
| "NumColumns (CSRArrayAdapter _ n_features) = ucast n_features"

fun NumRows :: "host_adapter \<Rightarrow> 64 word" where
  "NumRows (ColumnarAdapter ai) = ai_rows ai"
| "NumRows (ArrayAdapter ai) = ai_rows ai"
| "NumRows (CSRArrayAdapter ai _) = ai_rows ai"

text \<open>The proxy: its \<open>batch_\<close>, its \<open>MetaInfo\<close> and the device of its \<open>ctx_\<close>.\<close>

record proxy =
  batch :: "host_adapter option"
  pinfo :: meta_info
  pdevice :: device

definition proxy_init :: proxy where
  "proxy_init = \<lparr>batch = None, pinfo = meta_default, pdevice = DeviceCPU\<rparr>"

datatype proxy_error =
    NotImplementedOnDevice
  | NoGPUSupport
  | FailedToFallback
  | ProxyCreate dmatrix_error
  | ProxyInfo info_error

definition SetColumnar :: "array_interface \<Rightarrow> proxy \<Rightarrow> proxy" where
  "SetColumnar d p =
     (let adapter = ColumnarAdapter d in
      p\<lparr>batch := Some adapter,
        pinfo := (pinfo p)\<lparr>num_col := NumColumns adapter, num_row := NumRows adapter\<rparr>,
        pdevice := DeviceCPU\<rparr>)"

definition SetArray :: "array_interface \<Rightarrow> proxy \<Rightarrow> proxy" where
  "SetArray d p =
     (let adapter = ArrayAdapter d in
      p\<lparr>batch := Some adapter,
        pinfo := (pinfo p)\<lparr>num_col := NumColumns adapter, num_row := NumRows adapter\<rparr>,
        pdevice := DeviceCPU\<rparr>)"

text \<open>\<open>SetCsr(indptr, indices, values, n_features, on_host)\<close>: \<open>CHECK(on_host)\<close>.\<close>

definition SetCsr :: "array_interface \<Rightarrow> 32 word \<Rightarrow> bool \<Rightarrow> proxy \<Rightarrow> proxy_error + proxy" where
  "SetCsr d n_features on_host p =
     (if \<not> on_host then Inl NotImplementedOnDevice
      else (let adapter = CSRArrayAdapter d n_features in
            Inr (p\<lparr>batch := Some adapter,
                   pinfo := (pinfo p)\<lparr>num_col := NumColumns adapter, num_row := NumRows adapter\<rparr>,
                   pdevice := DeviceCPU\<rparr>)))"

text \<open>\<open>SetCudaArray\<close> and \<open>SetCudaColumnar\<close> without CUDA: \<open>AssertGPUSupport()\<close>.\<close>

definition SetCudaArray :: "array_interface \<Rightarrow> proxy \<Rightarrow> proxy_error + proxy" where
  "SetCudaArray d p = Inl NoGPUSupport"

definition SetCudaColumnar :: "array_interface \<Rightarrow> proxy \<Rightarrow> proxy_error + proxy" where
  "SetCudaColumnar d p = Inl NoGPUSupport"

text \<open>\<open>cuda_impl::CreateDMatrixFromProxy\<close> without CUDA returns \<open>nullptr\<close>.\<close>

definition cuda_CreateDMatrixFromProxy :: "nat \<Rightarrow> proxy \<Rightarrow> f32 \<Rightarrow> (dmatrix_error + dmatrix) option" where
  "cuda_CreateDMatrixFromProxy nthread p missing = None"

text \<open>\<open>HostAdapterDispatch<false>(proxy, fn, &type_error)\<close>: \<open>fn(adapter)\<close> on a host
  adapter; otherwise \<open>type_error\<close> is set and the result is null.\<close>

definition HostAdapterDispatch :: "proxy \<Rightarrow> (host_adapter \<Rightarrow> 'r) \<Rightarrow> 'r option" where
  "HostAdapterDispatch p f = map_option f (batch p)"

text \<open>\<open>CreateDMatrixFromProxy(ctx, proxy, missing)\<close>, \<open>nthread\<close> being
  \<open>ctx->Threads()\<close>: \<open>CHECK(p_fmat) << "Failed to fallback."\<close>, then
  \<open>p_fmat->Info() = proxy->Info().Copy()\<close>.\<close>

definition CreateDMatrixFromProxy :: "nat \<Rightarrow> proxy \<Rightarrow> f32 \<Rightarrow> proxy_error + dmatrix" where
  "CreateDMatrixFromProxy nthread p missing =
     (let p_fmat =
        (if pdevice p = DeviceCUDA then cuda_CreateDMatrixFromProxy nthread p missing
         else HostAdapterDispatch p (\<lambda>adapter. DMatrix_Create (adapter_batch_of adapter) missing nthread))
      in case p_fmat of
           None \<Rightarrow> Inl FailedToFallback
         | Some (Inl e) \<Rightarrow> Inl (ProxyCreate e)
         | Some (Inr fmat) \<Rightarrow>
             (case Copy (pinfo p) of
                Inl e \<Rightarrow> Inl (ProxyInfo e)
              | Inr info \<Rightarrow> Inr (fmat\<lparr>dm_info := info\<rparr>)))"

text \<open>The proxy's states: the setters that succeed and \<open>SetInfo\<close> on its \<open>MetaInfo\<close>.\<close>

inductive proxy_reach :: "proxy \<Rightarrow> bool" where
  init: "proxy_reach proxy_init"
| columnar: "proxy_reach p \<Longrightarrow> proxy_reach (SetColumnar d p)"
| array: "proxy_reach p \<Longrightarrow> proxy_reach (SetArray d p)"
| csr: "proxy_reach p \<Longrightarrow> SetCsr d n on_host p = Inr p' \<Longrightarrow> proxy_reach p'"
| info: "proxy_reach p \<Longrightarrow> SetInfo (pinfo p) key j = Inr m \<Longrightarrow> proxy_reach (p\<lparr>pinfo := m\<rparr>)"

text \<open>What every reachable proxy satisfies: it is on the CPU, its \<open>MetaInfo\<close> is
  well-formed with no non-zero count and no categories, and the shape of its adapter is
  the shape in its \<open>MetaInfo\<close>.\<close>

definition proxy_inv :: "proxy \<Rightarrow> bool" where
  "proxy_inv p \<longleftrightarrow>
     pdevice p = DeviceCPU \<and> wf_meta (pinfo p) \<and> num_nonzero (pinfo p) = 0 \<and> cats (pinfo p) = [] \<and>
     (case batch p of
        None \<Rightarrow> True
      | Some a \<Rightarrow> num_row (pinfo p) = NumRows a \<and> num_col (pinfo p) = NumColumns a)"

text \<open>An array adapter with three columns and no rows.\<close>

definition ai_example :: array_interface where
  "ai_example = \<lparr>ai_batch = \<lparr>kIsRowMajor = True, lines = []\<rparr>, ai_rows = 0, ai_cols = 3\<rparr>"

text \<open>A one-label host array, as \<open>SetInfo(ctx, "label", ...)\<close> receives it.\<close>

definition label_desc :: array_desc where
  "label_desc = \<lparr>desc_stream = False, desc_array = FloatArray \<lparr>arr_shape = [1, 1], arr_data = [Fin 1],
     arr_masked = False, arr_cuda = False\<rparr>\<rparr>"

declare adapter_batch_of.simps [model_defs] NumColumns.simps [model_defs] NumRows.simps [model_defs]
  proxy_init_def [model_defs] SetColumnar_def [model_defs] SetArray_def [model_defs]
  SetCsr_def [model_defs] SetCudaArray_def [model_defs] SetCudaColumnar_def [model_defs]
  cuda_CreateDMatrixFromProxy_def [model_defs] HostAdapterDispatch_def [model_defs]
  CreateDMatrixFromProxy_def [model_defs]

subsection \<open>Properties\<close>

lemma proxy_inv_init: "proxy_inv proxy_init"
  by (simp add: proxy_inv_def proxy_init_def meta_default_def wf_meta_def empty_tensor_def
                LoadFeatureType_Nil)

lemma proxy_inv_set:
  "proxy_inv p \<Longrightarrow>
   proxy_inv (p\<lparr>batch := Some a, pinfo := (pinfo p)\<lparr>num_col := NumColumns a, num_row := NumRows a\<rparr>,
               pdevice := DeviceCPU\<rparr>)"
  by (simp add: proxy_inv_def wf_meta_def empty_tensor_def)

lemma proxy_inv_info:
  "proxy_inv p \<Longrightarrow> SetInfo (pinfo p) key j = Inr m \<Longrightarrow> proxy_inv (p\<lparr>pinfo := m\<rparr>)"
  by (drule SetInfo_frame) (simp add: proxy_inv_def split: option.splits)

text \<open>C31: every proxy reachable by the setters and by \<open>SetInfo\<close> of any key is on the CPU, has a well-formed MetaInfo with no non-zero count and no categories, and holds the shape of its adapter in its MetaInfo.\<close>

theorem proxy_reach_inv: "proxy_reach p \<Longrightarrow> proxy_inv p"
proof (induction rule: proxy_reach.induct)
  case (csr p d n on_host p')
  then show ?case
    using proxy_inv_set [of p "CSRArrayAdapter d n"] by (auto simp: SetCsr_def split: if_splits)
next
  case (info p key j m)
  then show ?case using proxy_inv_info by blast
next
  case (columnar p d)
  then show ?case using proxy_inv_set [of p "ColumnarAdapter d"] by (simp add: SetColumnar_def)
next
  case (array p d)
  then show ?case using proxy_inv_set [of p "ArrayAdapter d"] by (simp add: SetArray_def)
qed (rule proxy_inv_init)

text \<open>C32: from a reachable proxy with an adapter whose push succeeds and with labels and base margin that are either non-empty or default, \<open>CreateDMatrixFromProxy\<close> returns the pushed page with the proxy's MetaInfo, labels and weights set on the proxy included: the adapter's shape and a non-zero count of 0, whatever the page holds.\<close>

theorem CreateDMatrixFromProxy_reach:
  assumes "proxy_reach p" and "batch p = Some a"
    and "PushBatch page_clear (adapter_batch_of a) missing nthread = Inr (pg, mcs)"
    and "tdata (labels (pinfo p)) \<noteq> [] \<or> labels (pinfo p) = empty_tensor"
    and "tdata (base_margin (pinfo p)) \<noteq> [] \<or> base_margin (pinfo p) = empty_tensor"
  shows "CreateDMatrixFromProxy nthread p missing = Inr \<lparr>dm_info = pinfo p, dm_page = pg\<rparr> \<and>
         num_row (pinfo p) = NumRows a \<and> num_col (pinfo p) = NumColumns a \<and> num_nonzero (pinfo p) = 0"
proof -
  have inv: "proxy_inv p" using proxy_reach_inv [OF assms(1)] .
  then have cp: "Copy (pinfo p) = Inr (pinfo p)"
    using Copy_canonical [of "pinfo p"] assms(4,5) by (simp add: proxy_inv_def)
  show ?thesis
    using inv cp assms(2,3)
    by (simp add: proxy_inv_def CreateDMatrixFromProxy_def HostAdapterDispatch_def DMatrix_Create_def
                  SimpleDMatrix_FromAdapter_def)
qed

theorem CreateDMatrixFromProxy_no_batch:
  "batch p = None \<Longrightarrow> CreateDMatrixFromProxy nthread p missing = Inl FailedToFallback"
  by (simp add: CreateDMatrixFromProxy_def HostAdapterDispatch_def cuda_CreateDMatrixFromProxy_def)

lemma proxy_reach_inv_witness:
  "proxy_reach (SetArray ai_example proxy_init) \<and> proxy_inv (SetArray ai_example proxy_init)"
proof -
  have r: "proxy_reach (SetArray ai_example proxy_init)" by (rule proxy_reach.array [OF proxy_reach.init])
  show ?thesis using proxy_reach_inv [OF r] r by blast
qed

lemma CreateDMatrixFromProxy_reach_witness:
  "CreateDMatrixFromProxy 1
     (SetArray ai_example (proxy_init\<lparr>pinfo := meta_default\<lparr>labels := \<lparr>tshape = [1, 1], tdata = [Fin 1]\<rparr>\<rparr>\<rparr>)) (Fin 0) =
     Inr \<lparr>dm_info = meta_default\<lparr>labels := \<lparr>tshape = [1, 1], tdata = [Fin 1]\<rparr>, num_col := 3, num_row := 0\<rparr>,
          dm_page = page_clear\<rparr>"
proof -
  let ?m = "meta_default\<lparr>labels := \<lparr>tshape = [1, 1], tdata = [Fin 1]\<rparr>\<rparr>"
  let ?p = "SetArray ai_example (proxy_init\<lparr>pinfo := ?m\<rparr>)"
  have si: "SetInfo (pinfo proxy_init) ''label'' (JObject label_desc) = Inr ?m"
    by (simp add: SetInfo_def SetInfoFromHost_def CopyTensorInfoImpl_def label_desc_def arr_n_def
                  proxy_init_def reshape_rows_def meta_default_def LabelsCheck_def)
  have r: "proxy_reach ?p"
    by (rule proxy_reach.array [OF proxy_reach.info [OF proxy_reach.init si]])
  have b: "batch ?p = Some (ArrayAdapter ai_example)" by (simp add: SetArray_def)
  have pb: "PushBatch page_clear (adapter_batch_of (ArrayAdapter ai_example)) (Fin 0) 1 = Inr (page_clear, 0)"
    by (simp add: PushBatch_def ai_example_def BatchSize_def)
  have lab: "tdata (labels (pinfo ?p)) \<noteq> [] \<or> labels (pinfo ?p) = empty_tensor"
    by (simp add: SetArray_def)
  have bm: "tdata (base_margin (pinfo ?p)) \<noteq> [] \<or> base_margin (pinfo ?p) = empty_tensor"
    by (simp add: SetArray_def meta_default_def)
  show ?thesis
    using CreateDMatrixFromProxy_reach [OF r b pb lab bm] by (simp add: SetArray_def ai_example_def)
qed

lemma CreateDMatrixFromProxy_no_batch_witness:
  "CreateDMatrixFromProxy 1 proxy_init (Fin 0) = Inl FailedToFallback"
  using CreateDMatrixFromProxy_no_batch [of proxy_init 1 "Fin 0"] by (simp add: proxy_init_def)

end
