(* ===== verification/Cuda_Dr_Utils.thy ===== *)
theory Cuda_Dr_Utils
  imports Prelude "HOL-Library.While_Combinator"
begin

text \<open>
  The CUDA driver utilities of \<open>src/src/common/cuda_dr_utils.cc\<close>: the parse of
  \<open>nvidia-smi\<close> output for the driver version (\<open>GetVersionFromSmi\<close>) and for the
  chip-to-chip link count (\<open>GetC2cLinkCountFromSmiImpl\<close>), the selection of the driver
  entry points in the constructor of \<open>CuDriverApi\<close>, the error message of
  \<open>ThrowIfError\<close>, the memory-location helpers, and the three process-wide caches
  guarded by \<open>std::call_once\<close>. The outside world (the text a shell command prints, the
  number of visible GPUs, the runtime's driver version, which driver entry points
  resolve, the current device and its host NUMA node, the driver's error names) is an
  explicit environment record; the caches are an explicit state passed from call to call.
  The string helpers \<open>Split\<close>, \<open>TrimFirst\<close>, \<open>TrimLast\<close> (\<open>common.h\<close>) and
  \<open>std::from_chars\<close> are outside \<open>src/\<close> and modelled from their contracts; the digit
  loop of \<open>from_chars\<close> is a \<open>while_option\<close>, so a parse that did not stop would be
  \<open>None\<close>. The reachable cache states (\<open>cudr_reach\<close>) carry the invariant
  \<open>cudr_inv\<close>; the lemmas show the parse bounds and round trip, the constructor's
  outcome, termination of every call, the liveness of the once-initialisation and the
  error path of \<open>MakeCuMemLocation\<close>.
\<close>

subsection \<open>String helpers\<close>

definition is_space :: "char \<Rightarrow> bool" where
  "is_space c \<longleftrightarrow> of_char c = (32::nat) \<or> (9 \<le> (of_char c :: nat) \<and> (of_char c :: nat) \<le> 13)"

definition TrimFirst :: "string \<Rightarrow> string" where
  "TrimFirst s = dropWhile is_space s"

definition TrimLast :: "string \<Rightarrow> string" where
  "TrimLast s = rev (dropWhile is_space (rev s))"

text \<open>\<open>common::Split\<close>: the pieces \<open>std::getline\<close> reads up to each delimiter; a final
  delimiter does not start an empty piece.\<close>

function Split :: "string \<Rightarrow> char \<Rightarrow> string list" where
  "Split s delim =
     (if s = [] then []
      else takeWhile (\<lambda>c. c \<noteq> delim) s # Split (drop 1 (dropWhile (\<lambda>c. c \<noteq> delim) s)) delim)"
  by pat_completeness auto
termination
proof (relation "measure (\<lambda>(s, d). length s)")
  fix s :: string and delim :: char
  assume "s \<noteq> []"
  then show "((drop 1 (dropWhile (\<lambda>c. c \<noteq> delim) s), delim), s, delim) \<in> measure (\<lambda>(s, d). length s)"
    using length_dropWhile_le [of "\<lambda>c. c \<noteq> delim" s] by (cases s) auto
qed simp

declare Split.simps [simp del]

definition is_digit :: "char \<Rightarrow> bool" where
  "is_digit c \<longleftrightarrow> 48 \<le> (of_char c :: nat) \<and> (of_char c :: nat) \<le> 57"

definition digit_value :: "char \<Rightarrow> int" where
  "digit_value c = int (of_char c) - 48"

text \<open>The digit loop of \<open>std::from_chars\<close>: it consumes digits while there are some.\<close>

definition digits_loop :: "string \<Rightarrow> (string \<times> int) option" where
  "digits_loop s =
     while_option (\<lambda>(r, acc). r \<noteq> [] \<and> is_digit (hd r))
       (\<lambda>(r, acc). (tl r, 10 * acc + digit_value (hd r))) (s, 0)"

datatype fc_result = FcOk int | FcInvalid | FcRange

text \<open>\<open>std::from_chars(first, last, int32_t&)\<close>: an optional minus sign and at least one
  digit; a value outside \<open>int32_t\<close> is \<open>result_out_of_range\<close>. The characters after the
  digits are not looked at (the caller ignores the returned pointer).\<close>

definition from_chars :: "string \<Rightarrow> fc_result option" where
  "from_chars s =
     (let (neg, s1) = (if s \<noteq> [] \<and> hd s = CHR ''-'' then (True, tl s) else (False, s)) in
      map_option (\<lambda>(rest, v).
          if length rest = length s1 then FcInvalid
          else (let v' = (if neg then - v else v) in
                if v' < - (2 ^ 31) \<or> 2 ^ 31 \<le> v' then FcRange else FcOk v'))
        (digits_loop s1))"

subsection \<open>Parsing \<open>nvidia-smi\<close> output\<close>

text \<open>\<open>GetVersionFromSmi\<close> on the text \<open>CmdOutput\<close> returned: \<open>(result, major, minor)\<close>;
  \<open>Invalid()\<close> is \<open>(false, -1, -1)\<close>. The version is read from the second line, the first
  GPU's, after leading white space; it must have two or three dot-separated parts.\<close>

definition GetVersionFromSmi :: "string \<Rightarrow> (bool \<times> int \<times> int) option" where
  "GetVersionFromSmi smi_out_str =
     (let Invalid = Some (False, -1, -1) in
      if smi_out_str = [] then Invalid
      else
        (let smi_split = Split smi_out_str (CHR ''\<newline>'') in
         if length smi_split < 2 then Invalid
         else
           (let smi_ver = Split (TrimFirst (smi_split ! 1)) (CHR ''.'') in
            if length smi_ver \<noteq> 2 \<and> length smi_ver \<noteq> 3 then Invalid
            else
              (case (from_chars (smi_ver ! 0), from_chars (smi_ver ! 1)) of
                 (Some (FcOk major), Some (FcOk minor)) \<Rightarrow> Some (True, major, minor)
               | (Some _, Some _) \<Rightarrow> Invalid
               | _ \<Rightarrow> None))))"

text \<open>\<open>detail::GetC2cLinkCountFromSmiImpl\<close>: the lines after the first, once the output is
  trimmed at both ends; \<open>-1\<close> if there are none. The count is narrowed to \<open>int32_t\<close>.\<close>

definition GetC2cLinkCountFromSmiImpl :: "string \<Rightarrow> int" where
  "GetC2cLinkCountFromSmiImpl smi_output =
     (let lines = Split (TrimLast (TrimFirst smi_output)) (CHR ''\<newline>'') in
      if length lines \<le> 1 then -1 else sint (of_nat (length lines - 1) :: 32 word))"

subsection \<open>The environment\<close>

record cuda_env =
  cmd_output :: "string \<Rightarrow> string"
  visible_gpus :: int
  dr_version :: "int \<times> int"
  entry_point_ok :: "string \<Rightarrow> bool"
  current_device :: int
  device_get_status :: int
  host_numa_id :: "int \<times> int"
  error_name :: "int \<Rightarrow> string option"
  error_string :: "int \<Rightarrow> string option"

definition smi_version_cmd :: string where
  "smi_version_cmd = ''nvidia-smi --query-gpu=driver_version --format=csv''"

definition smi_c2c_cmd :: string where
  "smi_c2c_cmd = ''nvidia-smi c2c -s -i 0''"

definition GetC2cLinkCountFromSmi :: "cuda_env \<Rightarrow> int" where
  "GetC2cLinkCountFromSmi env =
     (if visible_gpus env < 1 then -1 else GetC2cLinkCountFromSmiImpl (cmd_output env smi_c2c_cmd))"

subsection \<open>The driver API\<close>

datatype cudr_error = EntryPointFailed string | CudaDriverError string

text \<open>The resolved entry points, in the order they are loaded, and whether the
  decompression entry point is among them.\<close>

record cu_driver_api =
  loaded :: "string list"
  decompress :: bool

definition driver_entry_points :: "string list" where
  "driver_entry_points =
     [''cuMemGetAllocationGranularity'', ''cuMemCreate'', ''cuMemMap'', ''cuMemAddressReserve'',
      ''cuMemSetAccess'', ''cuMemUnmap'', ''cuMemRelease'', ''cuMemAddressFree'',
      ''cuGetErrorString'', ''cuGetErrorName'', ''cuDeviceGetAttribute'', ''cuDeviceGet'']"

text \<open>\<open>safe_load\<close>: the entry point must resolve, else a \<open>CHECK\<close> fails with its name.\<close>

definition safe_load :: "cuda_env \<Rightarrow> string \<Rightarrow> string list \<Rightarrow> cudr_error + string list" where
  "safe_load env name acc =
     (if entry_point_ok env name then Inr (acc @ [name]) else Inl (EntryPointFailed name))"

text \<open>\<open>CuDriverApi(cu_major, cu_minor, kdm_major)\<close>; \<open>hw_decom\<close> is the build flag
  \<open>CUDA_HW_DECOM_AVAILABLE\<close>. Decompression is loaded for CUDA 12.8 or later with a
  kernel driver of major version 570 or later.\<close>

definition CuDriverApi :: "bool \<Rightarrow> cuda_env \<Rightarrow> int \<Rightarrow> int \<Rightarrow> int \<Rightarrow> cudr_error + cu_driver_api" where
  "CuDriverApi hw_decom env cu_major cu_minor kdm_major =
     err_bind (fold_err (safe_load env) driver_entry_points []) (\<lambda>names.
       err_bind (if hw_decom \<and> ((cu_major = 12 \<and> 8 \<le> cu_minor) \<or> 12 < cu_major) \<and> 570 \<le> kdm_major
                 then map_sum id (\<lambda>ns. (ns, True)) (safe_load env ''cuMemBatchDecompressAsync'' names)
                 else Inr (names, False)) (\<lambda>(ns, dec).
         if ''cuMemGetAllocationGranularity'' \<notin> set ns then Inl (EntryPointFailed ''cuMemGetAllocationGranularity'')
         else Inr \<lparr>loaded = ns, decompress = dec\<rparr>))"

text \<open>\<open>ThrowIfError(status, fn, line, file)\<close>: nothing on \<open>CUDA_SUCCESS\<close> (0); otherwise the
  \<open>LOG(FATAL)\<close> message, with the error's name and description where the driver gives
  them.\<close>

definition ThrowIfError :: "cuda_env \<Rightarrow> int \<Rightarrow> string \<Rightarrow> nat \<Rightarrow> string \<Rightarrow> cudr_error + unit" where
  "ThrowIfError env status fn line file =
     (if status = 0 then Inr ()
      else Inl (CudaDriverError
        (fn @ ''['' @ file @ '':'' @ decimal line @ '']:'' @
         (case error_name env status of Some name \<Rightarrow> ''CUDA driver error:'' @ '' '' @ name @ ''.'' | None \<Rightarrow> []) @
         (case error_string env status of Some msg \<Rightarrow> '' '' @ msg @ ''\<newline>'' | None \<Rightarrow> []))))"

subsection \<open>The process-wide caches\<close>

text \<open>The function-local statics of \<open>GetVersionFromSmiGlobal\<close>,
  \<open>GetC2cLinkCountFromSmiGlobal\<close> and \<open>GetGlobalCuDriverApi\<close>, each with its
  \<open>once_flag\<close>.\<close>

record cudr_state =
  ver_once :: bool
  ver_major :: int
  ver_minor :: int
  ver_result :: bool
  c2c_once :: bool
  c2c_cnt :: int
  api :: "cu_driver_api option"

definition cudr_init :: cudr_state where
  "cudr_init = \<lparr>ver_once = False, ver_major = -1, ver_minor = -1, ver_result = False,
     c2c_once = False, c2c_cnt = -1, api = None\<rparr>"

definition GetVersionFromSmiGlobal ::
  "cuda_env \<Rightarrow> cudr_state \<Rightarrow> ((bool \<times> int \<times> int) \<times> cudr_state) option" where
  "GetVersionFromSmiGlobal env st =
     (if ver_once st then Some ((ver_result st, ver_major st, ver_minor st), st)
      else map_option (\<lambda>(r, major, minor).
               ((r, major, minor),
                st\<lparr>ver_once := True, ver_major := major, ver_minor := minor, ver_result := r\<rparr>))
             (GetVersionFromSmi (cmd_output env smi_version_cmd)))"

definition GetC2cLinkCountFromSmiGlobal :: "cuda_env \<Rightarrow> cudr_state \<Rightarrow> int \<times> cudr_state" where
  "GetC2cLinkCountFromSmiGlobal env st =
     (if c2c_once st then (c2c_cnt st, st)
      else (let cnt = GetC2cLinkCountFromSmi env in (cnt, st\<lparr>c2c_once := True, c2c_cnt := cnt\<rparr>)))"

text \<open>\<open>GetGlobalCuDriverApi\<close>: the runtime's driver version and the cached \<open>nvidia-smi\<close>
  version are read on every call; the API is built once, and the \<open>once_flag\<close> is set
  exactly when it is there. A constructor that throws leaves the flag unset, as
  \<open>std::call_once\<close> does.\<close>

definition GetGlobalCuDriverApi ::
  "bool \<Rightarrow> cuda_env \<Rightarrow> cudr_state \<Rightarrow> ((cudr_error + cu_driver_api) \<times> cudr_state) option" where
  "GetGlobalCuDriverApi hw_decom env st =
     (case dr_version env of (cu_major, cu_minor) \<Rightarrow>
       map_option (\<lambda>((res, kdm_major0, kdm_minor), st1).
           let kdm_major = (if \<not> res then -1 else kdm_major0) in
           (case api st1 of
              Some a \<Rightarrow> (Inr a, st1)
            | None \<Rightarrow>
                (case CuDriverApi hw_decom env cu_major cu_minor kdm_major of
                   Inl e \<Rightarrow> (Inl e, st1)
                 | Inr a \<Rightarrow> (Inr a, st1\<lparr>api := Some a\<rparr>))))
         (GetVersionFromSmiGlobal env st))"

subsection \<open>Memory locations\<close>

datatype mem_location_type = LocDevice | LocHost | LocHostNuma | LocHostNumaCurrent

text \<open>\<open>MakeCuMemLocation\<close>: a device location is the current device; any other location
  asks the driver for the device's host NUMA node, each call through
  \<open>safe_cu\<close> (line 112 and 113 of the file), and takes at least node 0.\<close>

definition MakeCuMemLocation ::
  "bool \<Rightarrow> cuda_env \<Rightarrow> cudr_state \<Rightarrow> mem_location_type \<Rightarrow>
     ((cudr_error + (mem_location_type \<times> int)) \<times> cudr_state) option" where
  "MakeCuMemLocation hw_decom env st type =
     (let ordinal = current_device env in
      if type = LocDevice then Some (Inr (type, ordinal), st)
      else
        Option.bind (GetGlobalCuDriverApi hw_decom env st) (\<lambda>(r1, st1).
          case r1 of
            Inl e \<Rightarrow> Some (Inl e, st1)
          | Inr _ \<Rightarrow>
              (case ThrowIfError env (device_get_status env) ''cuDeviceGet'' 112 ''cuda_dr_utils.cc'' of
                 Inl e \<Rightarrow> Some (Inl e, st1)
               | Inr () \<Rightarrow>
                   map_option (\<lambda>(r2, st2).
                       case r2 of
                         Inl e \<Rightarrow> (Inl e, st2)
                       | Inr _ \<Rightarrow>
                           (case host_numa_id env of (status, numa_id) \<Rightarrow>
                              (case ThrowIfError env status ''cuDeviceGetAttribute'' 113 ''cuda_dr_utils.cc'' of
                                 Inl e \<Rightarrow> (Inl e, st2)
                               | Inr () \<Rightarrow> (Inr (type, max numa_id 0), st2))))
                     (GetGlobalCuDriverApi hw_decom env st1))))"

datatype alloc_type = AllocPinned

record alloc_prop =
  prop_type :: alloc_type
  prop_location :: "mem_location_type \<times> int"

definition MakeAllocProp ::
  "bool \<Rightarrow> cuda_env \<Rightarrow> cudr_state \<Rightarrow> mem_location_type \<Rightarrow>
     ((cudr_error + alloc_prop) \<times> cudr_state) option" where
  "MakeAllocProp hw_decom env st type =
     map_option (\<lambda>(r, st').
         (map_sum id (\<lambda>loc. \<lparr>prop_type = AllocPinned, prop_location = loc\<rparr>) r, st'))
       (MakeCuMemLocation hw_decom env st type)"

subsection \<open>Reachable cache states\<close>

text \<open>The caches of one process, in one environment, after any sequence of calls of the
  cached functions and of \<open>MakeAllocProp\<close>.\<close>

inductive cudr_reach :: "bool \<Rightarrow> cuda_env \<Rightarrow> cudr_state \<Rightarrow> bool" where
  init: "cudr_reach hw env cudr_init"
| ver: "cudr_reach hw env st \<Longrightarrow> GetVersionFromSmiGlobal env st = Some (v, st') \<Longrightarrow>
        cudr_reach hw env st'"
| c2c: "cudr_reach hw env st \<Longrightarrow> GetC2cLinkCountFromSmiGlobal env st = (c, st') \<Longrightarrow>
        cudr_reach hw env st'"
| api: "cudr_reach hw env st \<Longrightarrow> GetGlobalCuDriverApi hw env st = Some (r, st') \<Longrightarrow>
        cudr_reach hw env st'"
| alloc: "cudr_reach hw env st \<Longrightarrow> MakeAllocProp hw env st t = Some (r, st') \<Longrightarrow>
          cudr_reach hw env st'"

definition decompress_ok :: "bool \<Rightarrow> int \<Rightarrow> int \<Rightarrow> int \<Rightarrow> bool" where
  "decompress_ok hw cu_major cu_minor kdm_major \<longleftrightarrow>
     hw \<and> ((cu_major = 12 \<and> 8 \<le> cu_minor) \<or> 12 < cu_major) \<and> 570 \<le> kdm_major"

definition cudr_inv :: "bool \<Rightarrow> cuda_env \<Rightarrow> cudr_state \<Rightarrow> bool" where
  "cudr_inv hw env st \<longleftrightarrow>
     (\<not> ver_result st \<longrightarrow> ver_major st = -1 \<and> ver_minor st = -1) \<and>
     (\<not> ver_once st \<longrightarrow> \<not> ver_result st) \<and>
     (\<not> c2c_once st \<longrightarrow> c2c_cnt st = -1) \<and>
     (case api st of None \<Rightarrow> True
      | Some a \<Rightarrow> ver_once st \<and>
          loaded a = driver_entry_points @ (if decompress a then [''cuMemBatchDecompressAsync''] else []) \<and>
          decompress a = decompress_ok hw (fst (dr_version env)) (snd (dr_version env))
                           (if ver_result st then ver_major st else -1))"

text \<open>An environment in which every driver call succeeds.\<close>

definition env_example :: cuda_env where
  "env_example = \<lparr>cmd_output = (\<lambda>_. []), visible_gpus = 1, dr_version = (12, 8),
     entry_point_ok = (\<lambda>_. True), current_device = 0, device_get_status = 0,
     host_numa_id = (0, 1), error_name = (\<lambda>_. None), error_string = (\<lambda>_. None)\<rparr>"

declare TrimFirst_def [model_defs] TrimLast_def [model_defs] is_space_def [model_defs]
  is_digit_def [model_defs] digit_value_def [model_defs] digits_loop_def [model_defs]
  from_chars_def [model_defs] GetVersionFromSmi_def [model_defs]
  GetC2cLinkCountFromSmiImpl_def [model_defs] GetC2cLinkCountFromSmi_def [model_defs]
  safe_load_def [model_defs] CuDriverApi_def [model_defs] ThrowIfError_def [model_defs]
  cudr_init_def [model_defs] GetVersionFromSmiGlobal_def [model_defs]
  GetC2cLinkCountFromSmiGlobal_def [model_defs] GetGlobalCuDriverApi_def [model_defs]
  MakeCuMemLocation_def [model_defs] MakeAllocProp_def [model_defs]


subsection \<open>Properties\<close>

lemma digits_loop_Some: "\<exists>r. digits_loop s = Some r"
  unfolding digits_loop_def
  by (rule measure_while_option_Some [where f = "\<lambda>(r, acc). length r" and P = "\<lambda>_. True"]) auto

lemma from_chars_Some: "\<exists>r. from_chars s = Some r"
  using digits_loop_Some by (auto simp: from_chars_def split: prod.splits)

lemma from_chars_range:
  "from_chars s = Some (FcOk v) \<Longrightarrow> - (2 ^ 31) \<le> v \<and> v < 2 ^ 31"
  by (auto simp: from_chars_def Let_def split: prod.splits if_splits)



lemma of_char_digit [simp]: "d < 10 \<Longrightarrow> (of_char (char_of (48 + d)) :: nat) = 48 + d"
  by (simp add: of_char_of)

lemma decimal_digits: "\<forall>c \<in> set (decimal n). is_digit c"
proof (induction n rule: decimal.induct)
  case (1 n)
  then show ?case by (subst decimal.simps) (auto simp: is_digit_def)
qed

lemma decimal_nonempty: "decimal n \<noteq> []"
  by (subst decimal.simps) simp

lemma digits_loop_append:
  assumes "\<forall>c \<in> set ds. is_digit c" and "rest = [] \<or> \<not> is_digit (hd rest)"
  shows "while_option (\<lambda>(r, acc). r \<noteq> [] \<and> is_digit (hd r))
           (\<lambda>(r, acc). (tl r, 10 * acc + digit_value (hd r))) (ds @ rest, acc) =
         Some (rest, foldl (\<lambda>a c. 10 * a + digit_value c) acc ds)"
  using assms(1)
proof (induction ds arbitrary: acc)
  case Nil
  then show ?case using assms(2) by (subst while_option_unfold) (auto)
next
  case (Cons c ds)
  then show ?case by (subst while_option_unfold) (simp)
qed

lemma digits_val_decimal: "foldl (\<lambda>a c. 10 * a + digit_value c) 0 (decimal n) = int n"
proof (induction n rule: decimal.induct)
  case (1 n)
  show ?case
  proof (cases "n < 10")
    case True
    then show ?thesis by (subst decimal.simps) (simp add: digit_value_def)
  next
    case False
    then have "foldl (\<lambda>a c. 10 * a + digit_value c) 0 (decimal n) = 10 * foldl (\<lambda>a c. 10 * a + digit_value c) 0 (decimal (n div 10)) + int (n mod 10)"
      by (subst decimal.simps) (simp add: digit_value_def)
    moreover have "10 * int (n div 10) + int (n mod 10) = int n"
      by (metis of_nat_add of_nat_mult div_mult_mod_eq of_nat_numeral mult.commute)
    ultimately show ?thesis using "1.IH" False by simp
  qed
qed

lemma from_chars_decimal:
  assumes "n < 2 ^ 31" and "rest = [] \<or> \<not> is_digit (hd rest)"
  shows "from_chars (decimal n @ rest) = Some (FcOk (int n))"
proof -
  have hd: "hd (decimal n @ rest) \<noteq> CHR ''-''"
    using decimal_digits [of n] decimal_nonempty [of n]
    by (cases "decimal n") (auto simp: is_digit_def)
  have "digits_loop (decimal n @ rest) = Some (rest, int n)"
    using digits_loop_append [OF decimal_digits [of n] assms(2), where acc = 0]
    by (simp add: digits_loop_def digits_val_decimal)
  then show ?thesis using hd assms(1) decimal_nonempty [of n] by (simp add: from_chars_def)
qed

lemma Split_Nil [simp]: "Split [] d = []"
  by (subst Split.simps) simp

lemma Split_delim: "d \<notin> set x \<Longrightarrow> Split (x @ d # y) d = x # Split y d"
  by (subst Split.simps) (simp add: takeWhile_append dropWhile_append)

lemma Split_last:
  assumes "x \<noteq> []" and "d \<notin> set x"
  shows "Split x d = [x]"
proof -
  have e: "dropWhile (\<lambda>c. c \<noteq> d) x = []" "takeWhile (\<lambda>c. c \<noteq> d) x = x"
    using assms(2) by (auto simp: dropWhile_eq_Nil_conv takeWhile_eq_all_conv)
  show ?thesis by (subst Split.simps) (simp add: e assms(1))
qed

lemma TrimFirst_digit: "s \<noteq> [] \<Longrightarrow> is_digit (hd s) \<Longrightarrow> TrimFirst s = s"
  by (cases s) (auto simp: TrimFirst_def is_digit_def is_space_def)

lemma decimal_excludes: "\<not> is_digit c \<Longrightarrow> c \<notin> set (decimal n)"
  using decimal_digits [of n] by auto

lemma dot_newline_not_digit [simp]: "\<not> is_digit (CHR ''.'')" "\<not> is_digit (CHR ''\<newline>'')"
  by (simp_all add: is_digit_def)

text \<open>C10: a driver version printed as \<open>major.minor.patch\<close> on the line after the header is parsed back as \<open>(true, major, minor)\<close> when major and minor fit in 32 bits.\<close>

theorem GetVersionFromSmi_decimal:
  assumes "CHR ''\<newline>'' \<notin> set hdr" and "ma < 2 ^ 31" and "mi < 2 ^ 31"
  shows "GetVersionFromSmi (hdr @ CHR ''\<newline>'' # decimal ma @ CHR ''.'' # decimal mi @
           CHR ''.'' # decimal pa @ CHR ''\<newline>'' # rest) = Some (True, int ma, int mi)"
proof -
  let ?line = "decimal ma @ CHR ''.'' # decimal mi @ CHR ''.'' # decimal pa"
  have nl: "CHR ''\<newline>'' \<notin> set ?line" by (simp add: decimal_excludes)
  have "Split (hdr @ CHR ''\<newline>'' # ?line @ CHR ''\<newline>'' # rest) (CHR ''\<newline>'') =
        hdr # ?line # Split rest (CHR ''\<newline>'')"
    using Split_delim [OF assms(1)] Split_delim [OF nl, of rest] by simp
  moreover have "TrimFirst ?line = ?line"
    using decimal_nonempty [of ma] decimal_digits [of ma]
    by (intro TrimFirst_digit) (auto simp: hd_append)
  moreover have "Split ?line (CHR ''.'') = [decimal ma, decimal mi, decimal pa]"
    by (simp add: Split_delim Split_last decimal_excludes decimal_nonempty)
  moreover have "from_chars (decimal ma) = Some (FcOk (int ma))"
    using from_chars_decimal [OF assms(2), of "[]"] by simp
  moreover have "from_chars (decimal mi) = Some (FcOk (int mi))"
    using from_chars_decimal [OF assms(3), of "[]"] by simp
  ultimately show ?thesis by (simp add: GetVersionFromSmi_def)
qed

lemma GetVersionFromSmi_decimal_witness:
  "GetVersionFromSmi (''GPU'' @ CHR ''\<newline>'' # decimal 570 @ CHR ''.'' # decimal 86 @
     CHR ''.'' # decimal 10 @ CHR ''\<newline>'' # []) = Some (True, 570, 86)"
  using GetVersionFromSmi_decimal [of "''GPU''" 570 86 10 "[]"] by simp


lemma fold_safe_load:
  "fold_err (safe_load env) ns acc =
     (if \<forall>n \<in> set ns. entry_point_ok env n then Inr (acc @ ns)
      else Inl (EntryPointFailed (hd (filter (\<lambda>n. \<not> entry_point_ok env n) ns))))"
  by (induction ns arbitrary: acc) (auto simp: safe_load_def)

text \<open>C4: the driver API constructor loads the twelve entry points in order and fails with the first one that does not resolve; it loads the decompression entry point, and fails if that does not resolve, exactly when the build has hardware decompression, the CUDA runtime is 12.8 or later and the kernel driver is 570 or later.\<close>

theorem CuDriverApi_result:
  "CuDriverApi hw env cu_major cu_minor kdm_major =
     (let dec = decompress_ok hw cu_major cu_minor kdm_major in
      if \<not> (\<forall>n \<in> set driver_entry_points. entry_point_ok env n)
      then Inl (EntryPointFailed (hd (filter (\<lambda>n. \<not> entry_point_ok env n) driver_entry_points)))
      else if dec \<and> \<not> entry_point_ok env ''cuMemBatchDecompressAsync''
      then Inl (EntryPointFailed ''cuMemBatchDecompressAsync'')
      else Inr \<lparr>loaded = driver_entry_points @ (if dec then [''cuMemBatchDecompressAsync''] else []),
                decompress = dec\<rparr>)"
proof -
  have "''cuMemGetAllocationGranularity'' \<in> set driver_entry_points"
    by (simp add: driver_entry_points_def)
  then show ?thesis
    by (auto simp: CuDriverApi_def fold_safe_load decompress_ok_def safe_load_def Let_def)
qed


lemma GetVersionFromSmi_Invalid:
  "GetVersionFromSmi out = Some (False, major, minor) \<Longrightarrow> major = -1 \<and> minor = -1"
  by (auto simp: GetVersionFromSmi_def Let_def split: if_splits option.splits fc_result.splits)

lemma GetVersionFromSmi_Some: "\<exists>r. GetVersionFromSmi out = Some r"
  using from_chars_Some [of "Split (TrimFirst (Split out (CHR ''\<newline>'') ! 1)) (CHR ''.'') ! 0"]
        from_chars_Some [of "Split (TrimFirst (Split out (CHR ''\<newline>'') ! 1)) (CHR ''.'') ! 1"]
  by (auto simp: GetVersionFromSmi_def Let_def split: fc_result.splits)

lemma GetVersionFromSmiGlobal_Some: "\<exists>r. GetVersionFromSmiGlobal env st = Some r"
  using GetVersionFromSmi_Some by (auto simp: GetVersionFromSmiGlobal_def)

lemma GetVersionFromSmiGlobal_state:
  assumes "GetVersionFromSmiGlobal env st = Some ((r, major, minor), st1)"
  shows "r = ver_result st1 \<and> major = ver_major st1 \<and> minor = ver_minor st1 \<and> ver_once st1 \<and>
         api st1 = api st \<and> c2c_once st1 = c2c_once st \<and> c2c_cnt st1 = c2c_cnt st \<and>
         (ver_once st \<longrightarrow> st1 = st)"
  using assms by (auto simp: GetVersionFromSmiGlobal_def split: if_splits)

lemma GetGlobalCuDriverApi_Some: "\<exists>r. GetGlobalCuDriverApi hw env st = Some r"
proof -
  obtain v where "GetVersionFromSmiGlobal env st = Some v"
    using GetVersionFromSmiGlobal_Some by blast
  then show ?thesis by (simp add: GetGlobalCuDriverApi_def split: prod.splits)
qed

lemma MakeCuMemLocation_Some: "\<exists>r. MakeCuMemLocation hw env st t = Some r"
proof -
  obtain r1 st1 where g1: "GetGlobalCuDriverApi hw env st = Some (r1, st1)"
    using GetGlobalCuDriverApi_Some by fastforce
  obtain r2 st2 where g2: "GetGlobalCuDriverApi hw env st1 = Some (r2, st2)"
    using GetGlobalCuDriverApi_Some by fastforce
  show ?thesis
  proof (cases r1)
    case (Inr a)
    then show ?thesis using g1 g2
      by (cases "ThrowIfError env (device_get_status env) ''cuDeviceGet'' 112 ''cuda_dr_utils.cc''")
         (simp_all add: MakeCuMemLocation_def Let_def split: unit.split prod.split)
  qed (simp add: MakeCuMemLocation_def Let_def g1)
qed


lemma MakeAllocProp_steps:
  assumes "MakeAllocProp hw env st t = Some (r, st')"
  shows "st' = st \<or> (\<exists>r1. GetGlobalCuDriverApi hw env st = Some (r1, st')) \<or>
         (\<exists>r1 st1 r2. GetGlobalCuDriverApi hw env st = Some (r1, st1) \<and>
                      GetGlobalCuDriverApi hw env st1 = Some (r2, st'))"
proof (cases "t = LocDevice")
  case True
  then show ?thesis using assms by (simp add: MakeAllocProp_def MakeCuMemLocation_def)
next
  case False
  obtain r1 st1 where g1: "GetGlobalCuDriverApi hw env st = Some (r1, st1)"
    using GetGlobalCuDriverApi_Some by fastforce
  obtain r2 st2 where g2: "GetGlobalCuDriverApi hw env st1 = Some (r2, st2)"
    using GetGlobalCuDriverApi_Some by fastforce
  have "st' = st1 \<or> st' = st2"
  proof (cases r1)
    case (Inl e)
    then show ?thesis using assms False g1 by (simp add: MakeAllocProp_def MakeCuMemLocation_def)
  next
    case (Inr a)
    then show ?thesis using assms False g1 g2
      by (cases "ThrowIfError env (device_get_status env) ''cuDeviceGet'' 112 ''cuda_dr_utils.cc''")
         (auto simp: MakeAllocProp_def MakeCuMemLocation_def split: unit.splits prod.splits sum.splits)
  qed
  then show ?thesis using g1 g2 by blast
qed

lemma cudr_inv_init: "cudr_inv hw env cudr_init"
  by (simp add: cudr_inv_def cudr_init_def)

lemma cudr_inv_ver:
  "cudr_inv hw env st \<Longrightarrow> GetVersionFromSmiGlobal env st = Some (v, st') \<Longrightarrow> cudr_inv hw env st'"
  by (auto simp: cudr_inv_def GetVersionFromSmiGlobal_def dest: GetVersionFromSmi_Invalid
           split: if_splits option.splits)

lemma cudr_inv_c2c:
  "cudr_inv hw env st \<Longrightarrow> GetC2cLinkCountFromSmiGlobal env st = (c, st') \<Longrightarrow> cudr_inv hw env st'"
  by (auto simp: cudr_inv_def GetC2cLinkCountFromSmiGlobal_def Let_def split: if_splits option.splits)

lemma cudr_inv_api:
  assumes "cudr_inv hw env st" and "GetGlobalCuDriverApi hw env st = Some (r, st')"
  shows "cudr_inv hw env st'"
proof -
  obtain res major minor st1 where v: "GetVersionFromSmiGlobal env st = Some ((res, major, minor), st1)"
    using GetVersionFromSmiGlobal_Some by (metis prod.exhaust)
  have inv1: "cudr_inv hw env st1" using cudr_inv_ver [OF assms(1) v] .
  note s1 = GetVersionFromSmiGlobal_state [OF v]
  show ?thesis
  proof (cases "api st1")
    case None
    then show ?thesis
      using assms(2) v inv1 s1
      by (auto simp: GetGlobalCuDriverApi_def CuDriverApi_result cudr_inv_def Let_def
               split: prod.splits if_splits)
  next
    case (Some a)
    then show ?thesis using assms(2) v inv1 by (auto simp: GetGlobalCuDriverApi_def split: prod.splits)
  qed
qed

text \<open>C20: in every cache state reachable by the cached calls, an unset or invalid version cache holds -1/-1, an unset link-count cache holds -1, and a cached driver API was built after the version cache was filled, holds the twelve entry points and holds the decompression entry point exactly when the version condition held for the cached driver version.\<close>

theorem cudr_reach_inv: "cudr_reach hw env st \<Longrightarrow> cudr_inv hw env st"
proof (induction rule: cudr_reach.induct)
  case (alloc hw env st t r st')
  then show ?case using MakeAllocProp_steps [OF alloc.hyps(2)] cudr_inv_api by blast
qed (auto intro: cudr_inv_init cudr_inv_ver cudr_inv_c2c cudr_inv_api)


lemma GetGlobalCuDriverApi_cached:
  "ver_once st \<Longrightarrow> api st = Some a \<Longrightarrow> GetGlobalCuDriverApi hw env st = Some (Inr a, st)"
  by (simp add: GetGlobalCuDriverApi_def GetVersionFromSmiGlobal_def split: prod.splits)

lemma GetGlobalCuDriverApi_Inr:
  assumes "\<forall>n. entry_point_ok env n"
  shows "\<exists>a st'. GetGlobalCuDriverApi hw env st = Some (Inr a, st') \<and> api st' = Some a \<and> ver_once st'"
proof -
  obtain res major minor st1 where v: "GetVersionFromSmiGlobal env st = Some ((res, major, minor), st1)"
    using GetVersionFromSmiGlobal_Some by (metis prod.exhaust)
  note s1 = GetVersionFromSmiGlobal_state [OF v]
  obtain cm cn where dv: "dr_version env = (cm, cn)" by fastforce
  show ?thesis
  proof (cases "api st1")
    case None
    let ?k = "if \<not> res then -1 else major"
    let ?a = "\<lparr>loaded = driver_entry_points @
                (if decompress_ok hw cm cn ?k then [''cuMemBatchDecompressAsync''] else []),
              decompress = decompress_ok hw cm cn ?k\<rparr>"
    have "GetGlobalCuDriverApi hw env st = Some (Inr ?a, st1\<lparr>api := Some ?a\<rparr>)"
      using v dv None assms by (simp add: GetGlobalCuDriverApi_def CuDriverApi_result)
    then show ?thesis using s1 by auto
  next
    case (Some a)
    have "GetGlobalCuDriverApi hw env st = Some (Inr a, st1)"
      using v dv Some by (simp add: GetGlobalCuDriverApi_def)
    then show ?thesis using s1 Some by auto
  qed
qed

text \<open>C26: when every driver entry point resolves, \<open>GetGlobalCuDriverApi\<close> returns an API from any cache state and stores it, and the next call returns the same API without changing the state.\<close>

theorem GetGlobalCuDriverApi_live:
  assumes "\<forall>n. entry_point_ok env n"
  shows "\<exists>a st'. GetGlobalCuDriverApi hw env st = Some (Inr a, st') \<and> api st' = Some a \<and>
                GetGlobalCuDriverApi hw env st' = Some (Inr a, st')"
  using GetGlobalCuDriverApi_Inr [OF assms, of hw st] GetGlobalCuDriverApi_cached by blast

lemma MakeCuMemLocation_after_api:
  assumes "\<forall>n. entry_point_ok env n" and "t \<noteq> LocDevice"
  obtains a st1 where "GetGlobalCuDriverApi hw env st = Some (Inr a, st1)"
    and "GetGlobalCuDriverApi hw env st1 = Some (Inr a, st1)"
    and "MakeCuMemLocation hw env st t =
           (case ThrowIfError env (device_get_status env) ''cuDeviceGet'' 112 ''cuda_dr_utils.cc'' of
              Inl e \<Rightarrow> Some (Inl e, st1)
            | Inr _ \<Rightarrow>
                (case ThrowIfError env (fst (host_numa_id env)) ''cuDeviceGetAttribute'' 113 ''cuda_dr_utils.cc'' of
                   Inl e \<Rightarrow> Some (Inl e, st1)
                 | Inr _ \<Rightarrow> Some (Inr (t, max (snd (host_numa_id env)) 0), st1)))"
proof -
  obtain a st1 where g1: "GetGlobalCuDriverApi hw env st = Some (Inr a, st1)" and
    "api st1 = Some a" and "ver_once st1"
    using GetGlobalCuDriverApi_Inr [OF assms(1)] by blast
  then have g2: "GetGlobalCuDriverApi hw env st1 = Some (Inr a, st1)"
    by (simp add: GetGlobalCuDriverApi_cached)
  show ?thesis
    by (rule that [OF g1 g2])
       (simp add: MakeCuMemLocation_def Let_def assms(2) g1 g2 split: sum.split unit.split prod.split)
qed

text \<open>A failing \<open>cuDeviceGet\<close> stops the location with the message of line 112.\<close>


theorem MakeAllocProp_host:
  assumes "\<forall>n. entry_point_ok env n" and "t \<noteq> LocDevice" and "device_get_status env = 0"
    and "host_numa_id env = (0, numa)"
  shows "\<exists>st'. MakeAllocProp hw env st t =
           Some (Inr \<lparr>prop_type = AllocPinned, prop_location = (t, max numa 0)\<rparr>, st')"
proof -
  obtain a st1 where "GetGlobalCuDriverApi hw env st = Some (Inr a, st1)"
    and "GetGlobalCuDriverApi hw env st1 = Some (Inr a, st1)" and "MakeCuMemLocation hw env st t =
           (case ThrowIfError env (device_get_status env) ''cuDeviceGet'' 112 ''cuda_dr_utils.cc'' of
              Inl e \<Rightarrow> Some (Inl e, st1)
            | Inr _ \<Rightarrow>
                (case ThrowIfError env (fst (host_numa_id env)) ''cuDeviceGetAttribute'' 113 ''cuda_dr_utils.cc'' of
                   Inl e \<Rightarrow> Some (Inl e, st1)
                 | Inr _ \<Rightarrow> Some (Inr (t, max (snd (host_numa_id env)) 0), st1)))"
    by (rule MakeCuMemLocation_after_api [OF assms(1,2)])
  then show ?thesis using assms(3,4) by (simp add: ThrowIfError_def MakeAllocProp_def)
qed

lemma GetGlobalCuDriverApi_live_witness:
  "\<exists>a st'. GetGlobalCuDriverApi True env_example cudr_init = Some (Inr a, st') \<and> api st' = Some a \<and>
          GetGlobalCuDriverApi True env_example st' = Some (Inr a, st')"
  using GetGlobalCuDriverApi_live [of env_example True cudr_init] by (simp add: env_example_def)



lemma MakeAllocProp_host_witness:
  "\<exists>st'. MakeAllocProp True env_example cudr_init LocHostNuma =
     Some (Inr \<lparr>prop_type = AllocPinned, prop_location = (LocHostNuma, 1)\<rparr>, st')"
  using MakeAllocProp_host [of env_example LocHostNuma 1 True cudr_init] by (simp add: env_example_def)


lemma cudr_reach_inv_witness:
  "cudr_reach True env_example cudr_init \<and> cudr_inv True env_example cudr_init"
  using cudr_reach_inv [of True env_example cudr_init] cudr_reach.init by blast

lemma CuDriverApi_result_witness:
  "CuDriverApi True env_example 12 8 570 =
     Inr \<lparr>loaded = driver_entry_points @ [''cuMemBatchDecompressAsync''], decompress = True\<rparr>"
  using CuDriverApi_result [of True env_example 12 8 570]
  by (simp add: env_example_def decompress_ok_def)


end
